(* ===== verification/Helix_Prelude.thy ===== *)
theory Helix_Prelude
  imports "HOL-Library.Word" "HOL-Library.AList" "HOL-Library.Multiset"
begin

text \<open>
  Shared vocabulary of the Helix relay development: the widths of the machine integers and
  byte strings the Rust code uses, the \<open>Result\<close> combinators, the iterator adaptors of the Rust
  standard library that the relay relies on (\<open>reduce\<close>, \<open>max_by_key\<close>, \<open>min_by_key\<close>), saturating
  word arithmetic, hash maps as association lists, and runs of a step function together with the
  locale that lifts a step invariant to whole runs.

  A Rust panic is the value \<^const>\<open>None\<close> of an option; a Rust \<open>Result\<close> is a sum whose left
  summand is the error.  A hash map is an association list with distinct keys whose order is the
  iteration order, which the Rust map leaves unspecified; the theorems never depend on it.
\<close>

section \<open>Types\<close>

type_synonym u8 = "8 word"
type_synonym u16 = "16 word"
type_synonym u32 = "32 word"
type_synonym u64 = "64 word"
type_synonym U256 = "256 word"
type_synonym B256 = "256 word"
type_synonym Address = "160 word"
type_synonym BlsPublicKeyBytes = "384 word"
type_synonym Slot = u64
type_synonym bytes = "u8 list"
type_synonym ('k, 'v) FxHashMap = "('k \<times> 'v) list"
type_synonym ('e, 'a) Result = "'e + 'a"

named_theorems helix_defs \<open>definitions unfolded by the component proofs\<close>
named_theorems helix_inv \<open>preservation lemmas of the component invariants\<close>

section \<open>Results\<close>

definition and_then :: "('e, 'a) Result \<Rightarrow> ('a \<Rightarrow> ('e, 'b) Result) \<Rightarrow> ('e, 'b) Result" where
  "and_then r f = (case r of Inl e \<Rightarrow> Inl e | Inr x \<Rightarrow> f x)"

definition ensure :: "bool \<Rightarrow> 'e \<Rightarrow> ('e, unit) Result" where
  "ensure ok e = (if ok then Inr () else Inl e)"

definition map_err :: "('e \<Rightarrow> 'f) \<Rightarrow> ('e, 'a) Result \<Rightarrow> ('f, 'a) Result" where
  "map_err f r = (case r of Inl e \<Rightarrow> Inl (f e) | Inr x \<Rightarrow> Inr x)"

definition is_ok :: "('e, 'a) Result \<Rightarrow> bool" where
  "is_ok r = (case r of Inl _ \<Rightarrow> False | Inr _ \<Rightarrow> True)"

section \<open>Iterator adaptors\<close>

fun reduce :: "('a \<Rightarrow> 'a \<Rightarrow> 'a) \<Rightarrow> 'a list \<Rightarrow> 'a option" where
  "reduce f [] = None"
| "reduce f (x # xs) = Some (foldl f x xs)"

text \<open>\<open>Iterator::max_by_key\<close> returns the last maximal element, \<open>Iterator::min_by_key\<close> the first
  minimal one.\<close>

definition max_by_key :: "('a \<Rightarrow> 'k::linorder) \<Rightarrow> 'a list \<Rightarrow> 'a option" where
  "max_by_key k xs = reduce (\<lambda>best x. if k best \<le> k x then x else best) xs"

definition min_by_key :: "('a \<Rightarrow> 'k::linorder) \<Rightarrow> 'a list \<Rightarrow> 'a option" where
  "min_by_key k xs = reduce (\<lambda>best x. if k x < k best then x else best) xs"

text \<open>\<open>Vec::swap_remove\<close>: the element at the index, and the list with the last element in its place.\<close>

definition swap_remove :: "nat \<Rightarrow> 'a list \<Rightarrow> 'a list" where
  "swap_remove i xs = butlast (xs[i := last xs])"

section \<open>Strings\<close>

definition ascii_lower :: "char \<Rightarrow> char" where
  "ascii_lower c = (if 65 \<le> (of_char c :: nat) \<and> (of_char c :: nat) \<le> 90
                    then char_of ((of_char c :: nat) + 32) else c)"

definition eq_ignore_ascii_case :: "string \<Rightarrow> string \<Rightarrow> bool" where
  "eq_ignore_ascii_case a b = (map ascii_lower a = map ascii_lower b)"

section \<open>Saturating and checked word arithmetic\<close>

definition saturating_sub :: "'w::len word \<Rightarrow> 'w word \<Rightarrow> 'w word" where
  "saturating_sub a b = (if b \<le> a then a - b else 0)"

definition saturating_add :: "'w::len word \<Rightarrow> 'w word \<Rightarrow> 'w word" where
  "saturating_add a b = (if unat a + unat b < 2 ^ LENGTH('w) then a + b else - 1)"

section \<open>Runs\<close>

fun run :: "('e \<Rightarrow> 's \<Rightarrow> 's option) \<Rightarrow> 'e list \<Rightarrow> 's \<Rightarrow> 's option" where
  "run step [] s = Some s"
| "run step (e # es) s = (case step e s of None \<Rightarrow> None | Some s' \<Rightarrow> run step es s')"

section \<open>Lemmas on results\<close>

lemma and_then_Inr [simp]: "and_then (Inr x) f = f x"
  by (simp add: and_then_def)

lemma and_then_Inl [simp]: "and_then (Inl e) f = Inl e"
  by (simp add: and_then_def)

lemma and_then_eq_Inr: "and_then r f = Inr y \<longleftrightarrow> (\<exists>x. r = Inr x \<and> f x = Inr y)"
  by (cases r) simp_all

lemma and_then_eq_Inl:
  "and_then r f = Inl e \<longleftrightarrow> r = Inl e \<or> (\<exists>x. r = Inr x \<and> f x = Inl e)"
  by (cases r) simp_all

lemma ensure_eq_Inr [simp]: "ensure ok e = Inr u \<longleftrightarrow> ok"
  by (simp add: ensure_def)

lemma ensure_eq_Inl [simp]: "ensure ok e = Inl e' \<longleftrightarrow> \<not> ok \<and> e' = e"
  by (auto simp: ensure_def)

lemma map_err_eq_Inr [simp]: "map_err f r = Inr x \<longleftrightarrow> r = Inr x"
  by (cases r) (simp_all add: map_err_def)

lemma is_ok_simps [simp]: "is_ok (Inr x)" "\<not> is_ok (Inl e)"
  by (simp_all add: is_ok_def)

section \<open>Lemmas on iterator adaptors\<close>

lemma foldl_select_mem:
  assumes "\<And>a b. f a b = a \<or> f a b = b"
  shows "foldl f x xs \<in> insert x (set xs)"
proof (induction xs arbitrary: x)
  case Nil
  then show ?case by simp
next
  case (Cons y ys)
  then show ?case using assms [of x y] by (metis foldl_Cons insert_iff list.simps(15))
qed

lemma foldl_select_greatest:
  fixes k :: "'a \<Rightarrow> 'k::linorder"
  assumes "\<And>a b. k a \<le> k (f a b)" "\<And>a b. k b \<le> k (f a b)"
  shows "\<forall>y \<in> insert x (set xs). k y \<le> k (foldl f x xs)"
proof (induction xs arbitrary: x)
  case Nil
  then show ?case by simp
next
  case (Cons z zs)
  have "k (f x z) \<le> k (foldl f (f x z) zs)" using Cons.IH by blast
  then have "k x \<le> k (foldl f (f x z) zs)" "k z \<le> k (foldl f (f x z) zs)"
    using assms(1) [of x z] assms(2) [of z x] by (auto intro: order_trans)
  then show ?case using Cons.IH [of "f x z"] by auto
qed

lemma reduce_None [simp]: "reduce f xs = None \<longleftrightarrow> xs = []"
  by (cases xs) simp_all

lemma reduce_select_mem:
  assumes "reduce f xs = Some y" "\<And>a b. f a b = a \<or> f a b = b"
  shows "y \<in> set xs"
  using assms(1) foldl_select_mem [of f, OF assms(2)] by (cases xs) auto

lemma reduce_select_greatest:
  fixes k :: "'a \<Rightarrow> 'k::linorder"
  assumes "reduce f xs = Some y" "z \<in> set xs"
    and "\<And>a b. k a \<le> k (f a b)" "\<And>a b. k b \<le> k (f a b)"
  shows "k z \<le> k y"
  using assms(1,2) foldl_select_greatest [of k f, OF assms(3,4)] by (cases xs) auto

lemma reduce_max_mem:
  "reduce (\<lambda>best x. if k x > (k best :: 'k::linorder) then x else best) xs = Some y \<Longrightarrow> y \<in> set xs"
  by (erule reduce_select_mem) simp

lemma reduce_max_greatest:
  "reduce (\<lambda>best x. if k x > (k best :: 'k::linorder) then x else best) xs = Some y \<Longrightarrow>
   z \<in> set xs \<Longrightarrow> k z \<le> k y"
  by (erule reduce_select_greatest) auto

lemma max_by_key_None [simp]: "max_by_key k xs = None \<longleftrightarrow> xs = []"
  by (simp add: max_by_key_def)

lemma max_by_key_mem: "max_by_key k xs = Some y \<Longrightarrow> y \<in> set xs"
  unfolding max_by_key_def by (erule reduce_select_mem) simp

lemma max_by_key_greatest: "max_by_key k xs = Some y \<Longrightarrow> z \<in> set xs \<Longrightarrow> k z \<le> k y"
  unfolding max_by_key_def by (erule reduce_select_greatest) auto

lemma min_by_key_None [simp]: "min_by_key k xs = None \<longleftrightarrow> xs = []"
  by (simp add: min_by_key_def)

lemma min_by_key_mem: "min_by_key k xs = Some y \<Longrightarrow> y \<in> set xs"
  unfolding min_by_key_def by (erule reduce_select_mem) simp

lemma foldl_min_least:
  fixes k :: "'a \<Rightarrow> 'k::linorder"
  shows "\<forall>y \<in> insert x (set xs). k (foldl (\<lambda>best x. if k x < k best then x else best) x xs) \<le> k y"
proof (induction xs arbitrary: x)
  case Nil
  then show ?case by simp
next
  case (Cons z zs)
  show ?case using Cons.IH [of "if k z < k x then z else x"]
    by (auto split: if_splits)
qed

lemma min_by_key_least: "min_by_key k xs = Some y \<Longrightarrow> z \<in> set xs \<Longrightarrow> k y \<le> k z"
  using foldl_min_least [of _ _ k] by (cases xs) (auto simp: min_by_key_def)

lemma mset_swap_remove:
  assumes "i < length xs"
  shows "mset xs = add_mset (xs ! i) (mset (swap_remove i xs))"
proof -
  have ne: "xs[i := last xs] \<noteq> []" and last: "last (xs[i := last xs]) = last xs"
    using assms by (cases "xs = []"; simp add: last_list_update)+
  have "mset (xs[i := last xs]) = add_mset (last xs) (mset xs - {#xs ! i#})"
    using assms by (simp add: mset_update)
  moreover have "mset (xs[i := last xs]) = add_mset (last xs) (mset (swap_remove i xs))"
    using append_butlast_last_id [OF ne] last
    by (metis swap_remove_def add_mset_add_single mset.simps mset_append union_mset_add_mset_right)
  ultimately show ?thesis using assms by simp
qed

lemma set_swap_remove: "i < length xs \<Longrightarrow> set (swap_remove i xs) \<subseteq> set xs"
  using mset_swap_remove [of i xs] by (metis mset_subset_eq_add_mset_cancel set_mset_mono set_mset_mset
      subset_mset.le_add_same_cancel2 add_mset_add_single mset_subset_eq_add_left)

section \<open>Lemmas on words\<close>

lemma unat_saturating_sub [simp]: "unat (saturating_sub a b) = unat a - unat b"
  by (auto simp: saturating_sub_def unat_sub word_le_nat_alt)

lemma saturating_sub_le: "saturating_sub a b \<le> a"
  by (simp add: word_le_nat_alt)

lemma unat_saturating_add:
  "unat (saturating_add a (b :: 'w::len word)) = min (unat a + unat b) (2 ^ LENGTH('w) - 1)"
  using unat_word_ariths(1) [of a b] 
  by (auto simp: saturating_add_def unsigned_minus_1_eq_mask mask_eq_exp_minus_1)

section \<open>Hash maps\<close>

lemma map_of_mem_values: "map_of m k = Some v \<Longrightarrow> v \<in> snd ` set m"
  by (force dest: map_of_SomeD)

lemma distinct_keys_update [intro]:
  "distinct (map fst m) \<Longrightarrow> distinct (map fst (AList.update k v m))"
  by (rule distinct_update)

lemma distinct_keys_delete [intro]:
  "distinct (map fst m) \<Longrightarrow> distinct (map fst (AList.delete k m))"
  by (rule distinct_delete)

lemma map_of_delete_other:
  "map_of (AList.delete k m) k' = (if k' = k then None else map_of m k')"
  by (simp add: AList.delete_conv')

lemma map_of_update_other:
  "map_of (AList.update k v m) k' = (if k' = k then Some v else map_of m k')"
  by (simp add: AList.update_conv')

lemma map_of_filter_key:
  "map_of (filter (\<lambda>p. P (fst p)) m) k = (if P k then map_of m k else None)"
  by (induction m) auto

lemma mem_update:
  assumes "distinct (map fst m)"
  shows "p \<in> set (AList.update k v m) \<longleftrightarrow> (if fst p = k then snd p = v else p \<in> set m)"
proof (cases p)
  case (Pair k' v')
  have "(k', v') \<in> set (AList.update k v m) \<longleftrightarrow> map_of (AList.update k v m) k' = Some v'"
    using assms by (simp add: distinct_update)
  then show ?thesis using Pair assms by (auto simp: map_of_update_other)
qed

lemma sum_list_update:
  fixes g :: "'v \<Rightarrow> 'n::ab_group_add"
  shows "sum_list (map (\<lambda>(k, v). g v) (AList.update k v m)) =
    sum_list (map (\<lambda>(k, v). g v) m) - (case map_of m k of Some w \<Rightarrow> g w | None \<Rightarrow> 0) + g v"
  by (induction m) (auto simp: algebra_simps split: option.splits)

lemma sum_list_update_add:
  fixes g :: "'v \<Rightarrow> 'n::comm_monoid_add"
  shows "sum_list (map (\<lambda>(k, v). g v) (AList.update k v m)) + (case map_of m k of Some w \<Rightarrow> g w | None \<Rightarrow> 0) =
    sum_list (map (\<lambda>(k, v). g v) m) + g v"
proof (induction m)
  case Nil
  then show ?case by simp
next
  case (Cons p m)
  then show ?case by (cases p) (auto simp: ac_simps split: option.splits)
qed

lemma sum_list_delete_add:
  fixes g :: "'v \<Rightarrow> 'n::comm_monoid_add"
  assumes "distinct (map fst m)"
  shows "sum_list (map (\<lambda>(k, v). g v) (AList.delete k m)) + (case map_of m k of Some w \<Rightarrow> g w | None \<Rightarrow> 0) =
    sum_list (map (\<lambda>(k, v). g v) m)"
  using assms
proof (induction m)
  case Nil
  then show ?case by simp
next
  case (Cons p m)
  obtain a b where p: "p = (a, b)" by (cases p)
  show ?case
  proof (cases "a = k")
    case True
    then have "AList.delete k m = m" using Cons.prems p
      by (auto simp: AList.delete_eq filter_id_conv image_iff)
    then show ?thesis using True p by (simp add: add.commute)
  next
    case False
    then show ?thesis using Cons p by (auto simp: ac_simps split: option.splits)
  qed
qed

lemma sum_list_swap_remove:
  fixes f :: "'a \<Rightarrow> 'n::comm_monoid_add"
  assumes "i < length xs"
  shows "sum_list (map f xs) = f (xs ! i) + sum_list (map f (swap_remove i xs))"
proof -
  have "sum_list (map f xs) = sum_mset (image_mset f (mset xs))" by (metis sum_mset_sum_list mset_map)
  also have "\<dots> = f (xs ! i) + sum_mset (image_mset f (mset (swap_remove i xs)))"
    by (simp add: mset_swap_remove [OF assms])
  finally show ?thesis by (metis sum_mset_sum_list mset_map)
qed

lemma sum_list_list_update:
  fixes f :: "'a \<Rightarrow> 'n::comm_monoid_add"
  assumes "i < length xs"
  shows "sum_list (map f (xs[i := y])) + f (xs ! i) = sum_list (map f xs) + f y"
  using assms
proof (induction xs arbitrary: i)
  case Nil
  then show ?case by simp
next
  case (Cons a xs)
  then show ?case by (cases i) (auto simp: ac_simps)
qed

lemma fold_frame: "(\<And>r s. f (g r s) = f s) \<Longrightarrow> f (fold g rs s) = f s"
  by (induction rs arbitrary: s) simp_all

lemma mem_delete: "p \<in> set (AList.delete k m) \<longleftrightarrow> p \<in> set m \<and> fst p \<noteq> k"
  by (auto simp: AList.delete_eq)

lemma set_update_subset: "set (AList.update k v m) \<subseteq> insert (k, v) (set m)"
  by (induction m) auto

lemma mem_updateD: "p \<in> set (AList.update k v m) \<Longrightarrow> p = (k, v) \<or> p \<in> set m"
  using set_update_subset by fastforce

section \<open>Lifting a step invariant to runs\<close>

text \<open>The contract of a component driven by operations: every admitted operation that returns keeps
  the invariant.  A run of admitted operations that returns then keeps it as well; when admitted
  operations never panic under the invariant, the run returns.\<close>

locale invariant_machine =
  fixes step :: "'e \<Rightarrow> 's \<Rightarrow> 's option" and admitted :: "'e \<Rightarrow> bool" and inv :: "'s \<Rightarrow> bool"
  assumes step_inv: "inv s \<Longrightarrow> admitted e \<Longrightarrow> step e s = Some s' \<Longrightarrow> inv s'"
begin

lemma run_inv: "inv s \<Longrightarrow> \<forall>e \<in> set es. admitted e \<Longrightarrow> run step es s = Some s' \<Longrightarrow> inv s'"
  by (induction es arbitrary: s) (auto split: option.splits dest: step_inv)

end

locale total_machine = invariant_machine +
  assumes step_total: "inv s \<Longrightarrow> admitted e \<Longrightarrow> step e s \<noteq> None"
begin

lemma run_total: "inv s \<Longrightarrow> \<forall>e \<in> set es. admitted e \<Longrightarrow> \<exists>s'. run step es s = Some s' \<and> inv s'"
proof (induction es arbitrary: s)
  case Nil
  then show ?case by simp
next
  case (Cons e es)
  then obtain s1 where "step e s = Some s1" using step_total by fastforce
  then show ?case using Cons step_inv by auto
qed

end

section \<open>Stores\<close>

text \<open>The contract of a keyed store: a lookup after a write returns the value written under that key
  and is unchanged under every other one.  After a batch of writes the last one for a key wins.\<close>

locale keyed_store =
  fixes get :: "'s \<Rightarrow> 'k \<Rightarrow> 'v option" and put :: "'k \<Rightarrow> 'v \<Rightarrow> 's \<Rightarrow> 's"
  assumes get_put: "get (put k v s) k' = (if k' = k then Some v else get s k')"
begin

lemma get_fold_put:
  "get (fold (\<lambda>(k, v). put k v) kvs s) k =
     (case map_of (rev kvs) k of Some v \<Rightarrow> Some v | None \<Rightarrow> get s k)"
proof (induction kvs arbitrary: s)
  case Nil
  then show ?case by simp
next
  case (Cons p kvs)
  obtain a b where p: "p = (a, b)" by (cases p)
  show ?case using Cons.IH [of "put a b s"]
    by (simp add: p get_put map_add_def split: option.splits)
qed

lemma get_fold_put_mono: "get s k \<noteq> None \<Longrightarrow> get (fold (\<lambda>(k, v). put k v) kvs s) k \<noteq> None"
  by (simp add: get_fold_put split: option.splits)

lemma get_fold_put_new: "k \<in> fst ` set kvs \<Longrightarrow> get (fold (\<lambda>(k, v). put k v) kvs s) k \<noteq> None"
  by (auto simp: get_fold_put map_of_eq_None_iff image_iff split: option.splits)

lemma get_fold_put_cases:
  "get (fold (\<lambda>(k, v). put k v) kvs s) k = Some v \<Longrightarrow> (k, v) \<in> set kvs \<or> get s k = Some v"
  by (auto simp: get_fold_put split: option.splits dest: map_of_SomeD)

end

interpretation alist: keyed_store map_of AList.update
  by unfold_locales (simp add: map_of_update_other)

lemma run_append:
  "run step (es @ fs) s = (case run step es s of None \<Rightarrow> None | Some s' \<Rightarrow> run step fs s')"
  by (induction es arbitrary: s) (auto split: option.splits)

end
