(* ===== verification/Merkle.thy ===== *)
theory Merkle
  imports Helix_Prelude "HOL-Library.Monad_Syntax"
begin

text \<open>
  The SSZ roots of the withdrawals and the transactions of a payload
  (\<open>crates/types/src/execution_payload.rs\<close>).  The code hashes all trees of a payload level by level in
  two buffers, \<open>pairs\<close> and \<open>nodes\<close>; the reference is the recursive SSZ tree.

  A 32-byte chunk is a \<^typ>\<open>B256\<close>, read big-endian.  Buffers are lists of fixed length: a slice_of or a write
  out of range is the panic \<^const>\<open>None\<close>.  The hash of two chunks, the zero-subtree table, the length
  mix-in, the packing of bytes into chunks and the list limits come from an external SSZ library; they
  are the record \<open>merkle_env\<close>.
\<close>

section \<open>Code outside the repository\<close>

record merkle_env =
  hash_concat :: "B256 \<Rightarrow> B256 \<Rightarrow> B256"
  ZERO_HASHES :: "nat \<Rightarrow> B256"
  mix_in_length :: "B256 \<Rightarrow> nat \<Rightarrow> B256"
  uint64_chunk :: "u64 \<Rightarrow> B256"
  pack_byte_chunks :: "bytes \<Rightarrow> B256 list"
  MAX_WITHDRAWALS_PER_PAYLOAD :: nat
  MAX_BYTES_PER_TRANSACTION :: nat
  MAX_TRANSACTIONS_PER_PAYLOAD :: nat

text \<open>The first chunk constant, \<open>ZERO_HASH\<close>, is the zero chunk.\<close>

definition ZERO_HASH :: B256 where
  "ZERO_HASH = 0"

section \<open>Integer operations of the standard library\<close>

definition div_ceil :: "nat \<Rightarrow> nat \<Rightarrow> nat" where
  "div_ceil a b = a div b + (if a mod b > 0 then 1 else 0)"

definition next_multiple_of :: "nat \<Rightarrow> nat \<Rightarrow> nat" where
  "next_multiple_of a b = (if a mod b = 0 then a else a + (b - a mod b))"

fun ilog2 :: "nat \<Rightarrow> nat" where
  "ilog2 n = (if n \<le> 1 then 0 else Suc (ilog2 (n div 2)))"

declare ilog2.simps [simp del]

section \<open>Slices\<close>

definition slice_of :: "'a list \<Rightarrow> nat \<Rightarrow> nat \<Rightarrow> 'a list option" where
  "slice_of buf i j = (if i \<le> j \<and> j \<le> length buf then Some (take (j - i) (drop i buf)) else None)"

definition write_at :: "'a list \<Rightarrow> nat \<Rightarrow> 'a list \<Rightarrow> 'a list option" where
  "write_at buf i xs =
     (if i + length xs \<le> length buf then Some (take i buf @ xs @ drop (i + length xs) buf) else None)"

fun hash_pairs :: "merkle_env \<Rightarrow> B256 list \<Rightarrow> B256 list" where
  "hash_pairs e (a # b # xs) = hash_concat e a b # hash_pairs e xs"
| "hash_pairs e _ = []"

text \<open>\<open>hash_concat_many(&mut out[..n], &in[..m])\<close>.\<close>

definition hash_concat_many ::
  "merkle_env \<Rightarrow> B256 list \<Rightarrow> nat \<Rightarrow> B256 list \<Rightarrow> nat \<Rightarrow> B256 list option" where
  "hash_concat_many e out n inp m =
     (if n \<le> length out \<and> 2 * n = m
      then slice_of inp 0 m \<bind> (\<lambda>xs. write_at out 0 (hash_pairs e xs)) else None)"

section \<open>Batched trees\<close>

fun repack ::
  "merkle_env \<Rightarrow> nat \<Rightarrow> nat list \<Rightarrow> B256 list \<Rightarrow> B256 list \<Rightarrow> nat \<Rightarrow> nat \<Rightarrow> (B256 list \<times> nat) option" where
  "repack e level [] nodes pairs from to = Some (pairs, to)"
| "repack e level (k # rest) nodes pairs from to =
     slice_of nodes from (from + k) \<bind> (\<lambda>xs.
     write_at pairs to xs \<bind> (\<lambda>pairs1.
     (if k mod 2 = 1
      then write_at pairs1 (to + k) [ZERO_HASHES e level] \<bind> (\<lambda>pairs2.
             repack e level rest nodes pairs2 (from + k) (to + k + 1))
      else repack e level rest nodes pairs1 (from + k) (to + k))))"

fun merkleize_levels ::
  "merkle_env \<Rightarrow> nat list \<Rightarrow> nat \<Rightarrow> nat list \<Rightarrow> B256 list \<Rightarrow> B256 list \<Rightarrow> nat \<Rightarrow> (B256 list \<times> B256 list) option" where
  "merkleize_levels e leaves depth [] pairs nodes len = Some (pairs, nodes)"
| "merkleize_levels e leaves depth (level # levels) pairs nodes len =
     hash_concat_many e nodes (len div 2) pairs len \<bind> (\<lambda>nodes1.
     if level = depth then Some (pairs, nodes1)
     else repack e level (map (\<lambda>n. div_ceil n (2 ^ level)) leaves) nodes1 pairs 0 0 \<bind> (\<lambda>(pairs1, len1).
            merkleize_levels e leaves depth levels pairs1 nodes1 len1))"

definition merkleize_trees ::
  "merkle_env \<Rightarrow> B256 list \<Rightarrow> B256 list \<Rightarrow> nat \<Rightarrow> nat list \<Rightarrow> nat \<Rightarrow> (B256 list \<times> B256 list) option" where
  "merkleize_trees e pairs nodes len leaves depth =
     merkleize_levels e leaves depth [1..<Suc depth] pairs nodes len"

section \<open>Withdrawals\<close>

type_synonym withdrawal_fields = "u64 \<times> u64 \<times> Address \<times> u64"

text \<open>\<open>leaf[2][..20].copy_from_slice(address)\<close> on a zero chunk.\<close>

definition address_chunk :: "Address \<Rightarrow> B256" where
  "address_chunk a = push_bit 96 (ucast a)"

definition withdrawal_chunks :: "merkle_env \<Rightarrow> withdrawal_fields \<Rightarrow> B256 list" where
  "withdrawal_chunks e w = (case w of (index, validator_index, address, amount) \<Rightarrow>
     [uint64_chunk e index, uint64_chunk e validator_index, address_chunk address, uint64_chunk e amount])"

definition WITHDRAWALS_DEPTH :: "merkle_env \<Rightarrow> nat" where
  "WITHDRAWALS_DEPTH e = ilog2 (MAX_WITHDRAWALS_PER_PAYLOAD e)"

definition withdrawals_root_of :: "merkle_env \<Rightarrow> withdrawal_fields list \<Rightarrow> B256 option" where
  "withdrawals_root_of e withdrawals =
     (let leaves = map (withdrawal_chunks e) (take (MAX_WITHDRAWALS_PER_PAYLOAD e) withdrawals);
          n = length leaves;
          nodes = replicate (2 * MAX_WITHDRAWALS_PER_PAYLOAD e) ZERO_HASH;
          pairs = replicate (MAX_WITHDRAWALS_PER_PAYLOAD e) ZERO_HASH
      in if n = 0 then Some (mix_in_length e (ZERO_HASHES e (WITHDRAWALS_DEPTH e)) 0)
         else hash_concat_many e nodes (2 * n) (concat leaves) (4 * n) \<bind> (\<lambda>nodes1.
              hash_concat_many e pairs n nodes1 (2 * n) \<bind> (\<lambda>pairs1.
              merkleize_trees e pairs1 nodes1 (next_multiple_of n 2) [n] (WITHDRAWALS_DEPTH e) \<bind>
                (\<lambda>(pairs2, nodes2). Some (mix_in_length e (nodes2 ! 0) n)))))"

section \<open>Transactions\<close>

definition TRANSACTION_DEPTH :: "merkle_env \<Rightarrow> nat" where
  "TRANSACTION_DEPTH e = ilog2 (MAX_BYTES_PER_TRANSACTION e div 32)"

definition TRANSACTIONS_DEPTH :: "merkle_env \<Rightarrow> nat" where
  "TRANSACTIONS_DEPTH e = ilog2 (MAX_TRANSACTIONS_PER_PAYLOAD e)"

definition tx_leaves :: "bytes \<Rightarrow> nat" where
  "tx_leaves tx = max (div_ceil (length tx) 32) 1"

text \<open>\<open>Vec::resize\<close>.\<close>

definition resize :: "'a list \<Rightarrow> nat \<Rightarrow> 'a \<Rightarrow> 'a list" where
  "resize xs n v = (if n \<le> length xs then take n xs else xs @ replicate (n - length xs) v)"

fun pack_transactions :: "merkle_env \<Rightarrow> bytes list \<Rightarrow> B256 list \<Rightarrow> B256 list" where
  "pack_transactions e [] pairs = pairs"
| "pack_transactions e (tx # txs) pairs =
     pack_transactions e txs
       (resize (pairs @ pack_byte_chunks e tx) (length pairs + next_multiple_of (tx_leaves tx) 2) ZERO_HASH)"

fun mix_in_lengths ::
  "merkle_env \<Rightarrow> nat \<Rightarrow> bytes list \<Rightarrow> B256 list \<Rightarrow> B256 list \<Rightarrow> B256 list option" where
  "mix_in_lengths e i [] nodes pairs = Some pairs"
| "mix_in_lengths e i (tx # txs) nodes pairs =
     slice_of nodes i (Suc i) \<bind> (\<lambda>node.
     write_at pairs (2 * i) node \<bind> (\<lambda>pairs1.
     write_at pairs1 (2 * i + 1) [uint64_chunk e (of_nat (length tx))] \<bind> (\<lambda>pairs2.
     mix_in_lengths e (Suc i) txs nodes pairs2)))"

definition transaction_root_of :: "merkle_env \<Rightarrow> bytes list \<Rightarrow> B256 option" where
  "transaction_root_of e txs =
     (let n = length txs in
      if n = 0 then Some (mix_in_length e (ZERO_HASHES e (TRANSACTIONS_DEPTH e)) 0)
      else
        (let pairs = pack_transactions e txs [];
             nodes = replicate (length pairs div 2) ZERO_HASH
         in merkleize_trees e pairs nodes (length pairs) (map tx_leaves txs) (TRANSACTION_DEPTH e) \<bind>
              (\<lambda>(pairs1, nodes1).
            mix_in_lengths e 0 txs nodes1 pairs1 \<bind> (\<lambda>pairs2.
            hash_concat_many e nodes1 n pairs2 (2 * n) \<bind> (\<lambda>nodes2.
            slice_of nodes2 0 n \<bind> (\<lambda>roots.
            write_at pairs2 0 roots \<bind> (\<lambda>pairs3.
            write_at pairs3 n [ZERO_HASH] \<bind> (\<lambda>pairs4.
            merkleize_trees e pairs4 nodes2 (next_multiple_of n 2) [n] (TRANSACTIONS_DEPTH e) \<bind>
              (\<lambda>(pairs5, nodes5). Some (mix_in_length e (nodes5 ! 0) n))))))))))"

section \<open>The SSZ tree\<close>

text \<open>The root of a list of chunks padded with zero chunks to \<open>2 ^ depth\<close> of them.\<close>

fun ssz_tree :: "merkle_env \<Rightarrow> nat \<Rightarrow> B256 list \<Rightarrow> B256" where
  "ssz_tree e 0 xs = (case xs of [] \<Rightarrow> ZERO_HASH | x # _ \<Rightarrow> x)"
| "ssz_tree e (Suc d) xs =
     hash_concat e (ssz_tree e d (take (2 ^ d) xs)) (ssz_tree e d (drop (2 ^ d) xs))"

text \<open>What the SSZ library documents of its table and functions, and the limits of the consensus
  specification.\<close>

definition merkle_laws :: "merkle_env \<Rightarrow> bool" where
  "merkle_laws e \<longleftrightarrow>
     ZERO_HASHES e 0 = ZERO_HASH \<and>
     (\<forall>i. ZERO_HASHES e (Suc i) = hash_concat e (ZERO_HASHES e i) (ZERO_HASHES e i)) \<and>
     (\<forall>root n. mix_in_length e root n = hash_concat e root (uint64_chunk e (of_nat n))) \<and>
     (\<forall>tx. length (pack_byte_chunks e tx) = div_ceil (length tx) 32) \<and>
     MAX_WITHDRAWALS_PER_PAYLOAD e = 16 \<and>
     MAX_BYTES_PER_TRANSACTION e = 2 ^ 30 \<and>
     MAX_TRANSACTIONS_PER_PAYLOAD e = 2 ^ 20"

definition ssz_list_root :: "merkle_env \<Rightarrow> nat \<Rightarrow> B256 list \<Rightarrow> nat \<Rightarrow> B256" where
  "ssz_list_root e depth chunks n = hash_concat e (ssz_tree e depth chunks) (uint64_chunk e (of_nat n))"

definition ssz_transaction :: "merkle_env \<Rightarrow> bytes \<Rightarrow> B256" where
  "ssz_transaction e tx = ssz_list_root e 25 (pack_byte_chunks e tx) (length tx)"

text \<open>One choice of the external functions, for evaluating the model.\<close>

definition sample_merkle :: merkle_env where
  "sample_merkle = \<lparr>hash_concat = (\<lambda>a b. a + 2 * b), ZERO_HASHES = (\<lambda>_. 0),
     mix_in_length = (\<lambda>root n. root + 2 * ucast (of_nat n :: u64)), uint64_chunk = ucast,
     pack_byte_chunks = (\<lambda>tx. map (\<lambda>i. word_rcat (take 32 (drop (32 * i) tx @ replicate 32 0)))
       [0..<div_ceil (length tx) 32]),
     MAX_WITHDRAWALS_PER_PAYLOAD = 16, MAX_BYTES_PER_TRANSACTION = 2 ^ 30,
     MAX_TRANSACTIONS_PER_PAYLOAD = 2 ^ 20\<rparr>"

section \<open>Levels of one tree\<close>

definition pad :: "B256 \<Rightarrow> B256 list \<Rightarrow> B256 list" where
  "pad z xs = (if odd (length xs) then xs @ [z] else xs)"

fun tree_level :: "merkle_env \<Rightarrow> nat \<Rightarrow> B256 list \<Rightarrow> B256 list" where
  "tree_level e 0 xs = xs"
| "tree_level e (Suc k) xs = hash_pairs e (pad (ZERO_HASHES e k) (tree_level e k xs))"

text \<open>A buffer that starts with the given entries.\<close>

definition starts_with :: "'a list \<Rightarrow> 'a list \<Rightarrow> bool" where
  "starts_with buf xs \<longleftrightarrow> (\<exists>zs. buf = xs @ zs)"

definition tx_tree :: "merkle_env \<Rightarrow> bytes \<Rightarrow> B256 list" where
  "tx_tree e tx = (if tx = [] then [ZERO_HASH] else pack_byte_chunks e tx)"

lemma length_hash_pairs [simp]: "length (hash_pairs e xs) = length xs div 2"
  by (induction e xs rule: hash_pairs.induct) simp_all

lemma hash_pairs_append: "even (length xs) \<Longrightarrow> hash_pairs e (xs @ ys) = hash_pairs e xs @ hash_pairs e ys"
  by (induction e xs rule: hash_pairs.induct) simp_all

lemma even_length_pad [simp]: "even (length (pad z xs))"
  by (simp add: pad_def)

lemma length_pad: "length (pad z xs) = 2 * ((length xs + 1) div 2)"
  by (auto simp: pad_def elim!: oddE evenE)

lemma pad_append: "even (length xs) \<Longrightarrow> pad z (xs @ ys) = xs @ pad z ys"
  by (simp add: pad_def)

lemma pad_even: "even (length xs) \<Longrightarrow> pad z xs = xs"
  by (simp add: pad_def)

lemma div_ceil_half: "(div_ceil n (2 ^ k) + 1) div 2 = div_ceil n (2 ^ Suc k)"
proof -
  have "n div 2 ^ Suc k = n div 2 ^ k div 2" using div_mult2_eq [of n "2 ^ k" 2] by (simp add: mult.commute)
  moreover have "n mod 2 ^ Suc k = 2 ^ k * (n div 2 ^ k mod 2) + n mod 2 ^ k"
    using mod_mult2_eq [of n "2 ^ k" 2] by (simp add: mult.commute)
  moreover have "(q + (if r then 1 else 0) + 1) div 2 = q div 2 + (if q mod 2 > 0 \<or> r then 1 else 0)"
    for q :: nat and r by auto presburger+
  ultimately show ?thesis by (simp add: div_ceil_def)
qed

lemma length_tree_level: "length (tree_level e k xs) = div_ceil (length xs) (2 ^ k)"
proof (induction k)
  case 0
  then show ?case by (simp add: div_ceil_def)
next
  case (Suc k)
  then show ?case using div_ceil_half [of "length xs" k] by (simp add: length_pad)
qed

lemma tree_level_append:
  assumes "2 ^ k dvd length ys"
  shows "tree_level e k (ys @ zs) = tree_level e k ys @ tree_level e k zs"
  using assms
proof (induction k)
  case 0
  then show ?case by simp
next
  case (Suc k)
  then obtain c where c: "length ys = 2 ^ Suc k * c" by blast
  then have "length (tree_level e k ys) = 2 * c"
    by (simp add: length_tree_level div_ceil_def)
  then have ev: "even (length (tree_level e k ys))" by simp
  have "2 ^ k dvd length ys" using Suc.prems by (metis dvd_mult_left power_Suc2)
  with Suc.IH show ?case by (simp add: ev pad_append pad_even hash_pairs_append)
qed

lemma ssz_tree_Nil:
  assumes "merkle_laws e"
  shows "ssz_tree e d [] = ZERO_HASHES e d"
  using assms by (induction d) (simp_all add: merkle_laws_def)

lemma tree_level_root:
  assumes "merkle_laws e" "xs \<noteq> []" "length xs \<le> 2 ^ d"
  shows "tree_level e d xs = [ssz_tree e d xs]"
  using assms(2,3)
proof (induction d arbitrary: xs)
  case 0
  then show ?case by (cases xs) auto
next
  case (Suc d)
  show ?case
  proof (cases "length xs \<le> 2 ^ d")
    case True
    then show ?thesis using Suc.IH [OF Suc.prems(1)] by (simp add: pad_def ssz_tree_Nil [OF assms(1)])
  next
    case False
    have "tree_level e d (take (2 ^ d) xs @ drop (2 ^ d) xs) =
        [ssz_tree e d (take (2 ^ d) xs)] @ [ssz_tree e d (drop (2 ^ d) xs)]"
      using False Suc.prems Suc.IH [of "take (2 ^ d) xs"] Suc.IH [of "drop (2 ^ d) xs"]
      by (subst tree_level_append) (auto simp: min_def)
    then show ?thesis by (simp add: pad_def)
  qed
qed

section \<open>Buffers\<close>

lemma starts_with_length: "starts_with buf xs \<Longrightarrow> length xs \<le> length buf"
  by (auto simp: starts_with_def)

lemma starts_with_Nil [simp]: "starts_with buf []"
  by (simp add: starts_with_def)

lemma starts_with_refl [simp]: "starts_with xs xs"
  by (simp add: starts_with_def)

lemma starts_with_prefix: "starts_with buf (xs @ ys) \<Longrightarrow> starts_with buf xs"
  by (auto simp: starts_with_def)

lemma slice_starts:
  "starts_with buf (xs @ ys) \<Longrightarrow> slice_of buf (length xs) (length xs + length ys) = Some ys"
  by (auto simp: slice_of_def starts_with_def)

lemma write_starts:
  assumes "starts_with buf xs" "length xs + length ys \<le> length buf"
  shows "\<exists>buf'. write_at buf (length xs) ys = Some buf' \<and> starts_with buf' (xs @ ys) \<and> length buf' = length buf"
  using assms by (auto simp: write_at_def starts_with_def)

lemma hash_concat_many_starts:
  assumes "starts_with inp xs" "even (length xs)" "length xs div 2 \<le> length out"
  shows "\<exists>out'. hash_concat_many e out (length xs div 2) inp (length xs) = Some out' \<and>
    starts_with out' (hash_pairs e xs) \<and> length out' = length out"
proof -
  have "slice_of inp 0 (length xs) = Some xs"
    using slice_starts [of inp "[]" xs] assms(1) by simp
  then show ?thesis
    using assms write_starts [of out "[]" "hash_pairs e xs"]
    by (auto simp: hash_concat_many_def)
qed

section \<open>Batched trees compute the levels\<close>

lemma tree_level_Suc: "tree_level e (Suc k) = (\<lambda>t. hash_pairs e (pad (ZERO_HASHES e k) (tree_level e k t)))"
  by (simp add: fun_eq_iff)

lemma hash_pairs_concat:
  "(\<And>t. t \<in> set ts \<Longrightarrow> even (length (f t))) \<Longrightarrow>
   hash_pairs e (concat (map f ts)) = concat (map (\<lambda>t. hash_pairs e (f t)) ts)"
  by (induction ts) (simp_all add: hash_pairs_append)

lemma repack_packs:
  assumes "starts_with nodes (pre @ concat ts)" "starts_with pairs acc"
    and "length acc + length (concat (map (pad (ZERO_HASHES e level)) ts)) \<le> length pairs"
  shows "\<exists>pairs'. repack e level (map length ts) nodes pairs (length pre) (length acc) =
      Some (pairs', length acc + length (concat (map (pad (ZERO_HASHES e level)) ts))) \<and>
    starts_with pairs' (acc @ concat (map (pad (ZERO_HASHES e level)) ts)) \<and> length pairs' = length pairs"
  using assms
proof (induction ts arbitrary: pre acc pairs)
  case Nil
  then show ?case by simp
next
  case (Cons t ts)
  let ?z = "ZERO_HASHES e level"
  have nodes: "starts_with nodes ((pre @ t) @ concat ts)" using Cons.prems(1) by simp
  then have slice_of: "slice_of nodes (length pre) (length pre + length t) = Some t"
    using slice_starts [of nodes pre t] starts_with_prefix by blast
  have fits: "length acc + length (pad ?z t) + length (concat (map (pad ?z) ts)) \<le> length pairs"
    using Cons.prems(3) by simp
  obtain p1 where p1: "write_at pairs (length acc) t = Some p1" "starts_with p1 (acc @ t)" "length p1 = length pairs"
    using write_starts [OF Cons.prems(2), of t] fits by (auto simp: pad_def split: if_splits)
  show ?case
  proof (cases "odd (length t)")
    case True
    obtain p2 where p2: "write_at p1 (length acc + length t) [?z] = Some p2" "starts_with p2 (acc @ pad ?z t)"
        "length p2 = length pairs"
      using write_starts [OF p1(2), of "[?z]"] fits True p1(3) by (auto simp: pad_def)
    have t: "pad ?z t = t @ [?z]" "length t mod 2 = 1" using True by (simp_all add: pad_def odd_iff_mod_2_eq_one)
    from Cons.IH [OF nodes p2(2)] fits p2 t show ?thesis by (simp add: slice_of p1 t add.assoc)
  next
    case False
    then have t: "pad ?z t = t" "length t mod 2 = 0" by (simp_all add: pad_def)
    from Cons.IH [OF nodes, of p1 "acc @ t"] fits p1 t show ?thesis by (simp add: slice_of t add.assoc)
  qed
qed

lemma pad_level_shrinks:
  "length (concat (map (\<lambda>t. pad z (tree_level e (Suc k) t)) ts)) \<le>
   length (concat (map (\<lambda>t. pad (ZERO_HASHES e k) (tree_level e k t)) ts))"
proof (induction ts)
  case (Cons t ts)
  have "length (pad z (tree_level e (Suc k) t)) \<le> length (pad (ZERO_HASHES e k) (tree_level e k t))"
    by (simp add: length_pad)
  then show ?case using Cons by simp
qed simp

lemma merkleize_levels_roots:
  assumes "Suc k + m = depth"
    and "starts_with pairs (concat (map (\<lambda>t. pad (ZERO_HASHES e k) (tree_level e k t)) ts))"
    and "len = length (concat (map (\<lambda>t. pad (ZERO_HASHES e k) (tree_level e k t)) ts))"
    and "len div 2 \<le> length nodes"
  shows "\<exists>pairs' nodes'. merkleize_levels e (map length ts) depth [Suc k..<Suc depth] pairs nodes len =
      Some (pairs', nodes') \<and> starts_with nodes' (concat (map (tree_level e depth) ts)) \<and>
      length pairs' = length pairs \<and> length nodes' = length nodes"
  using assms
proof (induction m arbitrary: k pairs nodes len)
  case 0
  let ?p = "concat (map (\<lambda>t. pad (ZERO_HASHES e k) (tree_level e k t)) ts)"
  have ev: "even (length ?p)" by (induction ts) simp_all
  obtain n1 where n1: "hash_concat_many e nodes (len div 2) pairs len = Some n1"
      "starts_with n1 (hash_pairs e ?p)" "length n1 = length nodes"
    using hash_concat_many_starts [OF "0.prems"(2) ev] "0.prems"(3,4) by blast
  have "[Suc k..<Suc depth] = [depth]" using "0.prems"(1) by (simp add: upt_rec)
  then show ?case using n1 "0.prems"(1) by (auto simp: hash_pairs_concat tree_level_Suc)
next
  case (Suc m)
  let ?p = "\<lambda>k. concat (map (\<lambda>t. pad (ZERO_HASHES e k) (tree_level e k t)) ts)"
  have ev: "even (length (?p k))" by (induction ts) simp_all
  obtain n1 where n1: "hash_concat_many e nodes (len div 2) pairs len = Some n1"
      "starts_with n1 (hash_pairs e (?p k))" "length n1 = length nodes"
    using hash_concat_many_starts [OF Suc.prems(2) ev] Suc.prems(3,4) by blast
  have n1': "starts_with n1 ([] @ concat (map (tree_level e (Suc k)) ts))"
    using n1(2) by (simp add: hash_pairs_concat tree_level_Suc)
  have shrink: "length (?p (Suc k)) \<le> length (?p k)" by (rule pad_level_shrinks)
  then have fits: "length [] + length (?p (Suc k)) \<le> length pairs"
    using starts_with_length [OF Suc.prems(2)] by simp
  obtain p1 where p1: "repack e (Suc k) (map length (map (tree_level e (Suc k)) ts)) n1 pairs 0 0 =
      Some (p1, length (?p (Suc k)))" "starts_with p1 (?p (Suc k))" "length p1 = length pairs"
    using repack_packs [OF n1', of pairs "[]" e "Suc k"] fits by (auto simp: o_def)
  have counts: "map length (map (tree_level e (Suc k)) ts) = map (\<lambda>n. div_ceil n (2 ^ Suc k)) (map length ts)"
    by (simp add: length_tree_level del: tree_level.simps)
  have upt: "[Suc k..<Suc depth] = Suc k # [Suc (Suc k)..<Suc depth]" and ne: "Suc k \<noteq> depth"
    using Suc.prems(1) by (simp_all add: upt_rec)
  define len1 where "len1 = length (?p (Suc k))"
  have "len1 div 2 \<le> length n1"
    using div_le_mono [OF shrink, of 2] Suc.prems(3,4) n1(3) unfolding len1_def by linarith
  then obtain p' n' where r:
      "merkleize_levels e (map length ts) depth [Suc (Suc k)..<Suc depth] p1 n1 len1 = Some (p', n')"
      "starts_with n' (concat (map (tree_level e depth) ts))" "length p' = length pairs" "length n' = length nodes"
    using Suc.IH [OF _ p1(2) len1_def, of n1] Suc.prems(1) p1(3) n1(3) by auto
  have "merkleize_levels e (map length ts) depth [Suc k..<Suc depth] pairs nodes len = Some (p', n')"
    unfolding upt merkleize_levels.simps n1(1) counts [symmetric] p1(1) [folded len1_def]
    by (simp only: bind.simps ne if_False p1(1) [folded len1_def] prod.case r(1))
  with r show ?case by blast
qed

lemma merkleize_trees_roots:
  assumes laws: "merkle_laws e" and depth: "0 < depth"
    and trees: "\<And>t. t \<in> set ts \<Longrightarrow> t \<noteq> [] \<and> length t \<le> 2 ^ depth"
    and start: "starts_with pairs (concat (map (pad ZERO_HASH) ts))"
    and len: "len = length (concat (map (pad ZERO_HASH) ts))" "len div 2 \<le> length nodes"
  shows "\<exists>pairs' nodes'. merkleize_trees e pairs nodes len (map length ts) depth = Some (pairs', nodes') \<and>
    starts_with nodes' (map (ssz_tree e depth) ts) \<and> length pairs' = length pairs \<and> length nodes' = length nodes"
proof -
  have z: "ZERO_HASHES e 0 = ZERO_HASH" using laws by (simp add: merkle_laws_def)
  have "concat (map (tree_level e depth) ts) = map (ssz_tree e depth) ts"
    using trees tree_level_root [OF laws] by (induction ts) auto
  then show ?thesis
    using merkleize_levels_roots [of 0 "depth - 1" depth pairs e ts len nodes] depth start len
    by (simp add: merkleize_trees_def z)
qed

section \<open>Roots\<close>

lemma ilog2_power [simp]: "ilog2 (2 ^ k) = k"
proof (induction k)
  case (Suc k)
  have "ilog2 (2 ^ Suc k) = Suc (ilog2 (2 ^ Suc k div 2))"
    using one_less_power [of "2 :: nat" "Suc k"] by (subst ilog2.simps) simp
  then show ?case using Suc by simp
qed (simp add: ilog2.simps)

lemma depths:
  assumes "merkle_laws e"
  shows "WITHDRAWALS_DEPTH e = 4" "TRANSACTION_DEPTH e = 25" "TRANSACTIONS_DEPTH e = 20"
  using assms ilog2_power [of 4] ilog2_power [of 25] ilog2_power [of 20]
  by (simp_all add: merkle_laws_def WITHDRAWALS_DEPTH_def TRANSACTION_DEPTH_def TRANSACTIONS_DEPTH_def)

lemma next_multiple_of_pad: "length xs = n \<Longrightarrow> next_multiple_of n 2 = length (pad z xs)"
  by (auto simp: next_multiple_of_def pad_def odd_iff_mod_2_eq_one even_iff_mod_2_eq_zero)

lemma list_root:
  assumes laws: "merkle_laws e" and d: "0 < d" and ne: "roots \<noteq> []" "length roots \<le> 2 ^ d"
    and start: "starts_with pairs (pad ZERO_HASH roots)"
    and fits: "length (pad ZERO_HASH roots) div 2 \<le> length nodes"
  shows "\<exists>p nodes'. merkleize_trees e pairs nodes (next_multiple_of (length roots) 2) [length roots] d =
    Some (p, nodes') \<and> mix_in_length e (nodes' ! 0) (length roots) = ssz_list_root e d roots (length roots)"
proof -
  obtain p nodes' where "merkleize_trees e pairs nodes (next_multiple_of (length roots) 2) [length roots] d =
      Some (p, nodes')" "starts_with nodes' [ssz_tree e d roots]"
    using merkleize_trees_roots [OF laws d, of "[roots]" pairs "next_multiple_of (length roots) 2" nodes]
      ne start fits by (auto simp: next_multiple_of_pad [of roots _ ZERO_HASH])
  then show ?thesis
    using laws by (auto simp: starts_with_def ssz_list_root_def merkle_laws_def)
qed

lemma hash_withdrawal:
  "hash_pairs e (hash_pairs e (concat (map (withdrawal_chunks e) ws))) =
   map (\<lambda>w. ssz_tree e 2 (withdrawal_chunks e w)) ws"
  by (induction ws) (auto simp: withdrawal_chunks_def numeral_2_eq_2 split: prod.splits)

lemma length_withdrawal_chunks [simp]: "length (concat (map (withdrawal_chunks e) ws)) = 4 * length ws"
  by (induction ws) (auto simp: withdrawal_chunks_def)

lemma starts_with_zero_tail:
  assumes "length xs \<le> m" "even m"
  shows "starts_with (xs @ replicate (m - length xs) z) (pad z xs)"
proof (cases "odd (length xs)")
  case True
  then have "m - length xs = Suc (m - length xs - 1)" using assms by (metis Suc_diff_1 diff_is_0_eq dual_order.antisym gr0I)
  then have "xs @ replicate (m - length xs) z = (xs @ [z]) @ replicate (m - length xs - 1) z"
    by (metis append.assoc append_Cons append_Nil replicate_Suc)
  then show ?thesis using True unfolding starts_with_def pad_def by auto
qed (simp add: starts_with_def pad_def)

lemma length_tx_tree:
  assumes "merkle_laws e"
  shows "length (tx_tree e tx) = tx_leaves tx" "tx_tree e tx \<noteq> []"
proof -
  have "tx \<noteq> [] \<Longrightarrow> 1 \<le> div_ceil (length tx) 32"
    by (cases "length tx < 32") (auto simp: div_ceil_def Suc_le_eq)
  then show len: "length (tx_tree e tx) = tx_leaves tx"
    using assms by (auto simp: tx_tree_def tx_leaves_def merkle_laws_def div_ceil_def)
  then show "tx_tree e tx \<noteq> []" by (metis length_0_conv max.cobounded2 not_one_le_zero tx_leaves_def)
qed

lemma pack_transactions_trees:
  assumes "merkle_laws e"
  shows "pack_transactions e txs pairs = pairs @ concat (map (\<lambda>tx. pad ZERO_HASH (tx_tree e tx)) txs)"
proof (induction txs arbitrary: pairs)
  case (Cons tx txs)
  have len: "length (pack_byte_chunks e tx) = (if tx = [] then 0 else length (tx_tree e tx))"
    using assms by (auto simp: tx_tree_def merkle_laws_def div_ceil_def)
  have "resize (pairs @ pack_byte_chunks e tx) (length pairs + next_multiple_of (tx_leaves tx) 2) ZERO_HASH =
      pairs @ pad ZERO_HASH (tx_tree e tx)"
  proof (cases "tx = []")
    case True
    have "next_multiple_of (tx_leaves tx) 2 = 2" using True by (simp add: tx_leaves_def div_ceil_def next_multiple_of_def)
    moreover have "pack_byte_chunks e tx = []" using True len by simp
    moreover have "pad ZERO_HASH (tx_tree e tx) = [ZERO_HASH, ZERO_HASH]" using True by (simp add: tx_tree_def pad_def)
    ultimately show ?thesis by (simp add: resize_def numeral_2_eq_2)
  next
    case False
    then have t: "tx_tree e tx = pack_byte_chunks e tx" by (simp add: tx_tree_def)
    have "next_multiple_of (tx_leaves tx) 2 = length (pad ZERO_HASH (tx_tree e tx))"
      using length_tx_tree(1) [OF assms, of tx] by (rule next_multiple_of_pad)
    then show ?thesis unfolding t by (simp add: resize_def pad_def)
  qed
  then show ?case using Cons by simp
qed simp

lemma ssz_tree_tx:
  assumes "merkle_laws e"
  shows "ssz_tree e d (tx_tree e tx) = ssz_tree e d (pack_byte_chunks e tx)"
proof (cases "tx = []")
  case True
  have "length (pack_byte_chunks e tx) = div_ceil (length tx) 32" using assms unfolding merkle_laws_def by blast
  then have "pack_byte_chunks e tx = []" using True by (simp add: div_ceil_def)
  moreover have "ssz_tree e d [ZERO_HASH] = ssz_tree e d []" by (induction d) simp_all
  ultimately show ?thesis using True by (simp add: tx_tree_def)
qed (simp add: tx_tree_def)

lemma tx_leaves_bound: "length tx \<le> 2 ^ 30 \<Longrightarrow> tx_leaves tx \<le> 2 ^ 25"
proof -
  assume "length tx \<le> 2 ^ 30"
  moreover have "length tx div 32 * 32 + length tx mod 32 = length tx" by simp
  ultimately have "div_ceil (length tx) 32 \<le> 33554432" unfolding div_ceil_def by (simp, linarith)
  then show ?thesis by (simp add: tx_leaves_def)
qed

lemma mix_in_lengths_pairs:
  assumes "starts_with nodes (pre @ map f txs)" "starts_with pairs acc" "length acc = 2 * length pre"
    and "2 * (length pre + length txs) \<le> length pairs"
  shows "\<exists>pairs'. mix_in_lengths e (length pre) txs nodes pairs = Some pairs' \<and>
    starts_with pairs' (acc @ concat (map (\<lambda>tx. [f tx, uint64_chunk e (of_nat (length tx))]) txs)) \<and>
    length pairs' = length pairs"
  using assms
proof (induction txs arbitrary: pre acc pairs)
  case Nil
  then show ?case by simp
next
  case (Cons tx txs)
  have nodes: "starts_with nodes ((pre @ [f tx]) @ map f txs)" using Cons.prems(1) by simp
  then have node: "slice_of nodes (length pre) (Suc (length pre)) = Some [f tx]"
    using slice_starts [of nodes pre "[f tx]"] starts_with_prefix by fastforce
  let ?c = "uint64_chunk e (of_nat (length tx))"
  obtain p1 where p1: "write_at pairs (2 * length pre) [f tx] = Some p1" "starts_with p1 (acc @ [f tx])"
      "length p1 = length pairs"
    using write_starts [OF Cons.prems(2), of "[f tx]"] Cons.prems(3,4) by auto
  obtain p2 where p2: "write_at p1 (2 * length pre + 1) [?c] = Some p2" "starts_with p2 ((acc @ [f tx]) @ [?c])"
      "length p2 = length pairs"
    using write_starts [OF p1(2), of "[?c]"] Cons.prems(3,4) p1(3) by auto
  from Cons.IH [OF nodes p2(2)] Cons.prems(3,4) p2(3) show ?case
    by (simp add: node p1 p2 [simplified])
qed

lemma hash_mixed:
  "hash_pairs e (concat (map (\<lambda>tx. [f tx, uint64_chunk e (of_nat (length tx))]) txs)) =
   map (\<lambda>tx. hash_concat e (f tx) (uint64_chunk e (of_nat (length tx)))) txs"
  by (induction txs) simp_all

lemma transactions_first_pass:
  assumes laws: "merkle_laws e" and ne: "txs \<noteq> []" and txs: "\<And>tx. tx \<in> set txs \<Longrightarrow> length tx \<le> 2 ^ 30"
  defines "pairs \<equiv> pack_transactions e txs []"
  shows "\<exists>pairs1 nodes1. merkleize_trees e pairs (replicate (length pairs div 2) ZERO_HASH) (length pairs)
      (map tx_leaves txs) (TRANSACTION_DEPTH e) = Some (pairs1, nodes1) \<and>
    starts_with nodes1 (map (\<lambda>tx. ssz_tree e 25 (pack_byte_chunks e tx)) txs) \<and>
    2 * length txs \<le> length pairs1 \<and> length txs \<le> length nodes1"
proof -
  let ?ts = "map (tx_tree e) txs"
  have p: "pairs = concat (map (pad ZERO_HASH) ?ts)"
    unfolding pairs_def using pack_transactions_trees [OF laws, of txs "[]"] by (simp add: o_def)
  have trees: "t \<noteq> [] \<and> length t \<le> 2 ^ 25" if "t \<in> set ?ts" for t
  proof -
    from that obtain tx where tx: "tx \<in> set txs" "t = tx_tree e tx" by auto
    then show ?thesis using length_tx_tree [OF laws, of tx] tx_leaves_bound [OF txs [OF tx(1)]] by simp
  qed
  have two: "2 \<le> length (pad ZERO_HASH t)" if "t \<noteq> []" for t using that by (cases t) (simp_all add: length_pad)
  have big: "2 * length us \<le> length (concat (map (pad ZERO_HASH) us))" if "\<forall>t \<in> set us. t \<noteq> []" for us
    using that
  proof (induction us)
    case (Cons u us)
    then show ?case using two [of u] by simp
  qed simp
  have "2 * length txs \<le> length pairs" using big [of ?ts] trees by (simp add: p o_def)
  then show ?thesis
    using merkleize_trees_roots [OF laws _ trees, of ?ts pairs "length pairs" "replicate (length pairs div 2) ZERO_HASH"]
      length_tx_tree(1) [OF laws] ssz_tree_tx [OF laws] depths(2) [OF laws]
    by (auto simp: p o_def)
qed

section \<open>Theorems\<close>

text \<open>C36. The root of the withdrawals, hashed in two shared buffers, returns, and it is the SSZ root of the
  list of at most sixteen withdrawals: the tree of depth four over the roots of their four fields, with
  the number of withdrawals mixed in.\<close>

theorem withdrawals_root_is_ssz:
  assumes "merkle_laws e" "length ws \<le> 16"
  shows "withdrawals_root_of e ws =
    Some (ssz_list_root e 4 (map (\<lambda>w. ssz_tree e 2 (withdrawal_chunks e w)) ws) (length ws))"
proof (cases "ws = []")
  case True
  then show ?thesis using assms depths(1) [OF assms(1)] ssz_tree_Nil [OF assms(1)]
    by (simp add: withdrawals_root_of_def ssz_list_root_def merkle_laws_def)
next
  case False
  let ?roots = "map (\<lambda>w. ssz_tree e 2 (withdrawal_chunks e w)) ws" and ?cs = "concat (map (withdrawal_chunks e) ws)"
  have max: "MAX_WITHDRAWALS_PER_PAYLOAD e = 16" using assms(1) unfolding merkle_laws_def by blast
  obtain nodes1 where n1: "hash_concat_many e (replicate 32 ZERO_HASH) (2 * length ws) ?cs (4 * length ws) = Some nodes1"
      "starts_with nodes1 (hash_pairs e ?cs)" "length nodes1 = 32"
    using hash_concat_many_starts [of ?cs ?cs "replicate 32 ZERO_HASH" e] assms(2) by auto
  have "slice_of nodes1 0 (2 * length ws) = Some (hash_pairs e ?cs)"
    using slice_starts [of nodes1 "[]" "hash_pairs e ?cs"] n1(2) by simp
  then have p1: "hash_concat_many e (replicate 16 ZERO_HASH) (length ws) nodes1 (2 * length ws) =
      Some (?roots @ replicate (16 - length ?roots) ZERO_HASH)"
    using assms(2) by (simp add: hash_concat_many_def write_at_def hash_withdrawal)
  have "starts_with (?roots @ replicate (16 - length ?roots) ZERO_HASH) (pad ZERO_HASH ?roots)"
    using assms(2) by (intro starts_with_zero_tail) simp_all
  moreover have "length (pad ZERO_HASH ?roots) div 2 \<le> length nodes1"
    using assms(2) by (simp add: length_pad n1(3))
  ultimately obtain p nodes' where "merkleize_trees e (?roots @ replicate (16 - length ?roots) ZERO_HASH) nodes1
      (next_multiple_of (length ?roots) 2) [length ?roots] 4 = Some (p, nodes')"
      "mix_in_length e (nodes' ! 0) (length ?roots) = ssz_list_root e 4 ?roots (length ?roots)"
    using list_root [OF assms(1), of 4 ?roots "?roots @ replicate (16 - length ?roots) ZERO_HASH" nodes1]
      False assms(2) by auto
  then show ?thesis
    using False assms(2) n1(1) p1 by (simp add: withdrawals_root_of_def Let_def max depths(1) [OF assms(1)])
qed

lemma sample_merkle_laws: "merkle_laws sample_merkle"
  by (simp add: merkle_laws_def sample_merkle_def ZERO_HASH_def)

theorem withdrawals_root_is_ssz_witness:
  "merkle_laws sample_merkle \<and> withdrawals_root_of sample_merkle [(1, 2, 3, 4)] =
     Some (ssz_list_root sample_merkle 4
       (map (\<lambda>w. ssz_tree sample_merkle 2 (withdrawal_chunks sample_merkle w)) [(1, 2, 3, 4)]) 1)"
  using withdrawals_root_is_ssz [OF sample_merkle_laws, of "[(1, 2, 3, 4)]"] sample_merkle_laws by simp

text \<open>C37. The root of the transactions, all trees of which are hashed together level by level in two shared
  buffers, returns, and it is the SSZ root of the list: the tree of depth twenty over the roots of the
  transactions, each the tree of depth twenty-five over its bytes with its length mixed in, with the
  number of transactions mixed in.\<close>

theorem transaction_root_is_ssz:
  assumes "merkle_laws e" "\<forall>tx \<in> set txs. length tx \<le> 2 ^ 30" "length txs \<le> 2 ^ 20"
  shows "transaction_root_of e txs =
    Some (ssz_list_root e 20 (map (ssz_transaction e) txs) (length txs))"
proof (cases "txs = []")
  case True
  then show ?thesis using assms(1) depths(3) [OF assms(1)] ssz_tree_Nil [OF assms(1)]
    by (simp add: transaction_root_of_def ssz_list_root_def merkle_laws_def)
next
  case False
  define pairs where "pairs = pack_transactions e txs []"
  let ?f = "\<lambda>tx. ssz_tree e 25 (pack_byte_chunks e tx)" and ?n = "length txs"
  let ?mixed = "concat (map (\<lambda>tx. [?f tx, uint64_chunk e (of_nat (length tx))]) txs)"
  let ?roots = "map (ssz_transaction e) txs"
  have roots: "hash_pairs e ?mixed = ?roots"
    by (simp add: hash_mixed ssz_transaction_def ssz_list_root_def)
  have mixed: "length ?mixed = 2 * ?n" by (induction txs) simp_all
  obtain p1 n1 where 1: "merkleize_trees e pairs (replicate (length pairs div 2) ZERO_HASH) (length pairs)
      (map tx_leaves txs) (TRANSACTION_DEPTH e) = Some (p1, n1)" "starts_with n1 (map ?f txs)"
      "2 * ?n \<le> length p1" "?n \<le> length n1"
    using transactions_first_pass [OF assms(1) False] assms(2) unfolding pairs_def by blast
  obtain p2 where 2: "mix_in_lengths e 0 txs n1 p1 = Some p2" "starts_with p2 ?mixed" "length p2 = length p1"
    using mix_in_lengths_pairs [of n1 "[]" ?f txs p1 "[]" e] 1 by auto
  obtain n2 where 3: "hash_concat_many e n1 ?n p2 (2 * ?n) = Some n2" "starts_with n2 ?roots" "length n2 = length n1"
    using hash_concat_many_starts [OF 2(2), of n1 e] 1(4) by (auto simp: roots mixed)
  have 4: "slice_of n2 0 ?n = Some ?roots" using slice_starts [of n2 "[]" ?roots] 3(2) by simp
  obtain p3 where 5: "write_at p2 0 ?roots = Some p3" "starts_with p3 ?roots" "length p3 = length p1"
    using write_starts [of p2 "[]" ?roots] 1(3) 2(3) by auto
  have "1 \<le> ?n" using False by (cases txs) simp_all
  then obtain p4 where 6: "write_at p3 ?n [ZERO_HASH] = Some p4" "starts_with p4 (?roots @ [ZERO_HASH])"
    using write_starts [OF 5(2), of "[ZERO_HASH]"] 1(3) 5(3) by auto
  then have "starts_with p4 (pad ZERO_HASH ?roots)" by (auto simp: pad_def starts_with_def)
  moreover have "length (pad ZERO_HASH ?roots) div 2 \<le> length n2"
    using \<open>1 \<le> ?n\<close> 1(4) by (simp add: length_pad 3(3))
  ultimately obtain p5 n5 where "merkleize_trees e p4 n2 (next_multiple_of (length ?roots) 2) [length ?roots] 20 = Some (p5, n5)"
      "mix_in_length e (n5 ! 0) (length ?roots) = ssz_list_root e 20 ?roots (length ?roots)"
    using list_root [OF assms(1), of 20 ?roots p4 n2] False assms(3) by auto
  then show ?thesis
    using False 1(1) 2(1) 3(1) 4 5(1) 6(1)
    by (simp add: transaction_root_of_def Let_def pairs_def [symmetric] depths(3) [OF assms(1)])
qed

theorem transaction_root_is_ssz_witness:
  "merkle_laws sample_merkle \<and> transaction_root_of sample_merkle [[1, 2], []] =
     Some (ssz_list_root sample_merkle 20 (map (ssz_transaction sample_merkle) [[1, 2], []]) 2)"
  using transaction_root_is_ssz [OF sample_merkle_laws, of "[[1, 2], []]"] sample_merkle_laws
  by (simp add: numeral_2_eq_2 [symmetric])

end
