(* ===== verification/Helix_Types.thy ===== *)
theory Helix_Types
  imports Merkle
begin

text \<open>
  The data the relay passes between its components, from \<open>crates/types\<close> and \<open>crates/common\<close>: bid
  traces, execution payloads, blob bundles, the submission variants with their accessors and
  internal consistency checks, submission versions and their comparison, fork keys and payload
  attributes.

  The Rust code reads a Gloas submission through the byte views of an external SSZ library and
  computes cache keys and roots with external hash functions.  Those functions are the fields of
  the record \<open>externals\<close>, an argument of every definition that uses them.
\<close>

section \<open>Forks, keys and versions\<close>

datatype ForkName =
  Base | Altair | Bellatrix | Capella | Deneb | Electra | Fulu | Gloas | Heze

record ForkKey =
  fk_parent_hash :: B256
  fk_parent_root :: B256

record SubmissionVersion =
  on_receive_ns :: u64
  sequence :: "u32 option"

datatype Ordering = OLess | OEqual | OGreater

definition word_cmp :: "'w::len word \<Rightarrow> 'w word \<Rightarrow> Ordering" where
  "word_cmp a b = (if a < b then OLess else if a = b then OEqual else OGreater)"

definition version_cmp :: "SubmissionVersion \<Rightarrow> SubmissionVersion \<Rightarrow> Ordering" where
  "version_cmp v w = (case (sequence v, sequence w) of
     (Some a, Some b) \<Rightarrow> word_cmp a b
   | _ \<Rightarrow> word_cmp (on_receive_ns v) (on_receive_ns w))"

definition version_ge :: "SubmissionVersion \<Rightarrow> SubmissionVersion \<Rightarrow> bool" where
  "version_ge v w = (version_cmp v w \<noteq> OLess)"

definition version_gt :: "SubmissionVersion \<Rightarrow> SubmissionVersion \<Rightarrow> bool" where
  "version_gt v w = (version_cmp v w = OGreater)"

text \<open>Versions of one kind, all sequenced or none, are totally preordered; a mixture is not.\<close>

definition same_kind :: "SubmissionVersion \<Rightarrow> SubmissionVersion \<Rightarrow> bool" where
  "same_kind v w = (sequence v = None \<longleftrightarrow> sequence w = None)"

section \<open>Errors\<close>

datatype SszError = InvalidByteCount nat nat

datatype BlobsError = BundleMismatch nat nat nat | BundleTooLarge nat nat

datatype BlockValidationError =
    SubmissionForWrongSlot Slot Slot
  | FeeRecipientMismatch Address Address
  | ProposerPublicKeyMismatch BlsPublicKeyBytes BlsPublicKeyBytes
  | SlotMismatch u64 u64
  | BlockHashMismatch B256 B256
  | ParentHashMismatch B256 B256
  | GasLimitMismatch u64 u64
  | GasUsedMismatch u64 u64
  | WithdrawalsRootMismatch B256 B256
  | TransactionsRootMismatch B256 B256
  | PrevRandaoMismatch B256 B256
  | UknnownParentHash B256 "B256 list"
  | InvalidPayloadType ForkName
  | IncorrectTimestamp u64 u64
  | AlreadyProcessingNewerPayload
  | OutOfSequence SubmissionVersion SubmissionVersion
  | ZeroValueBlock
  | BuilderNotInProposersTrustedList "string list"
  | CannotHydrate
  | BidTraceMismatch B256
  | ValidationSszError SszError
  | ValidationBlobsError BlobsError

section \<open>Payloads\<close>

record BidTrace =
  bt_slot :: u64
  bt_parent_hash :: B256
  bt_block_hash :: B256
  bt_builder_pubkey :: BlsPublicKeyBytes
  bt_proposer_pubkey :: BlsPublicKeyBytes
  bt_proposer_fee_recipient :: Address
  bt_gas_limit :: u64
  bt_gas_used :: u64
  bt_value :: U256

record Withdrawal =
  wd_index :: u64
  wd_validator_index :: u64
  wd_address :: Address
  wd_amount :: u64

type_synonym Transaction = bytes
type_synonym KzgCommitment = "384 word"
type_synonym KzgProof = "384 word"
type_synonym Blob = bytes
type_synonym BlsSignatureBytes = "768 word"

record DepositRequest =
  dr_pubkey :: BlsPublicKeyBytes
  dr_withdrawal_credentials :: B256
  dr_amount :: u64
  dr_signature :: BlsSignatureBytes
  dr_index :: u64

record WithdrawalRequest =
  wr_source_address :: Address
  wr_validator_pubkey :: BlsPublicKeyBytes
  wr_amount :: u64

record ConsolidationRequest =
  cr_source_address :: Address
  cr_source_pubkey :: BlsPublicKeyBytes
  cr_target_pubkey :: BlsPublicKeyBytes

record ExecutionRequests =
  er_deposits :: "DepositRequest list"
  er_withdrawals :: "WithdrawalRequest list"
  er_consolidations :: "ConsolidationRequest list"

record ExecutionPayload =
  ep_parent_hash :: B256
  ep_fee_recipient :: Address
  ep_state_root :: B256
  ep_receipts_root :: B256
  ep_logs_bloom :: "2048 word"
  ep_prev_randao :: B256
  ep_block_number :: u64
  ep_gas_limit :: u64
  ep_gas_used :: u64
  ep_timestamp :: u64
  ep_extra_data :: bytes
  ep_base_fee_per_gas :: U256
  ep_block_hash :: B256
  ep_transactions :: "Transaction list"
  ep_withdrawals :: "Withdrawal list"
  ep_blob_gas_used :: u64
  ep_excess_blob_gas :: u64

record BlobsBundle =
  bb_commitments :: "KzgCommitment list"
  bb_proofs :: "KzgProof list"
  bb_blobs :: "Blob list"

record PayloadAndBlobs =
  pb_execution_payload :: ExecutionPayload
  pb_blobs_bundle :: BlobsBundle

record SignedBidSubmissionFulu =
  sf_message :: BidTrace
  sf_execution_payload :: ExecutionPayload
  sf_blobs_bundle :: BlobsBundle
  sf_execution_requests :: ExecutionRequests
  sf_signature :: BlsSignatureBytes

record GloasBidTrace =
  gt_trace :: BidTrace
  gt_parent_block_root :: B256

record GloasBidSubmission =
  gs_message :: GloasBidTrace
  gs_bytes :: bytes
  gs_blobs_offset :: nat
  gs_requests_offset :: nat

datatype SignedBidSubmission =
    SignedFulu SignedBidSubmissionFulu
  | SignedGloas GloasBidSubmission

record BlobItemFulu =
  bi_proof :: "KzgProof list"
  bi_commitment :: KzgCommitment
  bi_blob :: Blob

record DehydratedBlobsFuluV2 =
  db_refs :: "u64 list"
  db_new_items :: "BlobItemFulu list"

record DehydratedBidSubmission =
  ds_message :: BidTrace
  ds_execution_payload :: ExecutionPayload
  ds_blobs_bundle :: DehydratedBlobsFuluV2
  ds_execution_requests :: ExecutionRequests
  ds_signature :: BlsSignatureBytes
  ds_tx_root :: "B256 option"
  ds_tx_refs :: "u64 list"
  ds_withdrawals_ref :: u64

datatype Submission =
    Full SignedBidSubmission
  | Dehydrated DehydratedBidSubmission

section \<open>Code outside the repository\<close>

text \<open>One write to the streaming hasher the cache keys are computed with.\<close>

datatype FxWrite = WriteU64 u64 | WriteBytes bytes | WriteAddress Address | WriteCommitment KzgCommitment

record externals =
  fx_finish :: "FxWrite list \<Rightarrow> u64"
  merkle :: merkle_env
  view_parent_hash :: "bytes \<Rightarrow> B256"
  view_block_hash :: "bytes \<Rightarrow> B256"
  view_gas_limit :: "bytes \<Rightarrow> u64"
  view_gas_used :: "bytes \<Rightarrow> u64"
  view_slot_number :: "bytes \<Rightarrow> u64"
  view_prev_randao :: "bytes \<Rightarrow> B256"
  view_timestamp :: "bytes \<Rightarrow> u64"
  view_block_number :: "bytes \<Rightarrow> u64"
  view_fee_recipient :: "bytes \<Rightarrow> Address"
  view_withdrawals_offset :: "bytes \<Rightarrow> nat"
  view_block_access_list_offset :: "bytes \<Rightarrow> nat"
  view_withdrawal :: "bytes \<Rightarrow> Withdrawal"
  view_extra_data_offset :: "bytes \<Rightarrow> nat"
  view_transactions_offset :: "bytes \<Rightarrow> nat"
  execution_payload_fixed_gloas :: nat
  requests_root :: "bytes \<Rightarrow> B256"
  requests_check_canonical :: "bytes \<Rightarrow> bool"
  requests_check_counts :: "bytes \<Rightarrow> (nat \<times> nat) option"
  decode_gloas_trace :: "bytes \<Rightarrow> GloasBidTrace option"
  bytes_per_blob :: nat
  bytes_per_kzg_commitment :: nat
  bytes_per_kzg_proof :: nat
  max_withdrawals_per_payload :: nat
  max_extra_data_bytes :: nat
  max_bytes_per_transaction :: nat
  max_transactions_per_payload :: nat
  max_blob_commitments_per_block :: nat
  cells_per_ext_blob :: nat

text \<open>One concrete choice of the external functions, for evaluating the model on examples.\<close>

definition sample_trace :: BidTrace where
  "sample_trace = \<lparr>bt_slot = 7, bt_parent_hash = 5, bt_block_hash = 100, bt_builder_pubkey = 1,
     bt_proposer_pubkey = 2, bt_proposer_fee_recipient = 3, bt_gas_limit = 30, bt_gas_used = 20,
     bt_value = 10\<rparr>"

definition sample_externals :: externals where
  "sample_externals = \<lparr>fx_finish = (\<lambda>ws. 9), merkle = sample_merkle,
     view_parent_hash = (\<lambda>p. 5), view_block_hash = (\<lambda>p. 100), view_gas_limit = (\<lambda>p. 30),
     view_gas_used = (\<lambda>p. 20), view_slot_number = (\<lambda>p. 7), view_prev_randao = (\<lambda>p. 8),
     view_timestamp = (\<lambda>p. 1000), view_block_number = (\<lambda>p. 1), view_fee_recipient = (\<lambda>p. 3),
     view_withdrawals_offset = (\<lambda>p. 540), view_block_access_list_offset = (\<lambda>p. 540),
     view_withdrawal = (\<lambda>b. \<lparr>wd_index = 0, wd_validator_index = 0, wd_address = 0, wd_amount = 0\<rparr>),
     view_extra_data_offset = (\<lambda>p. 540), view_transactions_offset = (\<lambda>p. 540),
     execution_payload_fixed_gloas = 540, requests_root = (\<lambda>b. 12),
     requests_check_canonical = (\<lambda>b. True), requests_check_counts = (\<lambda>b. None),
     decode_gloas_trace = (\<lambda>b. Some \<lparr>gt_trace = sample_trace, gt_parent_block_root = 6\<rparr>),
     bytes_per_blob = 131072, bytes_per_kzg_commitment = 48, bytes_per_kzg_proof = 48,
     max_withdrawals_per_payload = 16, max_extra_data_bytes = 32,
     max_bytes_per_transaction = 1073741824, max_transactions_per_payload = 1048576,
     max_blob_commitments_per_block = 4096, cells_per_ext_blob = 128\<rparr>"

section \<open>Submission accessors\<close>

definition SUBMISSION_FIXED :: nat where
  "SUBMISSION_FIXED = 268 + 3 * 4 + 96"

definition gloas_execution_payload :: "GloasBidSubmission \<Rightarrow> bytes" where
  "gloas_execution_payload g = drop SUBMISSION_FIXED (take (gs_blobs_offset g) (gs_bytes g))"

definition signed_bid_trace :: "SignedBidSubmission \<Rightarrow> BidTrace" where
  "signed_bid_trace s = (case s of
     SignedFulu f \<Rightarrow> sf_message f
   | SignedGloas g \<Rightarrow> gt_trace (gs_message g))"

definition signed_fork_name :: "SignedBidSubmission \<Rightarrow> ForkName" where
  "signed_fork_name s = (case s of SignedFulu _ \<Rightarrow> Fulu | SignedGloas _ \<Rightarrow> Gloas)"

definition signed_block_number :: "externals \<Rightarrow> SignedBidSubmission \<Rightarrow> u64" where
  "signed_block_number x s = (case s of
     SignedFulu f \<Rightarrow> ep_block_number (sf_execution_payload f)
   | SignedGloas g \<Rightarrow> view_block_number x (gloas_execution_payload g))"

definition signed_fee_recipient :: "externals \<Rightarrow> SignedBidSubmission \<Rightarrow> Address" where
  "signed_fee_recipient x s = (case s of
     SignedFulu f \<Rightarrow> ep_fee_recipient (sf_execution_payload f)
   | SignedGloas g \<Rightarrow> view_fee_recipient x (gloas_execution_payload g))"

definition signed_timestamp :: "externals \<Rightarrow> SignedBidSubmission \<Rightarrow> u64" where
  "signed_timestamp x s = (case s of
     SignedFulu f \<Rightarrow> ep_timestamp (sf_execution_payload f)
   | SignedGloas g \<Rightarrow> view_timestamp x (gloas_execution_payload g))"

definition signed_prev_randao :: "externals \<Rightarrow> SignedBidSubmission \<Rightarrow> B256" where
  "signed_prev_randao x s = (case s of
     SignedFulu f \<Rightarrow> ep_prev_randao (sf_execution_payload f)
   | SignedGloas g \<Rightarrow> view_prev_randao x (gloas_execution_payload g))"

definition WITHDRAWAL_SIZE :: nat where
  "WITHDRAWAL_SIZE = 44"

definition chunks_exact :: "nat \<Rightarrow> 'a list \<Rightarrow> 'a list list" where
  "chunks_exact n xs = map (\<lambda>i. take n (drop (i * n) xs)) [0..<length xs div n]"

text \<open>The roots of the withdrawals and of the transactions.  The hashing never leaves its buffers
  (\<open>withdrawals_root_is_ssz\<close> and \<open>transaction_root_is_ssz\<close>), so the value of a panic is not used.\<close>

definition withdrawals_root :: "externals \<Rightarrow> Withdrawal list \<Rightarrow> B256" where
  "withdrawals_root x ws = (case withdrawals_root_of (merkle x)
       (map (\<lambda>w. (wd_index w, wd_validator_index w, wd_address w, wd_amount w)) ws) of
     Some root \<Rightarrow> root | None \<Rightarrow> 0)"

definition transaction_root :: "externals \<Rightarrow> ExecutionPayload \<Rightarrow> B256" where
  "transaction_root x p = (case transaction_root_of (merkle x) (ep_transactions p) of
     Some root \<Rightarrow> root | None \<Rightarrow> 0)"

definition gloas_withdrawals_root :: "externals \<Rightarrow> GloasBidSubmission \<Rightarrow> B256" where
  "gloas_withdrawals_root x g =
     (let p = gloas_execution_payload g;
          ws = drop (view_withdrawals_offset x p) (take (view_block_access_list_offset x p) p)
      in withdrawals_root x (map (view_withdrawal x) (chunks_exact WITHDRAWAL_SIZE ws)))"

definition signed_withdrawals_root :: "externals \<Rightarrow> SignedBidSubmission \<Rightarrow> B256" where
  "signed_withdrawals_root x s = (case s of
     SignedFulu f \<Rightarrow> withdrawals_root x (ep_withdrawals (sf_execution_payload f))
   | SignedGloas g \<Rightarrow> gloas_withdrawals_root x g)"

definition bid_trace :: "Submission \<Rightarrow> BidTrace" where
  "bid_trace s = (case s of Full f \<Rightarrow> signed_bid_trace f | Dehydrated d \<Rightarrow> ds_message d)"

definition sub_fork_name :: "Submission \<Rightarrow> ForkName" where
  "sub_fork_name s = (case s of Full f \<Rightarrow> signed_fork_name f | Dehydrated _ \<Rightarrow> Fulu)"

definition sub_timestamp :: "externals \<Rightarrow> Submission \<Rightarrow> u64" where
  "sub_timestamp x s = (case s of
     Full f \<Rightarrow> signed_timestamp x f
   | Dehydrated d \<Rightarrow> ep_timestamp (ds_execution_payload d))"

definition sub_prev_randao :: "externals \<Rightarrow> Submission \<Rightarrow> B256" where
  "sub_prev_randao x s = (case s of
     Full f \<Rightarrow> signed_prev_randao x f
   | Dehydrated d \<Rightarrow> ep_prev_randao (ds_execution_payload d))"

definition sub_block_number :: "externals \<Rightarrow> Submission \<Rightarrow> u64" where
  "sub_block_number x s = (case s of
     Full f \<Rightarrow> signed_block_number x f
   | Dehydrated d \<Rightarrow> ep_block_number (ds_execution_payload d))"

definition sub_fee_recipient :: "externals \<Rightarrow> Submission \<Rightarrow> Address" where
  "sub_fee_recipient x s = (case s of
     Full f \<Rightarrow> signed_fee_recipient x f
   | Dehydrated d \<Rightarrow> ep_fee_recipient (ds_execution_payload d))"

definition sub_withdrawal_root :: "externals \<Rightarrow> Submission \<Rightarrow> B256 option" where
  "sub_withdrawal_root x s = (case s of
     Full f \<Rightarrow> Some (signed_withdrawals_root x f)
   | Dehydrated d \<Rightarrow>
       if ds_withdrawals_ref d = 0
       then Some (withdrawals_root x (ep_withdrawals (ds_execution_payload d)))
       else None)"

section \<open>Internal consistency of a submission\<close>

definition check_trace ::
  "BidTrace \<Rightarrow> B256 \<Rightarrow> B256 \<Rightarrow> u64 \<Rightarrow> u64 \<Rightarrow> (BlockValidationError, unit) Result" where
  "check_trace t parent_hash block_hash gas_limit gas_used =
     and_then (ensure (bt_parent_hash t = parent_hash)
                 (ParentHashMismatch (bt_parent_hash t) parent_hash)) (\<lambda>_.
     and_then (ensure (bt_block_hash t = block_hash)
                 (BlockHashMismatch (bt_block_hash t) block_hash)) (\<lambda>_.
     and_then (ensure (bt_gas_limit t = gas_limit)
                 (GasLimitMismatch (bt_gas_limit t) gas_limit)) (\<lambda>_.
     ensure (bt_gas_used t = gas_used) (GasUsedMismatch (bt_gas_used t) gas_used))))"

definition validate_fulu :: "SignedBidSubmissionFulu \<Rightarrow> (BlockValidationError, unit) Result" where
  "validate_fulu s =
     (let t = sf_message s; ep = sf_execution_payload s in
      and_then (check_trace t (ep_parent_hash ep) (ep_block_hash ep) (ep_gas_limit ep) (ep_gas_used ep))
        (\<lambda>_. ensure (bt_value t \<noteq> 0) ZeroValueBlock))"

definition validate_gloas ::
  "externals \<Rightarrow> GloasBidSubmission \<Rightarrow> (BlockValidationError, unit) Result" where
  "validate_gloas x g =
     (let t = gt_trace (gs_message g); p = gloas_execution_payload g in
      and_then (check_trace t (view_parent_hash x p) (view_block_hash x p)
                  (view_gas_limit x p) (view_gas_used x p)) (\<lambda>_.
      and_then (ensure (bt_slot t = view_slot_number x p)
                  (SlotMismatch (view_slot_number x p) (bt_slot t))) (\<lambda>_.
      ensure (bt_value t \<noteq> 0) ZeroValueBlock)))"

definition validate_dehydrated ::
  "DehydratedBidSubmission \<Rightarrow> (BlockValidationError, unit) Result" where
  "validate_dehydrated d =
     (let t = ds_message d; ep = ds_execution_payload d in
      and_then (check_trace t (ep_parent_hash ep) (ep_block_hash ep) (ep_gas_limit ep) (ep_gas_used ep))
        (\<lambda>_. ensure (bt_value t \<noteq> 0) ZeroValueBlock))"

definition validate :: "externals \<Rightarrow> Submission \<Rightarrow> (BlockValidationError, unit) Result" where
  "validate x s = (case s of
     Full (SignedFulu f) \<Rightarrow> validate_fulu f
   | Full (SignedGloas g) \<Rightarrow> validate_gloas x g
   | Dehydrated d \<Rightarrow> validate_dehydrated d)"

fun check_tx_lengths :: "externals \<Rightarrow> Transaction list \<Rightarrow> (BlockValidationError, unit) Result" where
  "check_tx_lengths x [] = Inr ()"
| "check_tx_lengths x (tx # txs) =
     (if length tx > max_bytes_per_transaction x
      then Inl (ValidationSszError (InvalidByteCount (length tx) (max_bytes_per_transaction x)))
      else check_tx_lengths x txs)"

definition payload_validate_ssz_lengths ::
  "externals \<Rightarrow> ExecutionPayload \<Rightarrow> (BlockValidationError, unit) Result" where
  "payload_validate_ssz_lengths x ep =
     and_then (ensure (length (ep_extra_data ep) \<le> max_extra_data_bytes x)
       (ValidationSszError (InvalidByteCount (length (ep_extra_data ep)) (max_extra_data_bytes x)))) (\<lambda>_.
     and_then (check_tx_lengths x (ep_transactions ep)) (\<lambda>_.
     ensure (length (ep_transactions ep) \<le> max_transactions_per_payload x)
       (ValidationSszError
          (InvalidByteCount (length (ep_transactions ep)) (max_transactions_per_payload x)))))"

definition blobs_validate_ssz_lengths ::
  "externals \<Rightarrow> BlobsBundle \<Rightarrow> nat \<Rightarrow> (BlockValidationError, unit) Result" where
  "blobs_validate_ssz_lengths x b max_blobs_per_block =
     and_then (ensure (length (bb_commitments b) = length (bb_blobs b) \<and>
                       length (bb_proofs b) = length (bb_blobs b) * cells_per_ext_blob x)
       (ValidationBlobsError (BundleMismatch (length (bb_proofs b)) (length (bb_commitments b))
          (length (bb_blobs b))))) (\<lambda>_.
     ensure (length (bb_commitments b) \<le> max_blobs_per_block)
       (ValidationBlobsError (BundleTooLarge (length (bb_commitments b)) max_blobs_per_block)))"

definition validate_payload_ssz_lengths ::
  "externals \<Rightarrow> SignedBidSubmissionFulu \<Rightarrow> nat \<Rightarrow> (BlockValidationError, unit) Result" where
  "validate_payload_ssz_lengths x s max_blobs_per_block =
     and_then (payload_validate_ssz_lengths x (sf_execution_payload s)) (\<lambda>_.
     blobs_validate_ssz_lengths x (sf_blobs_bundle s) max_blobs_per_block)"

section \<open>Payload attributes\<close>

record PayloadAttributes =
  pa_timestamp :: u64
  pa_prev_randao :: B256
  pa_suggested_fee_recipient :: string
  pa_withdrawals :: "Withdrawal list"
  pa_parent_beacon_block_root :: "B256 option"

record PayloadAttributesUpdate =
  pu_slot :: Slot
  pu_parent_hash :: B256
  pu_withdrawals_root :: B256
  pu_payload_attributes :: PayloadAttributes

definition parent_root :: "PayloadAttributesUpdate \<Rightarrow> B256" where
  "parent_root u = (case pa_parent_beacon_block_root (pu_payload_attributes u) of
     Some r \<Rightarrow> r | None \<Rightarrow> 0)"

definition attrs_fork :: "PayloadAttributesUpdate \<Rightarrow> ForkKey" where
  "attrs_fork u = \<lparr>fk_parent_hash = pu_parent_hash u, fk_parent_root = parent_root u\<rparr>"

section \<open>Versions\<close>

lemma word_cmp_simps [simp]:
  "word_cmp a b = OLess \<longleftrightarrow> a < b"
  "word_cmp a b = OEqual \<longleftrightarrow> a = b"
  "word_cmp a b = OGreater \<longleftrightarrow> b < a"
  by (auto simp: word_cmp_def)

lemma version_ge_refl [simp]: "version_ge v v"
  by (auto simp: version_ge_def version_cmp_def split: option.splits)

lemma version_ge_total: "version_ge v w \<or> version_ge w v"
  by (auto simp: version_ge_def version_cmp_def split: option.splits)

lemma version_gt_iff: "version_gt v w \<longleftrightarrow> \<not> version_ge w v"
  by (auto simp: version_gt_def version_ge_def version_cmp_def split: option.splits)

lemma version_ge_trans:
  "same_kind u v \<Longrightarrow> same_kind v w \<Longrightarrow> version_ge u v \<Longrightarrow> version_ge v w \<Longrightarrow> version_ge u w"
  by (cases "sequence u"; cases "sequence v"; cases "sequence w")
    (auto simp: same_kind_def version_ge_def version_cmp_def)

section \<open>Consistency checks\<close>

lemma check_trace_ok:
  "is_ok (check_trace t ph bh gl gu) \<longleftrightarrow>
     bt_parent_hash t = ph \<and> bt_block_hash t = bh \<and> bt_gas_limit t = gl \<and> bt_gas_used t = gu"
  by (simp add: check_trace_def ensure_def)

lemma check_trace_Inr [simp]:
  "check_trace t ph bh gl gu = Inr u \<longleftrightarrow>
     bt_parent_hash t = ph \<and> bt_block_hash t = bh \<and> bt_gas_limit t = gl \<and> bt_gas_used t = gu"
  by (simp add: check_trace_def ensure_def)

lemma check_tx_lengths_Inr [simp]:
  "check_tx_lengths x txs = Inr u \<longleftrightarrow> (\<forall>tx \<in> set txs. length tx \<le> max_bytes_per_transaction x)"
  by (induction txs) auto

lemma payload_validate_ssz_lengths_Inr [simp]:
  "payload_validate_ssz_lengths x ep = Inr u \<longleftrightarrow>
     length (ep_extra_data ep) \<le> max_extra_data_bytes x \<and>
     (\<forall>tx \<in> set (ep_transactions ep). length tx \<le> max_bytes_per_transaction x) \<and>
     length (ep_transactions ep) \<le> max_transactions_per_payload x"
  by (simp add: payload_validate_ssz_lengths_def and_then_eq_Inr)

lemma blobs_validate_ssz_lengths_Inr [simp]:
  "blobs_validate_ssz_lengths x b n = Inr u \<longleftrightarrow>
     length (bb_commitments b) = length (bb_blobs b) \<and>
     length (bb_proofs b) = length (bb_blobs b) * cells_per_ext_blob x \<and>
     length (bb_commitments b) \<le> n"
  by (auto simp: blobs_validate_ssz_lengths_def and_then_eq_Inr)

lemma validate_payload_ssz_lengths_Inr:
  "validate_payload_ssz_lengths x s n = Inr u \<longleftrightarrow>
     payload_validate_ssz_lengths x (sf_execution_payload s) = Inr () \<and>
     blobs_validate_ssz_lengths x (sf_blobs_bundle s) n = Inr ()"
  by (simp add: validate_payload_ssz_lengths_def and_then_eq_Inr)

lemma validate_value_pos: "validate x s = Inr u \<Longrightarrow> bt_value (bid_trace s) \<noteq> 0"
  by (auto simp: validate_def validate_fulu_def validate_gloas_def validate_dehydrated_def
      bid_trace_def signed_bid_trace_def Let_def and_then_eq_Inr
      split: Submission.splits SignedBidSubmission.splits)

end
