(* ===== verification/Byte_Codec.thy ===== *)
theory Byte_Codec
  imports Helix_Prelude
begin

text \<open>
  Fixed-width integers as byte strings, in both byte orders, and slices of byte strings.  The
  lemmas give the round trips and the lengths the wire formats of the relay rest on.
\<close>

section \<open>Definitions\<close>

fun le_of_nat :: "nat \<Rightarrow> nat \<Rightarrow> bytes" where
  "le_of_nat 0 n = []"
| "le_of_nat (Suc k) n = word_of_nat (n mod 256) # le_of_nat k (n div 256)"

fun nat_of_le :: "bytes \<Rightarrow> nat" where
  "nat_of_le [] = 0"
| "nat_of_le (b # bs) = unat b + 256 * nat_of_le bs"

definition u32_to_le :: "u32 \<Rightarrow> bytes" where "u32_to_le w = le_of_nat 4 (unat w)"
definition u64_to_le :: "u64 \<Rightarrow> bytes" where "u64_to_le w = le_of_nat 8 (unat w)"
definition u32_from_le :: "bytes \<Rightarrow> u32" where "u32_from_le bs = word_of_nat (nat_of_le bs)"
definition u64_from_le :: "bytes \<Rightarrow> u64" where "u64_from_le bs = word_of_nat (nat_of_le bs)"
definition u32_to_be :: "u32 \<Rightarrow> bytes" where "u32_to_be w = rev (le_of_nat 4 (unat w))"
definition u32_from_be :: "bytes \<Rightarrow> u32" where "u32_from_be bs = word_of_nat (nat_of_le (rev bs))"

text \<open>Byte strings of fixed length (hashes, keys, addresses) are words read in big-endian order.\<close>

definition fixed_bytes :: "nat \<Rightarrow> 'w::len word \<Rightarrow> bytes" where
  "fixed_bytes k w = rev (le_of_nat k (unat w))"

definition fixed_from :: "bytes \<Rightarrow> 'w::len word" where
  "fixed_from bs = word_of_nat (nat_of_le (rev bs))"

text \<open>The Rust slice \<open>&bs[a..b]\<close> when \<open>a \<le> b \<le> bs.len()\<close>.\<close>

definition slice :: "nat \<Rightarrow> nat \<Rightarrow> 'a list \<Rightarrow> 'a list" where
  "slice a b bs = drop a (take b bs)"

section \<open>Lengths and round trips\<close>

lemma unat_bound: "unat (w :: 'w::len word) < 2 ^ LENGTH('w)"
  by (rule unsigned_less)

lemma length_le_of_nat [simp]: "length (le_of_nat k n) = k"
  by (induction k arbitrary: n) simp_all

lemma nat_of_le_of_nat: "nat_of_le (le_of_nat k n) = n mod 256 ^ k"
proof (induction k arbitrary: n)
  case 0
  then show ?case by simp
next
  case (Suc k)
  have "unat (word_of_nat (n mod 256) :: u8) = n mod 256"
    by (simp add: unsigned_of_nat take_bit_eq_mod)
  then show ?case using Suc by (simp add: mod_mult2_eq)
qed

lemma nat_of_le_bound: "nat_of_le bs < 256 ^ length bs"
proof (induction bs)
  case Nil
  then show ?case by simp
next
  case (Cons b bs)
  have "unat b < 256" using unat_bound [of b] by simp
  moreover have "nat_of_le bs + 1 \<le> 256 ^ length bs" using Cons by simp
  then have "256 * nat_of_le bs + 256 \<le> 256 * 256 ^ length bs"
    by (metis (no_types, lifting) add_mult_distrib2 mult_le_mono2 nat_mult_1_right)
  ultimately show ?case by simp
qed

lemma le_of_nat_of_le: "le_of_nat (length bs) (nat_of_le bs) = bs"
proof (induction bs)
  case Nil
  then show ?case by simp
next
  case (Cons b bs)
  have "unat b < 256" using unat_bound [of b] by simp
  then show ?case using Cons by simp
qed

lemma u32_le_roundtrip [simp]: "u32_from_le (u32_to_le w) = w"
  using unat_bound [of w] by (simp add: u32_from_le_def u32_to_le_def nat_of_le_of_nat)

lemma u64_le_roundtrip [simp]: "u64_from_le (u64_to_le w) = w"
  using unat_bound [of w] by (simp add: u64_from_le_def u64_to_le_def nat_of_le_of_nat)

lemma u32_be_roundtrip [simp]: "u32_from_be (u32_to_be w) = w"
  using unat_bound [of w] by (simp add: u32_from_be_def u32_to_be_def nat_of_le_of_nat)

lemma unat_of_le:
  "length bs = 4 \<Longrightarrow> unat (u32_from_le bs) = nat_of_le bs"
  "length cs = 8 \<Longrightarrow> unat (u64_from_le cs) = nat_of_le cs"
  using nat_of_le_bound [of bs] nat_of_le_bound [of cs]
  by (simp_all add: u32_from_le_def u64_from_le_def unsigned_of_nat take_bit_eq_mod)

lemma u32_be_inverse: "length bs = 4 \<Longrightarrow> u32_to_be (u32_from_be bs) = bs"
proof -
  assume l: "length bs = 4"
  have "unat (u32_from_be bs) = nat_of_le (rev bs)"
    using nat_of_le_bound [of "rev bs"] l
    by (simp add: u32_from_be_def unsigned_of_nat take_bit_eq_mod)
  then show ?thesis using le_of_nat_of_le [of "rev bs"] l by (simp add: u32_to_be_def)
qed

lemma length_codecs [simp]:
  "length (u32_to_le w) = 4" "length (u64_to_le v) = 8" "length (u32_to_be w) = 4"
  "length (fixed_bytes k u) = k"
  by (simp_all add: u32_to_le_def u64_to_le_def u32_to_be_def fixed_bytes_def)

lemma fixed_bytes_roundtrip:
  "LENGTH('w::len) = 8 * k \<Longrightarrow> fixed_from (fixed_bytes k (w :: 'w word)) = w"
  using unat_bound [of w]
  by (simp add: fixed_from_def fixed_bytes_def nat_of_le_of_nat power_mult)

section \<open>Slices\<close>

lemma length_slice [simp]: "length (slice a b bs) = min b (length bs) - a"
  by (simp add: slice_def)

lemma slice_append_left: "b \<le> length xs \<Longrightarrow> slice a b (xs @ ys) = slice a b xs"
  by (simp add: slice_def)

lemma slice_append_right:
  "length xs \<le> a \<Longrightarrow> slice a b (xs @ ys) = slice (a - length xs) (b - length xs) ys"
  by (cases "length xs \<le> b") (simp_all add: slice_def)

lemma slice_full: "a = 0 \<Longrightarrow> b = length bs \<Longrightarrow> slice a b bs = bs"
  by (simp add: slice_def)

lemma slice_prefix: "a = 0 \<Longrightarrow> b = length xs \<Longrightarrow> slice a b (xs @ ys) = xs"
  by (simp add: slice_def)

lemma drop_append_exact: "n = length xs \<Longrightarrow> drop n (xs @ ys) = ys"
  by simp

lemmas slice_simps = slice_append_left slice_append_right slice_full slice_prefix

end
