(* ===== verification/Merge_Orders.thy ===== *)
theory Merge_Orders
  imports Helix_Types Byte_Codec
begin

text \<open>
  Mergeable orders: as builders attach them to a submission, in the compact form the relay keeps
  (\<open>crates/types/src/block_merging.rs\<close>), and as references on the wire to the merge builder
  (\<open>crates/tcp-types/src/merging/order.rs\<close>, \<open>crates/relay/src/block_merging/mod.rs\<close>); and the check that a
  merged block did not break an order apart (\<open>crates/relay/src/block_merging/unbundling.rs\<close>).

  Compacting and turning into references keeps the meaning of an order: which transactions it has, which
  of them may revert and which may be left out.
\<close>

unbundle bit_operations_syntax

section \<open>Orders of a submission\<close>

record TransactionOrder =
  to_index :: nat
  to_can_revert :: bool

record BundleOrder =
  bo_txs :: "nat list"
  bo_reverting_txs :: "nat list"
  bo_dropping_txs :: "nat list"

record BundleOrderV2 =
  b2_txs :: "nat list"
  b2_reverting_txs :: "nat list"
  b2_dropping_txs :: "nat list"
  b2_flags :: u64

datatype MergeOrder = OrderTx TransactionOrder | OrderBundle BundleOrder | OrderBundleV2 BundleOrderV2

text \<open>The flag of \<open>MergeOrderFlags\<close>.\<close>

definition ORDER_LATEST_ONLY :: u64 where "ORDER_LATEST_ONLY = 1"

record BlockMergingData =
  md_allow_appending :: bool
  md_builder_address :: Address
  md_merge_orders :: "MergeOrder list"

definition bundle_validate :: "BundleOrder \<Rightarrow> bool" where
  "bundle_validate b = (\<not> (list_ex (\<lambda>i. i \<ge> length (bo_txs b)) (bo_reverting_txs b) \<or>
     list_ex (\<lambda>i. i \<ge> length (bo_txs b)) (bo_dropping_txs b)))"

definition bundle_v2_validate :: "BundleOrderV2 \<Rightarrow> bool" where
  "bundle_v2_validate b = (\<not> (list_ex (\<lambda>i. i \<ge> length (b2_txs b)) (b2_reverting_txs b) \<or>
     list_ex (\<lambda>i. i \<ge> length (b2_txs b)) (b2_dropping_txs b)))"

definition merging_allow_all :: "Address \<Rightarrow> nat \<Rightarrow> BlockMergingData" where
  "merging_allow_all builder num_tx = \<lparr>md_allow_appending = True, md_builder_address = builder,
     md_merge_orders = map (\<lambda>i. OrderTx \<lparr>to_index = i, to_can_revert = True\<rparr>) [0..<num_tx]\<rparr>"

definition merging_append_only :: "Address \<Rightarrow> BlockMergingData" where
  "merging_append_only builder =
     \<lparr>md_allow_appending = True, md_builder_address = builder, md_merge_orders = []\<rparr>"

section \<open>Compact orders\<close>

record OrderV2 =
  o2_start :: u16
  o2_len :: u8
  o2_flags :: u8

definition LATEST_ONLY :: u8 where "LATEST_ONLY = 1"
definition ALL_REVERT :: u8 where "ALL_REVERT = 2"
definition KNOWN_FLAGS :: u8 where "KNOWN_FLAGS = (LATEST_ONLY OR ALL_REVERT)"

record OrderTxCodes =
  oc_order :: u16
  oc_codes :: "u8 list"

definition CODE_NONE :: u8 where "CODE_NONE = 0"
definition CODE_REVERT :: u8 where "CODE_REVERT = 1"
definition CODE_DROP :: u8 where "CODE_DROP = 2"

definition codes_len :: "u8 \<Rightarrow> nat" where
  "codes_len bundle_len = div_ceil (unat bundle_len) 4"

text \<open>The code of a transaction; reading past the codes panics.\<close>

definition code_at :: "OrderTxCodes \<Rightarrow> nat \<Rightarrow> u8 option" where
  "code_at c tx = (if tx div 4 < length (oc_codes c)
     then Some (drop_bit (2 * (tx mod 4)) (oc_codes c ! (tx div 4)) AND 3) else None)"

record BlockMergingDataV2 =
  m2_allow_appending :: bool
  m2_builder_address :: Address
  m2_orders :: "OrderV2 list"
  m2_tx_codes :: "OrderTxCodes list"

definition allow_all :: "Address \<Rightarrow> nat \<Rightarrow> BlockMergingDataV2" where
  "allow_all builder num_tx = \<lparr>m2_allow_appending = True, m2_builder_address = builder,
     m2_orders = map (\<lambda>i. \<lparr>o2_start = of_nat i, o2_len = 1, o2_flags = ALL_REVERT\<rparr>) [0..<num_tx],
     m2_tx_codes = []\<rparr>"

definition append_only :: "Address \<Rightarrow> BlockMergingDataV2" where
  "append_only builder =
     \<lparr>m2_allow_appending = True, m2_builder_address = builder, m2_orders = [], m2_tx_codes = []\<rparr>"

definition pack_code :: "nat \<Rightarrow> nat \<times> u8 \<Rightarrow> u8 list \<Rightarrow> u8 list" where
  "pack_code num_txs p codes = (case p of (idx, c) \<Rightarrow>
     if idx < num_txs
     then codes[idx div 4 := (codes ! (idx div 4)) OR push_bit (2 * (idx mod 4)) c] else codes)"

definition pack_codes :: "nat \<Rightarrow> u8 \<Rightarrow> nat list \<Rightarrow> nat list \<Rightarrow> u8 list" where
  "pack_codes num_txs len reverting dropping =
     fold (pack_code num_txs) (map (\<lambda>i. (i, CODE_REVERT)) reverting @ map (\<lambda>i. (i, CODE_DROP)) dropping)
       (replicate (codes_len len) 0)"

definition compact_bundle ::
  "nat list \<Rightarrow> nat list \<Rightarrow> nat list \<Rightarrow> bool \<Rightarrow> OrderV2 list \<times> OrderTxCodes list \<Rightarrow> OrderV2 list \<times> OrderTxCodes list" where
  "compact_bundle txs reverting dropping latest_only acc =
     (case acc of (orders, tx_codes) \<Rightarrow>
      if txs = [] \<or> length txs \<ge> 2 ^ 8 \<or> hd txs \<ge> 2 ^ 16 then (orders, tx_codes)
      else
        (let len = of_nat (length txs);
             latest = (if latest_only then LATEST_ONLY else 0);
             all_revert = (dropping = [] \<and> length reverting = length txs);
             flags = (if all_revert then latest OR ALL_REVERT else latest);
             tx_codes1 = (if \<not> all_revert \<and> \<not> (reverting = [] \<and> dropping = [])
               then tx_codes @ [\<lparr>oc_order = of_nat (length orders), oc_codes = pack_codes (length txs) len reverting dropping\<rparr>]
               else tx_codes)
         in (orders @ [\<lparr>o2_start = of_nat (hd txs), o2_len = len, o2_flags = flags\<rparr>], tx_codes1)))"

fun compact_order :: "MergeOrder \<Rightarrow> OrderV2 list \<times> OrderTxCodes list \<Rightarrow> OrderV2 list \<times> OrderTxCodes list" where
  "compact_order (OrderTx t) (orders, tx_codes) =
     (if to_index t < 2 ^ 16
      then (orders @ [\<lparr>o2_start = of_nat (to_index t), o2_len = 1, o2_flags = (if to_can_revert t then ALL_REVERT else 0)\<rparr>],
            tx_codes)
      else (orders, tx_codes))"
| "compact_order (OrderBundle b) acc = compact_bundle (bo_txs b) (bo_reverting_txs b) (bo_dropping_txs b) False acc"
| "compact_order (OrderBundleV2 b) acc =
     compact_bundle (b2_txs b) (b2_reverting_txs b) (b2_dropping_txs b) (b2_flags b AND ORDER_LATEST_ONLY = ORDER_LATEST_ONLY) acc"

definition compact :: "BlockMergingData \<Rightarrow> BlockMergingDataV2" where
  "compact v1 =
     (let (orders, tx_codes) = fold compact_order (md_merge_orders v1) ([], []) in
      \<lparr>m2_allow_appending = md_allow_appending v1, m2_builder_address = md_builder_address v1,
       m2_orders = orders, m2_tx_codes = tx_codes\<rparr>)"

section \<open>References on the wire\<close>

definition MAX_TX_BYTES :: nat where "MAX_TX_BYTES = 131072"
definition MAX_BUNDLE_TXS :: nat where "MAX_BUNDLE_TXS = 32"
definition MAX_ORDERS_PER_BLOCK :: nat where "MAX_ORDERS_PER_BLOCK = 1024"
definition MAX_BLOCK_TXS :: nat where "MAX_BLOCK_TXS = 65535"
definition TX_HASH_REF_LEN :: nat where "TX_HASH_REF_LEN = 32"

definition is_tx_hash_ref :: "bytes \<Rightarrow> bool" where
  "is_tx_hash_ref raw_tx = (length raw_tx = TX_HASH_REF_LEN)"

record TxOrderRef =
  tr_index :: u16
  tr_can_revert :: bool

record BundleOrderRef =
  br_txs :: "u16 list"
  br_reverting_txs :: "u16 list"
  br_dropping_txs :: "u16 list"
  br_latest_only :: bool

datatype MergeOrderRef = RefTx TxOrderRef | RefBundle BundleOrderRef

fun ref_validate :: "nat \<Rightarrow> MergeOrderRef \<Rightarrow> bool" where
  "ref_validate block_tx_count (RefTx tx) = (\<not> unat (tr_index tx) \<ge> block_tx_count)"
| "ref_validate block_tx_count (RefBundle b) =
     (\<not> (br_txs b = [] \<or> length (br_txs b) > MAX_BUNDLE_TXS \<or>
        list_ex (\<lambda>i. unat i \<ge> block_tx_count) (br_txs b) \<or>
        list_ex (\<lambda>i. unat i \<ge> length (br_txs b)) (br_reverting_txs b) \<or>
        list_ex (\<lambda>i. unat i \<ge> length (br_txs b)) (br_dropping_txs b)))"

text \<open>The hash function is Keccak of another library.\<close>

definition bundle_order_hash :: "(bytes \<Rightarrow> B256) \<Rightarrow> B256 list \<Rightarrow> B256" where
  "bundle_order_hash keccak hashes = keccak (concat (map (fixed_bytes 32) hashes))"

definition order_id :: "(bytes \<Rightarrow> B256) \<Rightarrow> B256 \<Rightarrow> BlsPublicKeyBytes \<Rightarrow> B256" where
  "order_id keccak order_hash builder_pubkey = keccak (fixed_bytes 32 order_hash @ fixed_bytes 48 builder_pubkey)"

text \<open>The codes of a bundle as lists of positions; \<open>Some None\<close> is a code without a meaning.\<close>

fun split_codes :: "OrderTxCodes \<Rightarrow> nat list \<Rightarrow> (u16 list \<times> u16 list) option option" where
  "split_codes c [] = Some (Some ([], []))"
| "split_codes c (tx # rest) =
     Option.bind (code_at c tx) (\<lambda>code.
     if code = CODE_NONE then split_codes c rest
     else if code = CODE_REVERT
       then map_option (map_option (\<lambda>(rs, ds). (of_nat tx # rs, ds))) (split_codes c rest)
     else if code = CODE_DROP
       then map_option (map_option (\<lambda>(rs, ds). (rs, of_nat tx # ds))) (split_codes c rest)
     else Some None)"

definition order_to_ref :: "OrderV2 \<Rightarrow> OrderTxCodes option \<Rightarrow> nat \<Rightarrow> MergeOrderRef option option" where
  "order_to_ref order codes block_tx_count =
     (let checked = (\<lambda>r. if ref_validate block_tx_count r then Some r else None);
          all_revert = (o2_flags order AND ALL_REVERT \<noteq> 0);
          latest_only = (o2_flags order AND LATEST_ONLY \<noteq> 0);
          first = unat (o2_start order); len = unat (o2_len order);
          txs = map of_nat [first ..< first + len]
      in if o2_len order = 0 \<or> o2_flags order AND NOT KNOWN_FLAGS \<noteq> 0 then Some None
         else if first + len \<ge> 2 ^ 16 then Some None
         else case codes of
           None \<Rightarrow>
             if o2_len order = 1 \<and> \<not> latest_only
             then Some (checked (RefTx \<lparr>tr_index = o2_start order, tr_can_revert = all_revert\<rparr>))
             else Some (checked (RefBundle \<lparr>br_txs = txs,
                    br_reverting_txs = (if all_revert then map of_nat [0..<len] else []),
                    br_dropping_txs = [], br_latest_only = latest_only\<rparr>))
         | Some c \<Rightarrow>
             if all_revert \<or> length (oc_codes c) \<noteq> codes_len (o2_len order) then Some None
             else map_option (\<lambda>parts. case parts of
                    None \<Rightarrow> None
                  | Some (rs, ds) \<Rightarrow> checked (RefBundle \<lparr>br_txs = txs, br_reverting_txs = rs,
                      br_dropping_txs = ds, br_latest_only = latest_only\<rparr>))
                  (split_codes c [0..<len]))"

definition order_ref_hash :: "(bytes \<Rightarrow> B256) \<Rightarrow> MergeOrderRef \<Rightarrow> B256 list \<Rightarrow> B256" where
  "order_ref_hash keccak r tx_hashes =
     (let at = (\<lambda>i. if unat i < length tx_hashes then tx_hashes ! unat i else 0) in
      case r of RefTx tx \<Rightarrow> at (tr_index tx) | RefBundle b \<Rightarrow> bundle_order_hash keccak (map at (br_txs b)))"

text \<open>The loop over a submission's orders; the number counts the dropped ones.\<close>

fun order_refs :: "OrderTxCodes list \<Rightarrow> nat \<Rightarrow> nat \<Rightarrow> OrderV2 list \<Rightarrow> (MergeOrderRef list \<times> nat) option" where
  "order_refs tx_codes block_tx_count i [] = Some ([], 0)"
| "order_refs tx_codes block_tx_count i (order # rest) =
     Option.bind (order_to_ref order (find (\<lambda>c. unat (oc_order c) = i) tx_codes) block_tx_count) (\<lambda>r.
     map_option (\<lambda>(rs, dropped). case r of Some x \<Rightarrow> (x # rs, dropped) | None \<Rightarrow> (rs, dropped + 1))
       (order_refs tx_codes block_tx_count (Suc i) rest))"

section \<open>Broken orders\<close>

record OrderTxs =
  ot_hashes :: "B256 list"
  ot_droppable :: "nat set"

definition OrderTxs_from_ref :: "MergeOrderRef \<Rightarrow> B256 list \<Rightarrow> OrderTxs" where
  "OrderTxs_from_ref r tx_hashes =
     (let resolve = (\<lambda>i. if unat i < length tx_hashes then tx_hashes ! unat i else 0) in
      case r of
        RefTx tx \<Rightarrow> \<lparr>ot_hashes = [resolve (tr_index tx)], ot_droppable = {}\<rparr>
      | RefBundle b \<Rightarrow> \<lparr>ot_hashes = map resolve (br_txs b), ot_droppable = set (map unat (br_dropping_txs b))\<rparr>)"

fun satisfied_from :: "(B256, nat) FxHashMap \<Rightarrow> nat set \<Rightarrow> nat \<Rightarrow> nat option \<Rightarrow> B256 list \<Rightarrow> bool" where
  "satisfied_from positions droppable i prev [] = True"
| "satisfied_from positions droppable i prev (h # hs) =
     (case map_of positions h of
        Some pos \<Rightarrow>
          (case prev of Some p \<Rightarrow> pos = p + 1 | None \<Rightarrow> True) \<and> satisfied_from positions droppable (Suc i) (Some pos) hs
      | None \<Rightarrow> i \<in> droppable \<and> satisfied_from positions droppable (Suc i) prev hs)"

definition is_satisfied :: "OrderTxs \<Rightarrow> (B256, nat) FxHashMap \<Rightarrow> bool" where
  "is_satisfied order positions = satisfied_from positions (ot_droppable order) 0 None (ot_hashes order)"

definition mark_hash ::
  "(B256, nat) FxHashMap \<Rightarrow> bool \<Rightarrow> B256 \<Rightarrow> bool list \<times> bool list \<Rightarrow> bool list \<times> bool list" where
  "mark_hash positions satisfied h marks =
     (case (map_of positions h, marks) of
        (Some pos, (bundled, covered)) \<Rightarrow> (bundled[pos := True], covered[pos := covered ! pos \<or> satisfied])
      | (None, _) \<Rightarrow> marks)"

definition mark_order :: "(B256, nat) FxHashMap \<Rightarrow> OrderTxs \<Rightarrow> bool list \<times> bool list \<Rightarrow> bool list \<times> bool list" where
  "mark_order positions order marks =
     (let satisfied = is_satisfied order positions in fold (mark_hash positions satisfied) (ot_hashes order) marks)"

definition tx_positions :: "B256 list \<Rightarrow> (B256, nat) FxHashMap" where
  "tx_positions final_txs = fold (\<lambda>(i, h) m. AList.update h i m) (enumerate 0 final_txs) []"

definition find_unbundled_txs :: "B256 list \<Rightarrow> OrderTxs list \<Rightarrow> B256 list" where
  "find_unbundled_txs final_txs orders =
     (let positions = tx_positions final_txs;
          (bundled, covered) = fold (mark_order positions) orders
            (replicate (length final_txs) False, replicate (length final_txs) False)
      in map snd (filter (\<lambda>(i, h). bundled ! i \<and> \<not> covered ! i) (enumerate 0 final_txs)))"

section \<open>Specification\<close>

text \<open>What an order means: its transactions as indices into the block, the positions that may revert and
  those that may be left out, and whether only the latest submission counts.\<close>

fun order_meaning :: "MergeOrder \<Rightarrow> nat list \<times> nat set \<times> nat set \<times> bool" where
  "order_meaning (OrderTx t) = ([to_index t], (if to_can_revert t then {0} else {}), {}, False)"
| "order_meaning (OrderBundle b) = (bo_txs b, set (bo_reverting_txs b), set (bo_dropping_txs b), False)"
| "order_meaning (OrderBundleV2 b) =
     (b2_txs b, set (b2_reverting_txs b), set (b2_dropping_txs b), b2_flags b AND ORDER_LATEST_ONLY = ORDER_LATEST_ONLY)"

fun ref_meaning :: "MergeOrderRef \<Rightarrow> nat list \<times> nat set \<times> nat set \<times> bool" where
  "ref_meaning (RefTx t) = ([unat (tr_index t)], (if tr_can_revert t then {0} else {}), {}, False)"
| "ref_meaning (RefBundle b) =
     (map unat (br_txs b), unat ` set (br_reverting_txs b), unat ` set (br_dropping_txs b), br_latest_only b)"

definition bundle_fits :: "nat \<Rightarrow> nat list \<Rightarrow> nat list \<Rightarrow> nat list \<Rightarrow> bool" where
  "bundle_fits block_tx_count txs reverting dropping \<longleftrightarrow>
     txs \<noteq> [] \<and> length txs \<le> MAX_BUNDLE_TXS \<and> txs = [hd txs ..< hd txs + length txs] \<and>
     hd txs + length txs \<le> block_tx_count \<and>
     list_all (\<lambda>i. i < length txs) reverting \<and> list_all (\<lambda>i. i < length txs) dropping \<and>
     distinct reverting \<and> list_all (\<lambda>i. i \<notin> set dropping) reverting"

text \<open>An order the wire can carry: contiguous transactions of the block, not too many, and each of them
  with at most one of the two liberties.\<close>

fun order_fits :: "nat \<Rightarrow> MergeOrder \<Rightarrow> bool" where
  "order_fits n (OrderTx t) = (to_index t < n)"
| "order_fits n (OrderBundle b) = bundle_fits n (bo_txs b) (bo_reverting_txs b) (bo_dropping_txs b)"
| "order_fits n (OrderBundleV2 b) = bundle_fits n (b2_txs b) (b2_reverting_txs b) (b2_dropping_txs b)"

text \<open>An order is honoured when what is left of it after the omitted transactions stands in the block in
  one piece and only droppable transactions were omitted.\<close>

definition kept_of :: "B256 list \<Rightarrow> OrderTxs \<Rightarrow> B256 list" where
  "kept_of final_txs order = filter (\<lambda>h. h \<in> set final_txs) (ot_hashes order)"

definition honoured :: "B256 list \<Rightarrow> OrderTxs \<Rightarrow> bool" where
  "honoured final_txs order \<longleftrightarrow>
     (\<forall>i < length (ot_hashes order). ot_hashes order ! i \<in> set final_txs \<or> i \<in> ot_droppable order) \<and>
     (\<exists>before after. final_txs = before @ kept_of final_txs order @ after)"

text \<open>What compacting one order appends, and the reference it becomes.\<close>

definition compacts_to :: "nat \<Rightarrow> MergeOrder \<Rightarrow> nat \<Rightarrow> OrderV2 \<Rightarrow> OrderTxCodes list \<Rightarrow> MergeOrderRef \<Rightarrow> bool" where
  "compacts_to n ord i o2 own r \<longleftrightarrow>
     (\<forall>os cs. length os = i \<longrightarrow> compact_order ord (os, cs) = (os @ [o2], cs @ own)) \<and>
     (own = [] \<or> (\<exists>c. own = [c] \<and> oc_order c = of_nat i)) \<and>
     order_to_ref o2 (case own of [] \<Rightarrow> None | c # _ \<Rightarrow> Some c) n = Some (Some r) \<and> ref_meaning r = order_meaning ord"

definition sample_orders :: BlockMergingData where
  "sample_orders = \<lparr>md_allow_appending = True, md_builder_address = 7, md_merge_orders =
     [OrderTx \<lparr>to_index = 0, to_can_revert = True\<rparr>,
      OrderBundleV2 \<lparr>b2_txs = [1, 2, 3], b2_reverting_txs = [0], b2_dropping_txs = [2], b2_flags = 1\<rparr>,
      OrderBundle \<lparr>bo_txs = [4, 5], bo_reverting_txs = [1, 0], bo_dropping_txs = []\<rparr>]\<rparr>"

definition pos_of :: "B256 list \<Rightarrow> B256 list \<Rightarrow> nat list" where
  "pos_of final_txs hs = List.map_filter (map_of (tx_positions final_txs)) hs"

definition consecutive :: "nat \<Rightarrow> nat list \<Rightarrow> bool" where
  "consecutive q ps \<longleftrightarrow> ps = [q..<q + length ps]"

definition sample_block :: "B256 list" where "sample_block = [10, 20, 30, 40]"

definition sample_order_txs :: "OrderTxs list" where
  "sample_order_txs =
     [\<lparr>ot_hashes = [10, 30], ot_droppable = {}\<rparr>, \<lparr>ot_hashes = [20, 50, 30], ot_droppable = {1}\<rparr>,
      \<lparr>ot_hashes = [40, 60], ot_droppable = {}\<rparr>]"

section \<open>Codes\<close>

lemma div_ceil_4: "n < m \<Longrightarrow> n div 4 < div_ceil m 4"
  by (simp add: div_ceil_def) presburger

lemma code_bits: "c = 1 \<or> c = 2 \<Longrightarrow> bit (c :: u8) k \<longleftrightarrow> (if c = 1 then k = 0 else k = 1)"
  using bit_exp_iff [of 1 k, where 'a = "8 word"] bit_1_iff [of k, where 'a = "8 word"] by auto

lemma shifted_code_bit:
  assumes "c = 1 \<or> c = 2" "a < 4" "b < 4" "j < 2"
  shows "bit (push_bit (2 * a) c :: u8) (2 * b + j) \<longleftrightarrow> a = b \<and> bit c j"
proof -
  have "bit (push_bit (2 * a) c :: u8) (2 * b + j) \<longleftrightarrow> 2 * a \<le> 2 * b + j \<and> bit c (2 * b + j - 2 * a)"
    using assms(3,4) by (simp add: bit_push_bit_iff)
  also have "\<dots> \<longleftrightarrow> a = b \<and> bit c j"
    unfolding code_bits [OF assms(1)] using assms(4) by (cases "c = 1") (simp_all, presburger+)
  finally show ?thesis .
qed

lemma pack_code_length [simp]: "length (pack_code n p cs) = length cs"
  by (simp add: pack_code_def split: prod.split)

lemma fold_pack_length [simp]: "length (fold (pack_code n) ps cs) = length cs"
  by (induction ps arbitrary: cs) simp_all

text \<open>A packed code has the two bits of its transaction set by the entries for that transaction.\<close>

lemma fold_pack_bit:
  assumes "tx < n" "n \<le> 4 * length cs" "j < 2" "\<forall>p \<in> set ps. snd p = 1 \<or> snd p = 2"
  shows "bit (fold (pack_code n) ps cs ! (tx div 4)) (2 * (tx mod 4) + j) \<longleftrightarrow>
    bit (cs ! (tx div 4)) (2 * (tx mod 4) + j) \<or> (\<exists>c. (tx, c) \<in> set ps \<and> bit c j)"
  using assms(2,4)
proof (induction ps arbitrary: cs)
  case (Cons p ps)
  obtain i c where p: "p = (i, c)" by (cases p)
  have c: "c = 1 \<or> c = 2" using Cons.prems(2) p by simp
  have len: "tx div 4 < length cs" using assms(1) Cons.prems(1) by simp
  have "bit (pack_code n p cs ! (tx div 4)) (2 * (tx mod 4) + j) \<longleftrightarrow>
      bit (cs ! (tx div 4)) (2 * (tx mod 4) + j) \<or> (i = tx \<and> bit c j)"
  proof (cases "i < n \<and> i div 4 = tx div 4")
    case True
    have m: "tx mod 4 < 4" "i mod 4 < 4" by simp_all
    have e: "i = tx \<longleftrightarrow> i mod 4 = tx mod 4" using True by (metis div_mult_mod_eq)
    show ?thesis
      using True len shifted_code_bit [OF c m(2,1) assms(3)] by (auto simp: pack_code_def p bit_or_iff e)
  next
    case False
    then show ?thesis using assms(1) by (auto simp: pack_code_def p)
  qed
  then show ?case using Cons p by auto
qed simp

lemma code_value:
  fixes v :: u8
  assumes "k < 4"
  shows "drop_bit (2 * k) v AND 3 = (if bit v (2 * k) then 1 else 0) + (if bit v (2 * k + 1) then 2 else 0)"
proof -
  define w where "w = drop_bit (2 * k) v"
  have b: "bit w 0 = bit v (2 * k)" "bit w 1 = bit v (2 * k + 1)" by (simp_all add: w_def bit_drop_bit_eq)
  have w: "bit (w AND 3) n \<longleftrightarrow> n < 2 \<and> bit w n" for n
  proof -
    have "w AND 3 = take_bit 2 w" by (simp add: take_bit_eq_mask mask_eq_exp_minus_1)
    then show ?thesis by (auto simp: bit_take_bit_iff)
  qed
  have "w AND 3 = (if bit w 0 then 1 else 0) + (if bit w 1 then 2 else 0)"
  proof (rule bit_eqI)
    fix n :: nat
    have n: "n < 2 \<longleftrightarrow> n = 0 \<or> n = 1" by auto
    have "bit (1 :: u8) n = (n = 0)" "bit (2 :: u8) n = (n = 1)" "bit (3 :: u8) n = (n < 2)"
      using code_bits [of 1 n] code_bits [of 2 n] bit_mask_iff [of 2 n, where 'a = "8 word"]
      by (auto simp: mask_eq_exp_minus_1)
    then show "bit (w AND 3) n = bit ((if bit w 0 then 1 else 0) + (if bit w 1 then 2 else 0) :: u8) n"
      unfolding w using n by auto
  qed
  then show ?thesis using b by (simp add: w_def)
qed

lemma code_at_packed:
  assumes "tx < n" "n < 2 ^ 8"
  shows "code_at \<lparr>oc_order = k, oc_codes = pack_codes n (of_nat n) R D\<rparr> tx =
    Some ((if tx \<in> set R then 1 else 0) + (if tx \<in> set D then 2 else 0))"
proof -
  let ?ps = "map (\<lambda>i. (i, CODE_REVERT)) R @ map (\<lambda>i. (i, CODE_DROP)) D"
  have u: "unat (of_nat n :: u8) = n" using assms(2) by (simp add: unat_of_nat)
  have l: "codes_len (of_nat n) = div_ceil n 4" by (simp add: codes_len_def u)
  have n: "n \<le> 4 * div_ceil n 4" by (simp add: div_ceil_def) presburger
  have i: "tx div 4 < div_ceil n 4" using assms(1) by (rule div_ceil_4)
  have z: "bit (replicate (div_ceil n 4) (0 :: u8) ! (tx div 4)) m = False" for m using i by simp
  have p: "\<forall>p \<in> set ?ps. snd p = 1 \<or> snd p = 2" by (auto simp: CODE_REVERT_def CODE_DROP_def)
  have b: "bit (pack_codes n (of_nat n) R D ! (tx div 4)) (2 * (tx mod 4) + j) \<longleftrightarrow> (if j = 0 then tx \<in> set R else tx \<in> set D)"
    if "j < 2" for j
    unfolding pack_codes_def l
    using fold_pack_bit [OF assms(1), of "replicate (div_ceil n 4) 0" j ?ps] n that p z
      code_bits [of 1 j] code_bits [of 2 j]
    by (auto simp: CODE_REVERT_def CODE_DROP_def less_2_cases_iff)
  have b0: "bit (pack_codes n (of_nat n) R D ! (tx div 4)) (2 * (tx mod 4)) \<longleftrightarrow> tx \<in> set R" using b [of 0] by simp
  have b1: "bit (pack_codes n (of_nat n) R D ! (tx div 4)) (2 * (tx mod 4) + 1) \<longleftrightarrow> tx \<in> set D" using b [of 1] by simp
  have "length (pack_codes n (of_nat n) R D) = div_ceil n 4" by (simp add: pack_codes_def l)
  then show ?thesis
    using i code_value [of "tx mod 4" "pack_codes n (of_nat n) R D ! (tx div 4)"] b0 b1
    by (simp add: code_at_def)
qed

lemma split_packed:
  assumes "n < 2 ^ 8" "list_all (\<lambda>tx. tx < n) txs" "set R \<inter> set D = {}"
  shows "split_codes \<lparr>oc_order = k, oc_codes = pack_codes n (of_nat n) R D\<rparr> txs =
    Some (Some (map of_nat (filter (\<lambda>tx. tx \<in> set R) txs), map of_nat (filter (\<lambda>tx. tx \<in> set D) txs)))"
  using assms(2)
proof (induction txs)
  case (Cons tx txs)
  then have "code_at \<lparr>oc_order = k, oc_codes = pack_codes n (of_nat n) R D\<rparr> tx =
      Some ((if tx \<in> set R then 1 else 0) + (if tx \<in> set D then 2 else 0))"
    using code_at_packed assms(1) by simp
  then show ?case using Cons assms(3)
    by (auto simp: CODE_NONE_def CODE_REVERT_def CODE_DROP_def)
qed simp

section \<open>Meaning of compacted orders\<close>

lemma unat_of_nat16: "n < 2 ^ 16 \<Longrightarrow> unat (of_nat n :: u16) = n"
  by (simp add: unat_of_nat)

lemma map_unat_of_nat16: "m \<le> 2 ^ 16 \<Longrightarrow> map (\<lambda>i. unat (of_nat i :: u16)) [k..<m] = [k..<m]"
  by (intro map_idI) (simp add: unat_of_nat16)

lemma flags_simps [simp]:
  "(LATEST_ONLY OR ALL_REVERT) AND NOT KNOWN_FLAGS = 0" "ALL_REVERT AND NOT KNOWN_FLAGS = 0"
  "LATEST_ONLY AND NOT KNOWN_FLAGS = 0" "(LATEST_ONLY OR ALL_REVERT) AND ALL_REVERT \<noteq> 0" "ALL_REVERT AND ALL_REVERT \<noteq> 0"
  "LATEST_ONLY AND ALL_REVERT = 0" "(LATEST_ONLY OR ALL_REVERT) AND LATEST_ONLY \<noteq> 0" "ALL_REVERT AND LATEST_ONLY = 0"
  "LATEST_ONLY AND LATEST_ONLY \<noteq> 0" "LATEST_ONLY \<noteq> 0" "ALL_REVERT \<noteq> 0"
  by (simp_all add: LATEST_ONLY_def ALL_REVERT_def KNOWN_FLAGS_def)

text \<open>The reference of a run of transactions without codes: either all of them may revert or none.\<close>

lemma uncoded_run:
  assumes "0 < L" "L \<le> MAX_BUNDLE_TXS" "k + L \<le> n" "n \<le> MAX_BLOCK_TXS"
  shows "\<exists>r. order_to_ref \<lparr>o2_start = of_nat k, o2_len = of_nat L,
      o2_flags = (if all then (if latest then LATEST_ONLY else 0) OR ALL_REVERT else if latest then LATEST_ONLY else 0)\<rparr> None n =
      Some (Some r) \<and> ref_meaning r = ([k..<k + L], if all then {0..<L} else {}, {}, latest)"
proof -
  have b: "L < 2 ^ 8" "k + L < 2 ^ 16" using assms by (simp_all add: MAX_BUNDLE_TXS_def MAX_BLOCK_TXS_def)
  have u: "unat (of_nat L :: u8) = L" "unat (of_nat k :: u16) = k" using b by (simp_all add: unat_of_nat)
  have ul: "of_nat L \<noteq> (0 :: u8)" "(of_nat L = (1 :: u8)) = (L = 1)" using u(1) assms(1) by auto
  have m: "map (\<lambda>i. unat (of_nat i :: u16)) [k..<k + L] = [k..<k + L]" "map (\<lambda>i. unat (of_nat i :: u16)) [0..<L] = [0..<L]"
    using map_unat_of_nat16 b by simp_all
  have s: "(\<lambda>i. unat (of_nat i :: u16)) ` {0..<L} = {0..<L}" using m(2) by (metis list.set_map set_upt)
  have lt: "unat (of_nat i :: u16) < n" if "i \<in> {k..<k + L}" for i
    using that b(2) assms(3) by (simp add: unat_of_nat16)
  have lt': "unat (of_nat i :: u16) < L" if "i \<in> {0..<L}" for i
    using that b(2) by (simp add: unat_of_nat16)
  let ?o = "\<lparr>o2_start = of_nat k, o2_len = of_nat L,
      o2_flags = (if all then (if latest then LATEST_ONLY else 0) OR ALL_REVERT else if latest then LATEST_ONLY else 0)\<rparr>"
  have f: "o2_flags ?o AND NOT KNOWN_FLAGS = 0" "(o2_flags ?o AND ALL_REVERT \<noteq> 0) = all" "(o2_flags ?o AND LATEST_ONLY \<noteq> 0) = latest"
    by simp_all
  show ?thesis
  proof (cases "L = 1 \<and> \<not> latest")
    case True
    then have "order_to_ref ?o None n = Some (Some (RefTx \<lparr>tr_index = of_nat k, tr_can_revert = all\<rparr>))"
      using b u assms(3) ul f by (simp add: order_to_ref_def Let_def)
    then show ?thesis using True u by simp
  next
    case False
    let ?r = "RefBundle \<lparr>br_txs = map of_nat [k..<k + L], br_reverting_txs = (if all then map of_nat [0..<L] else []),
        br_dropping_txs = [], br_latest_only = latest\<rparr>"
    have "ref_validate n ?r" using assms(1,2) lt lt' by (auto simp: list_ex_iff not_le)
    then have "order_to_ref ?o None n = Some (Some ?r)"
      using False b u ul f by (simp add: order_to_ref_def Let_def del: ref_validate.simps)
    then show ?thesis using m(1) s by (auto simp: image_image comp_def)
  qed
qed

lemma coded_run:
  assumes "0 < L" "L \<le> MAX_BUNDLE_TXS" "k + L \<le> n" "n \<le> MAX_BLOCK_TXS"
    and "set R \<subseteq> {0..<L}" "set D \<subseteq> {0..<L}" "set R \<inter> set D = {}"
  shows "\<exists>r. order_to_ref \<lparr>o2_start = of_nat k, o2_len = of_nat L, o2_flags = (if latest then LATEST_ONLY else 0)\<rparr>
      (Some \<lparr>oc_order = i, oc_codes = pack_codes L (of_nat L) R D\<rparr>) n =
      Some (Some r) \<and> ref_meaning r = ([k..<k + L], set R, set D, latest)"
proof -
  have b: "L < 2 ^ 8" "k + L < 2 ^ 16" using assms by (simp_all add: MAX_BUNDLE_TXS_def MAX_BLOCK_TXS_def)
  have u: "unat (of_nat L :: u8) = L" "unat (of_nat k :: u16) = k" using b by (simp_all add: unat_of_nat)
  have ul: "of_nat L \<noteq> (0 :: u8)" using u(1) assms(1) by auto
  have m: "map (\<lambda>i. unat (of_nat i :: u16)) [k..<k + L] = [k..<k + L]"
    using map_unat_of_nat16 b by simp
  have lt: "unat (of_nat i :: u16) < n" if "i \<in> {k..<k + L}" for i
    using that b(2) assms(3) by (simp add: unat_of_nat16)
  have small: "unat (of_nat i :: u16) = i" if "i \<in> {0..<L}" for i
    using that b(2) by (simp add: unat_of_nat16)
  let ?o = "\<lparr>o2_start = of_nat k, o2_len = of_nat L, o2_flags = (if latest then LATEST_ONLY else 0)\<rparr> :: OrderV2"
  let ?pick = "\<lambda>A. map of_nat (filter (\<lambda>tx. tx \<in> set A) [0..<L]) :: u16 list"
  let ?r = "RefBundle \<lparr>br_txs = map of_nat [k..<k + L], br_reverting_txs = ?pick R, br_dropping_txs = ?pick D,
      br_latest_only = latest\<rparr>"
  have f: "o2_flags ?o AND NOT KNOWN_FLAGS = 0" "o2_flags ?o AND ALL_REVERT = 0" "(o2_flags ?o AND LATEST_ONLY \<noteq> 0) = latest"
    by simp_all
  have pick: "unat ` set (?pick A) = set A" if "set A \<subseteq> {0..<L}" for A
    using that small by (force simp: image_image)
  have split: "split_codes \<lparr>oc_order = i, oc_codes = pack_codes L (of_nat L) R D\<rparr> [0..<L] = Some (Some (?pick R, ?pick D))"
    using split_packed [OF b(1) _ assms(7), of "[0..<L]"] by (simp add: list_all_iff)
  have "ref_validate n ?r" using assms(1,2) lt small by (auto simp: list_ex_iff not_le)
  then have "order_to_ref ?o (Some \<lparr>oc_order = i, oc_codes = pack_codes L (of_nat L) R D\<rparr>) n = Some (Some ?r)"
    using b u ul f split by (simp add: order_to_ref_def Let_def pack_codes_def del: ref_validate.simps)
  then show ?thesis using m pick [OF assms(5)] pick [OF assms(6)] by (auto simp: image_image comp_def)
qed

lemma bundle_compacts:
  assumes fits: "bundle_fits n txs R D" and n: "n \<le> MAX_BLOCK_TXS"
    and ord: "\<And>acc. compact_order ord acc = compact_bundle txs R D latest acc"
      "order_meaning ord = (txs, set R, set D, latest)"
  shows "\<exists>o2 own r. compacts_to n ord i o2 own r"
proof -
  let ?L = "length txs" and ?k = "hd txs"
  let ?flag = "if latest then LATEST_ONLY else 0 :: u8"
  define all where "all \<longleftrightarrow> D = [] \<and> length R = ?L"
  let ?coded = "\<not> all \<and> \<not> (R = [] \<and> D = [])"
  let ?o = "\<lparr>o2_start = of_nat ?k, o2_len = of_nat ?L, o2_flags = (if all then ?flag OR ALL_REVERT else ?flag)\<rparr>"
  let ?c = "\<lparr>oc_order = of_nat i, oc_codes = pack_codes ?L (of_nat ?L) R D\<rparr>"
  let ?own = "if ?coded then [?c] else []"
  have L: "0 < ?L" "?L \<le> MAX_BUNDLE_TXS" "?k + ?L \<le> n" and txs: "[?k ..< ?k + ?L] = txs"
    using fits by (auto simp: bundle_fits_def)
  have sets: "set R \<subseteq> {0..<?L}" "set D \<subseteq> {0..<?L}" "distinct R" "set R \<inter> set D = {}"
    using fits by (auto simp: bundle_fits_def list_all_iff)
  have step: "compact_order ord (os, cs) = (os @ [?o], cs @ ?own)" if "length os = i" for os cs
    using L n that by (simp add: ord compact_bundle_def Let_def all_def MAX_BUNDLE_TXS_def MAX_BLOCK_TXS_def)
  have "\<exists>r. order_to_ref ?o (case ?own of [] \<Rightarrow> None | c # _ \<Rightarrow> Some c) n = Some (Some r) \<and> ref_meaning r = order_meaning ord"
  proof (cases ?coded)
    case True
    then show ?thesis
      using coded_run [OF L n sets(1,2,4), of latest "of_nat i"] by (simp add: ord(2) txs)
  next
    case False
    have "set R = {0..<?L}" if all
      using that sets(1,3) by (simp add: all_def card_subset_eq distinct_card)
    then show ?thesis
      using uncoded_run [OF L n, of all latest] False L(1) all_def by (auto simp: ord(2) txs)
  qed
  then obtain r where "order_to_ref ?o (case ?own of [] \<Rightarrow> None | c # _ \<Rightarrow> Some c) n = Some (Some r)"
    "ref_meaning r = order_meaning ord" by blast
  then have "compacts_to n ord i ?o ?own r"
    using step unfolding compacts_to_def by simp
  then show ?thesis by blast
qed

lemma order_compacts:
  assumes "order_fits n ord" "n \<le> MAX_BLOCK_TXS"
  shows "\<exists>o2 own r. compacts_to n ord i o2 own r"
proof (cases ord)
  case (OrderTx t)
  let ?o = "\<lparr>o2_start = of_nat (to_index t), o2_len = of_nat 1, o2_flags = (if to_can_revert t then ALL_REVERT else 0)\<rparr>"
  have t: "to_index t < n" "to_index t < 2 ^ 16" using assms OrderTx by (simp_all add: MAX_BLOCK_TXS_def)
  obtain r where r: "order_to_ref ?o None n = Some (Some r)"
    "ref_meaning r = ([to_index t], if to_can_revert t then {0..<1} else {}, {}, False)"
    using uncoded_run [of 1 "to_index t" n "to_can_revert t" False] assms(2) t
    by (simp add: MAX_BUNDLE_TXS_def cong: if_cong) blast
  then have "compacts_to n ord i ?o [] r" using t(2) by (simp add: compacts_to_def OrderTx)
  then show ?thesis by blast
next
  case (OrderBundle b)
  then show ?thesis using bundle_compacts [of n "bo_txs b"] assms by simp
next
  case (OrderBundleV2 b)
  then show ?thesis using bundle_compacts [of n "b2_txs b"] assms by simp
qed

lemma find_none: "\<forall>c \<in> set cs. \<not> P c \<Longrightarrow> find P cs = None"
  by (induction cs) auto

lemma find_skip: "\<forall>c \<in> set cs. \<not> P c \<Longrightarrow> find P (cs @ ds) = find P ds"
  by (induction cs) auto

text \<open>The codes of an order are found by its position: earlier orders left codes with smaller positions and
  later ones leave codes with larger ones.\<close>

lemma compacted_refs:
  assumes "list_all (order_fits n) ords" "n \<le> MAX_BLOCK_TXS" "length os + length ords \<le> 2 ^ 16"
  shows "\<exists>os' cs' refs. fold compact_order ords (os, cs) = (os @ os', cs @ cs') \<and>
    (\<forall>c \<in> set cs'. length os \<le> unat (oc_order c)) \<and>
    (\<forall>pre. (\<forall>c \<in> set pre. unat (oc_order c) < length os) \<longrightarrow>
       order_refs (pre @ cs') n (length os) os' = Some (refs, 0)) \<and>
    map ref_meaning refs = map order_meaning ords"
  using assms(1,3)
proof (induction ords arbitrary: os cs)
  case (Cons ord ords)
  let ?i = "length os"
  obtain o2 own r where c: "compacts_to n ord ?i o2 own r"
    using order_compacts assms(2) Cons.prems(1) by fastforce
  have step: "compact_order ord (os, cs) = (os @ [o2], cs @ own)" and own: "own = [] \<or> (\<exists>c. own = [c] \<and> oc_order c = of_nat ?i)"
    and conv: "order_to_ref o2 (case own of [] \<Rightarrow> None | c # _ \<Rightarrow> Some c) n = Some (Some r)"
    and mean: "ref_meaning r = order_meaning ord"
    using c by (simp_all add: compacts_to_def)
  have at: "\<forall>c \<in> set own. unat (oc_order c) = ?i" using own Cons.prems(2) by (auto simp: unat_of_nat16)
  obtain os' cs' refs where f: "fold compact_order ords (os @ [o2], cs @ own) = ((os @ [o2]) @ os', (cs @ own) @ cs')"
    and later: "\<forall>c \<in> set cs'. Suc ?i \<le> unat (oc_order c)"
    and rest: "\<And>pre. \<forall>c \<in> set pre. unat (oc_order c) < Suc ?i \<Longrightarrow> order_refs (pre @ cs') n (Suc ?i) os' = Some (refs, 0)"
    and m: "map ref_meaning refs = map order_meaning ords"
    using Cons.IH [of "os @ [o2]" "cs @ own"] Cons.prems by auto
  have "order_refs (pre @ own @ cs') n ?i (o2 # os') = Some (r # refs, 0)" if pre: "\<forall>c \<in> set pre. unat (oc_order c) < ?i" for pre
  proof -
    have "find (\<lambda>c. unat (oc_order c) = ?i) (pre @ own @ cs') = find (\<lambda>c. unat (oc_order c) = ?i) (own @ cs')"
      using pre by (intro find_skip) auto
    also have "\<dots> = (case own of [] \<Rightarrow> None | c # _ \<Rightarrow> Some c)"
      using at later find_none [of cs' "\<lambda>c. unat (oc_order c) = ?i"] by (cases own) fastforce+
    finally have fd: "find (\<lambda>c. unat (oc_order c) = ?i) (pre @ own @ cs') = (case own of [] \<Rightarrow> None | c # _ \<Rightarrow> Some c)" .
    have "order_refs (pre @ own @ cs') n (Suc ?i) os' = Some (refs, 0)"
      using rest [of "pre @ own"] pre at by (auto simp: less_Suc_eq)
    then show ?thesis using fd conv by simp
  qed
  then have "fold compact_order (ord # ords) (os, cs) = (os @ o2 # os', cs @ own @ cs') \<and>
      (\<forall>c \<in> set (own @ cs'). ?i \<le> unat (oc_order c)) \<and>
      (\<forall>pre. (\<forall>c \<in> set pre. unat (oc_order c) < ?i) \<longrightarrow> order_refs (pre @ own @ cs') n ?i (o2 # os') = Some (r # refs, 0)) \<and>
      map ref_meaning (r # refs) = map order_meaning (ord # ords)"
    using f step at later mean m by auto
  then show ?case by blast
qed simp

text \<open>C38. The merge orders of a submission keep their meaning on the way to the merge builder: for a block of
  at most 65535 transactions whose orders are runs of its transactions, none longer than 32, with at most one
  liberty per transaction, no order is dropped and the references sent mean exactly what the builder
  attached: the same transactions, the same ones allowed to revert, the same ones droppable.\<close>

theorem merge_orders_keep_meaning:
  assumes "list_all (order_fits block_tx_count) (md_merge_orders d)" "block_tx_count \<le> MAX_BLOCK_TXS"
    and "length (md_merge_orders d) \<le> 2 ^ 16"
  shows "\<exists>refs. order_refs (m2_tx_codes (compact d)) block_tx_count 0 (m2_orders (compact d)) = Some (refs, 0) \<and>
    map ref_meaning refs = map order_meaning (md_merge_orders d)"
proof -
  obtain os cs refs where "fold compact_order (md_merge_orders d) ([], []) = (os, cs)"
    "order_refs cs block_tx_count 0 os = Some (refs, 0)" "map ref_meaning refs = map order_meaning (md_merge_orders d)"
    using compacted_refs [OF assms(1,2), of "[]" "[]"] assms(3) by force
  then show ?thesis by (simp add: compact_def)
qed

theorem merge_orders_keep_meaning_witness:
  "\<exists>refs. order_refs (m2_tx_codes (compact sample_orders)) 6 0 (m2_orders (compact sample_orders)) = Some (refs, 0) \<and>
    map ref_meaning refs = [([0], {0}, {}, False), ([1, 2, 3], {0}, {2}, True), ([4, 5], {0, 1}, {}, False)]"
proof -
  have "list_all (order_fits 6) (md_merge_orders sample_orders)"
    by (simp add: sample_orders_def bundle_fits_def MAX_BUNDLE_TXS_def upt_rec)
  then show ?thesis
    using merge_orders_keep_meaning [of 6 sample_orders]
    by (simp add: sample_orders_def MAX_BLOCK_TXS_def ORDER_LATEST_ONLY_def insert_commute)
qed

text \<open>An order that names one of its two transactions twice as reverting is compacted as if both of them might
  revert: the comparison counts the entries and not the transactions.\<close>

lemma duplicate_reverting_reverts_all:
  "order_refs (m2_tx_codes (compact d)) 2 0 (m2_orders (compact d)) =
     Some ([RefBundle \<lparr>br_txs = [0, 1], br_reverting_txs = [0, 1], br_dropping_txs = [], br_latest_only = False\<rparr>], 0)"
  if "d = \<lparr>md_allow_appending = True, md_builder_address = 7, md_merge_orders =
     [OrderBundle \<lparr>bo_txs = [0, 1], bo_reverting_txs = [0, 0], bo_dropping_txs = []\<rparr>]\<rparr>"
  unfolding that
  by (simp add: compact_def compact_bundle_def order_to_ref_def Let_def upt_rec ALL_REVERT_def LATEST_ONLY_def KNOWN_FLAGS_def
    MAX_BUNDLE_TXS_def)

section \<open>Orders broken apart\<close>

text \<open>The positions of a block of distinct transactions.\<close>

lemma positions_fold:
  assumes "distinct xs"
  shows "map_of (fold (\<lambda>(i, h) m. AList.update h i m) (enumerate k xs) m) h = Some i \<longleftrightarrow>
    (if h \<in> set xs then k \<le> i \<and> i < k + length xs \<and> xs ! (i - k) = h else map_of m h = Some i)"
  using assms
proof (induction xs arbitrary: k m)
  case (Cons y ys)
  have "i = k \<or> i < k \<or> i = Suc (i - 1) \<and> k \<le> i - 1" by linarith
  then show ?case using Cons by (auto simp: update_conv' nth_Cons' Suc_le_eq le_Suc_eq)
qed simp

lemma positions:
  "distinct xs \<Longrightarrow> map_of (tx_positions xs) h = Some i \<longleftrightarrow> i < length xs \<and> xs ! i = h"
  using positions_fold [of xs 0 "[]" h i] by (auto simp: tx_positions_def)

lemma positions_none: "distinct xs \<Longrightarrow> map_of (tx_positions xs) h = None \<longleftrightarrow> h \<notin> set xs"
  using positions [of xs h] by (metis in_set_conv_nth not_None_eq)

lemma pos_of_nth:
  assumes "distinct xs"
  shows "map ((!) xs) (pos_of xs hs) = filter (\<lambda>h. h \<in> set xs) hs" "list_all (\<lambda>i. i < length xs) (pos_of xs hs)"
  by (induction hs) (auto simp: pos_of_def map_filter_simps positions [OF assms] positions_none [OF assms] split: option.split)

lemma consecutive_Cons [simp]: "consecutive q (p # ps) \<longleftrightarrow> p = q \<and> consecutive (q + 1) ps"
  using upt_conv_Cons [of q "q + length (p # ps)"] by (auto simp: consecutive_def simp del: upt_Suc)

text \<open>The loop of \<open>is_satisfied\<close> in closed form.\<close>

lemma satisfied_iff:
  assumes "distinct xs"
  shows "satisfied_from (tx_positions xs) D i prev hs \<longleftrightarrow>
    (\<forall>j < length hs. hs ! j \<in> set xs \<or> i + j \<in> D) \<and>
    (case prev of Some q \<Rightarrow> consecutive (q + 1) (pos_of xs hs)
     | None \<Rightarrow> \<exists>q. consecutive q (pos_of xs hs))"
proof (induction hs arbitrary: i prev)
  case Nil
  then show ?case by (simp add: pos_of_def map_filter_simps consecutive_def split: option.split)
next
  case (Cons h hs)
  have split: "(\<forall>j < length (h # hs). (h # hs) ! j \<in> set xs \<or> i + j \<in> D) \<longleftrightarrow>
      (h \<in> set xs \<or> i \<in> D) \<and> (\<forall>j < length hs. hs ! j \<in> set xs \<or> Suc i + j \<in> D)"
    by (auto simp: nth_Cons' less_Suc_eq_0_disj)
  show ?case
  proof (cases "map_of (tx_positions xs) h")
    case None
    then have "h \<notin> set xs" "pos_of xs (h # hs) = pos_of xs hs"
      using positions_none [OF assms, of h] by (simp_all add: pos_of_def map_filter_simps)
    then show ?thesis using Cons.IH [of "Suc i" prev] None split by (simp cong: option.case_cong)
  next
    case (Some p)
    then have "h \<in> set xs" "pos_of xs (h # hs) = p # pos_of xs hs"
      using positions_none [OF assms, of h] by (auto simp: pos_of_def map_filter_simps)
    then show ?thesis using Cons.IH [of "Suc i" "Some p"] Some split by (auto split: option.split)
  qed
qed

text \<open>Positions in a row are a piece of the block.\<close>

lemma in_a_row:
  assumes "distinct xs"
  shows "(\<exists>q. consecutive q (pos_of xs hs)) \<longleftrightarrow>
    (\<exists>before after. xs = before @ filter (\<lambda>h. h \<in> set xs) hs @ after)"
proof
  let ?ps = "pos_of xs hs" and ?kept = "filter (\<lambda>h. h \<in> set xs) hs"
  assume "\<exists>q. consecutive q ?ps"
  then obtain q where q: "?ps = [q..<q + length ?ps]" by (auto simp: consecutive_def)
  show "\<exists>before after. xs = before @ ?kept @ after"
  proof (cases "?ps = []")
    case True
    then have "?kept = []" using pos_of_nth(1) [OF assms, of hs] by simp
    then show ?thesis by (metis append_Nil)
  next
    case False
    then have "q + length ?ps - 1 \<in> set [q..<q + length ?ps]" by (cases "length ?ps") auto
    then have "q + length ?ps - 1 \<in> set ?ps" using q by simp
    then have "q + length ?ps \<le> length xs" using pos_of_nth(2) [OF assms, of hs] by (auto simp: list_all_iff)
    then have "map ((!) xs) [q..<q + length ?ps] = take (length ?ps) (drop q xs)" by (intro nth_equalityI) auto
    then have "?kept = take (length ?ps) (drop q xs)" using arg_cong [OF q, of "map ((!) xs)"] pos_of_nth(1) [OF assms, of hs] by metis
    then have "xs = take q xs @ ?kept @ drop (length ?ps) (drop q xs)" using append_take_drop_id by metis
    then show ?thesis by blast
  qed
next
  let ?ps = "pos_of xs hs" and ?kept = "filter (\<lambda>h. h \<in> set xs) hs"
  assume "\<exists>before after. xs = before @ ?kept @ after"
  then obtain before after where x: "xs = before @ ?kept @ after" by blast
  have len: "length ?kept = length ?ps" using pos_of_nth(1) [OF assms, of hs] by (metis length_map)
  have "?ps ! j = length before + j" if j: "j < length ?ps" for j
  proof -
    have "xs ! (?ps ! j) = ?kept ! j" using pos_of_nth(1) [OF assms, of hs] j by (metis nth_map)
    also have "\<dots> = xs ! (length before + j)"
      using j len by (subst x) (simp add: nth_append)
    finally show ?thesis
      using pos_of_nth(2) [OF assms, of hs] j len assms arg_cong [OF x, of length]
      by (simp add: nth_eq_iff_index_eq list_all_length)
  qed
  then have "consecutive (length before) ?ps" unfolding consecutive_def by (intro nth_equalityI) simp_all
  then show "\<exists>q. consecutive q ?ps" by blast
qed

lemma is_satisfied_iff: "distinct final_txs \<Longrightarrow> is_satisfied order (tx_positions final_txs) \<longleftrightarrow> honoured final_txs order"
  by (simp add: is_satisfied_def satisfied_iff in_a_row honoured_def kept_of_def)

lemma mark_hashes:
  assumes "distinct xs" "length (fst marks) = length xs" "length (snd marks) = length xs"
  shows "let m = fold (mark_hash (tx_positions xs) sat) hs marks in
    length (fst m) = length xs \<and> length (snd m) = length xs \<and>
    (\<forall>i < length xs. (fst m ! i \<longleftrightarrow> fst marks ! i \<or> xs ! i \<in> set hs) \<and>
      (snd m ! i \<longleftrightarrow> snd marks ! i \<or> sat \<and> xs ! i \<in> set hs))"
  using assms(2,3)
proof (induction hs arbitrary: marks)
  case (Cons h hs)
  obtain bs cs where m: "marks = (bs, cs)" by (cases marks)
  show ?case
  proof (cases "map_of (tx_positions xs) h")
    case None
    then show ?thesis using Cons positions_none [OF assms(1), of h] by (auto simp: mark_hash_def Let_def)
  next
    case (Some p)
    then have p: "p < length xs" "xs ! p = h" using positions [OF assms(1)] by auto
    have u: "(xs ! i = h) = (i = p)" if "i < length xs" for i
      using that p assms(1) by (auto simp: nth_eq_iff_index_eq)
    show ?thesis
      using Cons.IH [of "mark_hash (tx_positions xs) sat h marks"] Cons.prems p u Some
      by (auto simp: mark_hash_def m Let_def nth_list_update)
  qed
qed simp

lemma mark_orders:
  assumes "distinct xs" "length (fst marks) = length xs" "length (snd marks) = length xs"
  shows "let m = fold (mark_order (tx_positions xs)) orders marks in
    \<forall>i < length xs. (fst m ! i \<longleftrightarrow> fst marks ! i \<or> (\<exists>or \<in> set orders. xs ! i \<in> set (ot_hashes or))) \<and>
      (snd m ! i \<longleftrightarrow> snd marks ! i \<or> (\<exists>or \<in> set orders. honoured xs or \<and> xs ! i \<in> set (ot_hashes or)))"
  using assms(2,3)
proof (induction orders arbitrary: marks)
  case (Cons or orders)
  define m where "m = mark_order (tx_positions xs) or marks"
  have "length (fst m) = length xs" "length (snd m) = length xs"
    and "i < length xs \<Longrightarrow> fst m ! i \<longleftrightarrow> fst marks ! i \<or> xs ! i \<in> set (ot_hashes or)"
    and "i < length xs \<Longrightarrow> snd m ! i \<longleftrightarrow> snd marks ! i \<or> honoured xs or \<and> xs ! i \<in> set (ot_hashes or)" for i
    using mark_hashes [OF assms(1) Cons.prems, of "is_satisfied or (tx_positions xs)" "ot_hashes or"]
    by (simp_all add: m_def mark_order_def Let_def is_satisfied_iff [OF assms(1)])
  then show ?case using Cons.IH [of m] by (auto simp: m_def [symmetric] Let_def)
qed simp

lemma filter_enumerate:
  "map snd (filter (\<lambda>(i, h). P i) (enumerate k xs)) = filter Q xs" if "\<And>i. i < length xs \<Longrightarrow> P (k + i) \<longleftrightarrow> Q (xs ! i)"
  using that
proof (induction xs arbitrary: k)
  case (Cons x xs)
  then show ?case using Cons.prems [of 0] Cons.IH [of "Suc k"] Cons.prems [of "Suc _"] by (simp add: less_Suc_eq_0_disj)
qed simp

lemma unbundled_exact:
  assumes "distinct final_txs"
  shows "find_unbundled_txs final_txs orders =
    filter (\<lambda>h. (\<exists>or \<in> set orders. h \<in> set (ot_hashes or)) \<and>
      \<not> (\<exists>or \<in> set orders. honoured final_txs or \<and> h \<in> set (ot_hashes or))) final_txs"
proof -
  let ?n = "length final_txs"
  obtain bundled covered where m: "fold (mark_order (tx_positions final_txs)) orders (replicate ?n False, replicate ?n False) =
      (bundled, covered)" by (cases "fold (mark_order (tx_positions final_txs)) orders (replicate ?n False, replicate ?n False)")
  then have "\<And>i. i < ?n \<Longrightarrow> bundled ! i \<and> \<not> covered ! i \<longleftrightarrow>
      (\<exists>or \<in> set orders. final_txs ! i \<in> set (ot_hashes or)) \<and>
      \<not> (\<exists>or \<in> set orders. honoured final_txs or \<and> final_txs ! i \<in> set (ot_hashes or))"
    using mark_orders [OF assms, of "(replicate ?n False, replicate ?n False)" orders] by (simp add: Let_def)
  then show ?thesis
    using m filter_enumerate [of final_txs "\<lambda>i. bundled ! i \<and> \<not> covered ! i" 0] by (simp add: find_unbundled_txs_def Let_def)
qed

text \<open>C39. The relay finds exactly the transactions a merged block took out of their orders: a transaction is
  reported when some announced order has it and no order with it is honoured, where an order is honoured when
  the transactions kept of it stand in the block one after the other, in its sequence, and only transactions
  the order lets go are missing.\<close>

theorem unbundled_txs_exact:
  assumes "distinct final_txs"
  shows "find_unbundled_txs final_txs orders =
    filter (\<lambda>h. (\<exists>or \<in> set orders. h \<in> set (ot_hashes or)) \<and>
      \<not> (\<exists>or \<in> set orders. honoured final_txs or \<and> h \<in> set (ot_hashes or))) final_txs"
  by (rule unbundled_exact [OF assms])

theorem unbundled_txs_exact_witness:
  "find_unbundled_txs sample_block sample_order_txs = [10, 40] \<and>
   filter (\<lambda>h. (\<exists>or \<in> set sample_order_txs. h \<in> set (ot_hashes or)) \<and>
      \<not> (\<exists>or \<in> set sample_order_txs. honoured sample_block or \<and> h \<in> set (ot_hashes or))) sample_block = [10, 40]"
proof -
  have "distinct sample_block" by (simp add: sample_block_def)
  moreover have "find_unbundled_txs sample_block sample_order_txs = [10, 40]"
    by (simp add: find_unbundled_txs_def sample_block_def sample_order_txs_def Let_def tx_positions_def mark_order_def mark_hash_def
      is_satisfied_def enumerate_eq_zip upt_rec)
  ultimately show ?thesis using unbundled_txs_exact [of sample_block sample_order_txs] by simp
qed

end
