(* ===== verification/Auctioneer_Types.thy ===== *)
theory Auctioneer_Types
  imports Merge_Orders
begin

text \<open>
  The values the auctioneer's handlers exchange (\<open>crates/relay/src/auctioneer/types.rs\<close>): decoded
  submissions with their ingress reference, the payloads kept for delivery, the data of a slot
  under auction, and the proposer-side preferences that gate a submission.  Bid-adjustment data are opaque
  here and stand as their encoding.
\<close>

section \<open>Submissions\<close>

datatype SubmissionRefKind = Http | Tcp | Internal

record SubmissionRef =
  sr_kind :: SubmissionRefKind
  sr_seq_num :: u32
  sr_id :: nat

definition SubmissionRef_http :: "nat \<Rightarrow> SubmissionRef" where
  "SubmissionRef_http future_result_id = \<lparr>sr_kind = Http, sr_seq_num = 0, sr_id = future_result_id\<rparr>"

definition SubmissionRef_tcp :: "nat \<Rightarrow> u32 \<Rightarrow> SubmissionRef" where
  "SubmissionRef_tcp token seq = \<lparr>sr_kind = Tcp, sr_seq_num = seq, sr_id = token\<rparr>"

datatype OptimisticVersion = NotOptimistic | V1

definition is_optimistic_version :: "OptimisticVersion \<Rightarrow> bool" where
  "is_optimistic_version v = (v = V1)"

record SubmissionTrace =
  st_receive_ns :: u64
  st_read_body_ns :: u64
  st_decoded_ns :: u64
  st_metadata :: string

datatype Compression = NoCompression | Gzip | Zstd

datatype Encoding = Json | Ssz

datatype MergeType = NoMerge | Mergeable | AppendOnly | Pause

record SubmissionDecoderParams =
  dp_compression :: Compression
  dp_encoding :: Encoding
  dp_merge_type :: MergeType
  dp_is_dehydrated :: bool
  dp_dehydrated_v2 :: bool
  dp_merging_v2 :: bool
  dp_with_mergeable_data :: bool
  dp_with_adjustments :: bool
  dp_mark_all_txs_mergeable :: bool
  dp_fork_name :: ForkName

type_synonym Uuid = "128 word"

record SubmissionData =
  sd_submission_id :: Uuid
  sd_submission_ref :: SubmissionRef
  sd_submission :: Submission
  sd_merging_data :: "BlockMergingDataV2 option"
  sd_bid_adjustment_data :: "bytes option"
  sd_version :: SubmissionVersion
  sd_withdrawals_root :: "B256 option"
  sd_trace :: SubmissionTrace
  sd_decoder_params :: SubmissionDecoderParams
  sd_is_pessimistic :: bool

section \<open>Payloads kept for delivery\<close>

record PayloadBidData =
  bd_withdrawals_root :: B256
  bd_tx_root :: "B256 option"
  bd_execution_requests :: ExecutionRequests
  bd_value :: U256
  bd_builder_pubkey :: BlsPublicKeyBytes

record GossipPayload =
  gp_payload_and_blobs :: PayloadAndBlobs
  gp_bid_data :: PayloadBidData

record SubmissionPayload =
  sp_signed_bid_submission :: SignedBidSubmissionFulu
  sp_withdrawals_root :: B256
  sp_tx_root :: "B256 option"
  sp_bid_adjustment_data :: "bytes option"
  sp_is_adjusted :: bool
  sp_submission_version :: SubmissionVersion
  sp_submission_trace :: SubmissionTrace
  sp_parent_beacon_block_root :: "B256 option"

datatype PayloadEntry =
    EntrySubmission SubmissionPayload
  | EntryGossip GossipPayload

definition new_submission ::
  "SignedBidSubmissionFulu \<Rightarrow> B256 \<Rightarrow> B256 option \<Rightarrow> bytes option \<Rightarrow> SubmissionVersion \<Rightarrow>
   SubmissionTrace \<Rightarrow> B256 option \<Rightarrow> PayloadEntry" where
  "new_submission s wr tr adj v t pbr =
     EntrySubmission \<lparr>sp_signed_bid_submission = s, sp_withdrawals_root = wr, sp_tx_root = tr,
       sp_bid_adjustment_data = adj, sp_is_adjusted = False, sp_submission_version = v,
       sp_submission_trace = t, sp_parent_beacon_block_root = pbr\<rparr>"

definition new_gossip :: "PayloadAndBlobs \<Rightarrow> PayloadBidData \<Rightarrow> PayloadEntry" where
  "new_gossip p b = EntryGossip \<lparr>gp_payload_and_blobs = p, gp_bid_data = b\<rparr>"

definition is_adjusted :: "PayloadEntry \<Rightarrow> bool" where
  "is_adjusted e = (case e of EntrySubmission s \<Rightarrow> sp_is_adjusted s | EntryGossip _ \<Rightarrow> False)"

definition is_adjustable :: "PayloadEntry \<Rightarrow> bool" where
  "is_adjustable e = (case e of
     EntrySubmission s \<Rightarrow> sp_bid_adjustment_data s \<noteq> None | EntryGossip _ \<Rightarrow> False)"

definition has_bid_trace :: "PayloadEntry \<Rightarrow> BidTrace \<Rightarrow> bool" where
  "has_bid_trace e t = (case e of
     EntrySubmission s \<Rightarrow> sf_message (sp_signed_bid_submission s) = t
   | EntryGossip g \<Rightarrow> bd_value (gp_bid_data g) = bt_value t \<and>
                      bd_builder_pubkey (gp_bid_data g) = bt_builder_pubkey t)"

definition receive_ns :: "PayloadEntry \<Rightarrow> u64 option" where
  "receive_ns e = (case e of
     EntrySubmission s \<Rightarrow> Some (st_receive_ns (sp_submission_trace s)) | EntryGossip _ \<Rightarrow> None)"

definition entry_value :: "PayloadEntry \<Rightarrow> U256" where
  "entry_value e = (case e of
     EntrySubmission s \<Rightarrow> bt_value (sf_message (sp_signed_bid_submission s))
   | EntryGossip g \<Rightarrow> bd_value (gp_bid_data g))"

definition payload_and_blobs :: "PayloadEntry \<Rightarrow> PayloadAndBlobs" where
  "payload_and_blobs e = (case e of
     EntrySubmission s \<Rightarrow>
       \<lparr>pb_execution_payload = sf_execution_payload (sp_signed_bid_submission s),
        pb_blobs_bundle = sf_blobs_bundle (sp_signed_bid_submission s)\<rparr>
   | EntryGossip g \<Rightarrow> gp_payload_and_blobs g)"

definition execution_payload :: "PayloadEntry \<Rightarrow> ExecutionPayload" where
  "execution_payload e = (case e of
     EntrySubmission s \<Rightarrow> sf_execution_payload (sp_signed_bid_submission s)
   | EntryGossip g \<Rightarrow> pb_execution_payload (gp_payload_and_blobs g))"

definition entry_parent_hash :: "PayloadEntry \<Rightarrow> B256" where
  "entry_parent_hash e = (case e of
     EntrySubmission s \<Rightarrow> ep_parent_hash (sf_execution_payload (sp_signed_bid_submission s))
   | EntryGossip g \<Rightarrow> ep_parent_hash (pb_execution_payload (gp_payload_and_blobs g)))"

definition entry_block_hash :: "PayloadEntry \<Rightarrow> B256" where
  "entry_block_hash e = ep_block_hash (execution_payload e)"

definition bid_data_ref :: "PayloadEntry \<Rightarrow> PayloadBidData" where
  "bid_data_ref e = (case e of
     EntrySubmission s \<Rightarrow>
       \<lparr>bd_withdrawals_root = sp_withdrawals_root s, bd_tx_root = sp_tx_root s,
        bd_execution_requests = sf_execution_requests (sp_signed_bid_submission s),
        bd_value = bt_value (sf_message (sp_signed_bid_submission s)),
        bd_builder_pubkey = bt_builder_pubkey (sf_message (sp_signed_bid_submission s))\<rparr>
   | EntryGossip g \<Rightarrow> gp_bid_data g)"

section \<open>Merged blocks\<close>

record BuilderInclusionResult =
  bir_contribution :: U256
  bir_revenue :: U256
  bir_txs :: "B256 list"

record MergedBlockTrace =
  mbt_request_time_ns :: u64
  mbt_sim_start_time_ns :: u64
  mbt_sim_end_time_ns :: u64
  mbt_finalize_time_ns :: u64
  mbt_header_served_time_ns :: "u64 option"
  mbt_was_top_builder :: "bool option"
  mbt_top_bid :: "U256 option"

datatype UnmergedReason = ZeroPayment | OutOfSpace | Replaced | InvalidTx | DuplicateTx

record BlockMergeResponse =
  bmr_base_block_hash :: B256
  bmr_execution_payload :: ExecutionPayload
  bmr_execution_requests :: ExecutionRequests
  bmr_blobs_bundle :: BlobsBundle
  bmr_proposer_value :: U256
  bmr_base_builder_revenue :: U256
  bmr_relay_revenue :: U256
  bmr_builder_inclusions :: "(Address, BuilderInclusionResult) FxHashMap"
  bmr_base_payment_tx_index :: nat
  bmr_trace :: MergedBlockTrace
  bmr_unmerged_txs :: "(B256 \<times> UnmergedReason) list"
  bmr_tx_builders :: "(B256 \<times> BlsPublicKeyBytes) list"
  bmr_base_read_ns :: u64
  bmr_accept_ns :: u64

section \<open>Proposer data\<close>

datatype Filtering = Global | Regional

definition is_regional :: "Filtering \<Rightarrow> bool" where
  "is_regional f = (f = Regional)"

record ValidatorPreferences =
  vp_filtering :: Filtering
  vp_trusted_builders :: "string list option"
  vp_header_delay :: bool
  vp_delay_ms :: "u64 option"
  vp_disable_inclusion_lists :: bool
  vp_disable_optimistic :: bool
  vp_api_key :: "Uuid option"

definition default_preferences :: ValidatorPreferences where
  "default_preferences =
     \<lparr>vp_filtering = Global, vp_trusted_builders = None, vp_header_delay = True, vp_delay_ms = None,
      vp_disable_inclusion_lists = False, vp_disable_optimistic = False, vp_api_key = None\<rparr>"

record ValidatorRegistrationData =
  vr_fee_recipient :: Address
  vr_gas_limit :: u64
  vr_timestamp :: u64
  vr_pubkey :: BlsPublicKeyBytes

record SignedValidatorRegistration =
  svr_message :: ValidatorRegistrationData
  svr_signature :: BlsSignatureBytes

record ValidatorRegistrationInfo =
  ri_registration :: SignedValidatorRegistration
  ri_preferences :: ValidatorPreferences

record BuilderGetValidatorsResponseEntry =
  ve_slot :: Slot
  ve_validator_index :: u64
  ve_entry :: ValidatorRegistrationInfo

record InclusionListTx =
  il_hash :: B256
  il_bytes :: Transaction

type_synonym InclusionList = "InclusionListTx list"

section \<open>Slots\<close>

record SlotData =
  sl_bid_slot :: Slot
  sl_registration_data :: BuilderGetValidatorsResponseEntry
  sl_payload_attributes_map :: "(ForkKey, PayloadAttributesUpdate) FxHashMap"
  sl_current_fork :: ForkName
  sl_il :: "InclusionList option"

definition proposer_pubkey :: "SlotData \<Rightarrow> BlsPublicKeyBytes" where
  "proposer_pubkey sd = vr_pubkey (svr_message (ri_registration (ve_entry (sl_registration_data sd))))"

definition fork_for_parent_hash :: "SlotData \<Rightarrow> B256 \<Rightarrow> ForkKey option" where
  "fork_for_parent_hash sd h =
     find (\<lambda>k. fk_parent_hash k = h) (map fst (sl_payload_attributes_map sd))"

definition attrs_for_submission :: "SlotData \<Rightarrow> B256 \<Rightarrow> B256 \<Rightarrow> PayloadAttributesUpdate option" where
  "attrs_for_submission sd h randao =
     (case filter (\<lambda>a. pu_parent_hash a = h) (map snd (sl_payload_attributes_map sd)) of
        [] \<Rightarrow> None
      | first # rest \<Rightarrow>
          if pa_prev_randao (pu_payload_attributes first) = randao then Some first
          else (case find (\<lambda>a. pa_prev_randao (pu_payload_attributes a) = randao) rest of
                  Some a \<Rightarrow> Some a | None \<Rightarrow> Some first))"

section \<open>Gloas blocks\<close>

record SeenBlock =
  sb_block_root :: B256
  sb_parent_root :: B256
  sb_bid_builder_index :: u64
  sb_bid_block_hash :: B256

end
