(* ===== verification/Bid_Sorter.thy ===== *)
theory Bid_Sorter
  imports Auctioneer_Types
begin

text \<open>
  The bid sorter (\<open>crates/relay/src/auctioneer/bid_sorter.rs\<close>).  Per fork it holds the last
  accepted bid of every builder and the bid it serves.  Bids are sorted in, builders are demoted,
  and a new slot clears the book.  Every change of a served bid is published as a top-bid update;
  the updates an operation publishes are the last component of its result.

  Time is an argument: \<open>now\<close> stands for \<open>utcnow_ns()\<close> and \<open>elapsed\<close> for the measured processing
  time, which only feeds telemetry.  The assertion at the head of \<open>sort\<close> is the option: a bid for
  another slot panics.
\<close>

section \<open>State\<close>

record Bid =
  bid_version :: SubmissionVersion
  bid_value :: U256
  bid_slot :: u64
  bid_block_hash :: B256
  bid_builder_pubkey :: BlsPublicKeyBytes
  bid_block_number :: u64
  bid_parent_hash :: B256
  bid_parent_root :: B256
  bid_fee_recipient :: Address

definition Bid_new :: "externals \<Rightarrow> SubmissionVersion \<Rightarrow> SignedBidSubmission \<Rightarrow> B256 \<Rightarrow> Bid" where
  "Bid_new x version submission pr =
     (let t = signed_bid_trace submission in
      \<lparr>bid_version = version, bid_value = bt_value t, bid_slot = bt_slot t,
       bid_block_hash = bt_block_hash t, bid_builder_pubkey = bt_builder_pubkey t,
       bid_block_number = signed_block_number x submission, bid_parent_hash = bt_parent_hash t,
       bid_parent_root = pr, bid_fee_recipient = signed_fee_recipient x submission\<rparr>)"

definition Bid_from_submission_data :: "externals \<Rightarrow> SubmissionData \<Rightarrow> B256 \<Rightarrow> Bid" where
  "Bid_from_submission_data x s pr =
     (let t = bid_trace (sd_submission s) in
      \<lparr>bid_version = sd_version s, bid_value = bt_value t, bid_slot = bt_slot t,
       bid_block_hash = bt_block_hash t, bid_builder_pubkey = bt_builder_pubkey t,
       bid_block_number = sub_block_number x (sd_submission s), bid_parent_hash = bt_parent_hash t,
       bid_parent_root = pr, bid_fee_recipient = sub_fee_recipient x (sd_submission s)\<rparr>)"

record TopBidUpdate =
  tb_timestamp :: u64
  tb_slot :: u64
  tb_block_number :: u64
  tb_block_hash :: B256
  tb_parent_hash :: B256
  tb_builder_pubkey :: BlsPublicKeyBytes
  tb_fee_recipient :: Address
  tb_value :: U256

record BidSorterTelemetry =
  tel_subs :: u32
  tel_subs_process_time :: nat
  tel_stale_subs :: u32

definition default_telemetry :: BidSorterTelemetry where
  "default_telemetry = \<lparr>tel_subs = 0, tel_subs_process_time = 0, tel_stale_subs = 0\<rparr>"

record ForkState =
  fs_bids :: "(BlsPublicKeyBytes, Bid) FxHashMap"
  fs_curr_bid :: "Bid option"
  fs_subs :: u32
  fs_top_bids :: u32

definition default_fork :: ForkState where
  "default_fork = \<lparr>fs_bids = [], fs_curr_bid = None, fs_subs = 0, fs_top_bids = 0\<rparr>"

record BidSorter =
  curr_bid_slot :: u64
  forks :: "(ForkKey, ForkState) FxHashMap"
  demotions :: "BlsPublicKeyBytes list"
  local_telemetry :: BidSorterTelemetry

definition BidSorter_new :: BidSorter where
  "BidSorter_new = \<lparr>curr_bid_slot = 0, forks = [], demotions = [], local_telemetry = default_telemetry\<rparr>"

definition bid_fork :: "Bid \<Rightarrow> ForkKey" where
  "bid_fork b = \<lparr>fk_parent_hash = bid_parent_hash b, fk_parent_root = bid_parent_root b\<rparr>"

section \<open>Operations\<close>

definition best_bid :: "ForkState \<Rightarrow> Bid option" where
  "best_bid st =
     reduce (\<lambda>best bid. if bid_value bid > bid_value best then bid else best) (map snd (fs_bids st))"

definition top_bid_update :: "u64 \<Rightarrow> Bid \<Rightarrow> TopBidUpdate" where
  "top_bid_update now bid =
     \<lparr>tb_timestamp = now, tb_slot = bid_slot bid, tb_block_number = bid_block_number bid,
      tb_block_hash = bid_block_hash bid, tb_parent_hash = bid_parent_hash bid,
      tb_builder_pubkey = bid_builder_pubkey bid, tb_fee_recipient = bid_fee_recipient bid,
      tb_value = bid_value bid\<rparr>"

definition update_top_bid :: "u64 \<Rightarrow> Bid \<Rightarrow> ForkState \<Rightarrow> ForkState \<times> TopBidUpdate list" where
  "update_top_bid now bid st =
     (st\<lparr>fs_curr_bid := Some bid, fs_top_bids := fs_top_bids st + 1\<rparr>, [top_bid_update now bid])"

definition traverse_update_top_bid :: "u64 \<Rightarrow> ForkState \<Rightarrow> ForkState \<times> TopBidUpdate list" where
  "traverse_update_top_bid now st =
     (case best_bid st of
        Some b \<Rightarrow> update_top_bid now b st
      | None \<Rightarrow> (st\<lparr>fs_curr_bid := None\<rparr>, []))"

definition is_stale :: "ForkState \<Rightarrow> Bid \<Rightarrow> bool" where
  "is_stale st new_bid = (case map_of (fs_bids st) (bid_builder_pubkey new_bid) of
     Some old \<Rightarrow> version_ge (bid_version old) (bid_version new_bid)
   | None \<Rightarrow> False)"

definition accept_bid :: "u64 \<Rightarrow> Bid \<Rightarrow> ForkState \<Rightarrow> ForkState \<times> bool \<times> TopBidUpdate list" where
  "accept_bid now new_bid st0 =
     (let st = st0\<lparr>fs_bids := AList.update (bid_builder_pubkey new_bid) new_bid (fs_bids st0),
                   fs_subs := fs_subs st0 + 1\<rparr>
      in case fs_curr_bid st of
           Some served \<Rightarrow>
             if bid_value new_bid > bid_value served then
               (let (st', us) = update_top_bid now new_bid st in (st', True, us))
             else if bid_builder_pubkey new_bid = bid_builder_pubkey served then
               (let (st', us) = traverse_update_top_bid now st
                in (st', (case fs_curr_bid st' of
                            Some b \<Rightarrow> bid_block_hash b = bid_block_hash new_bid | None \<Rightarrow> False), us))
             else (st, False, [])
         | None \<Rightarrow> (let (st', us) = update_top_bid now new_bid st in (st', True, us)))"

definition fork_or_default :: "BidSorter \<Rightarrow> ForkKey \<Rightarrow> ForkState" where
  "fork_or_default s f = (case map_of (forks s) f of Some st \<Rightarrow> st | None \<Rightarrow> default_fork)"

definition process_bid :: "u64 \<Rightarrow> Bid \<Rightarrow> BidSorter \<Rightarrow> BidSorter \<times> bool \<times> TopBidUpdate list" where
  "process_bid now new_bid s =
     (let fork = bid_fork new_bid;
          st = fork_or_default s fork
      in if is_stale st new_bid then
           (s\<lparr>forks := AList.update fork st (forks s),
              local_telemetry := (local_telemetry s)
                \<lparr>tel_stale_subs := tel_stale_subs (local_telemetry s) + 1\<rparr>\<rparr>, False, [])
         else
           (let (st', is_top, us) = accept_bid now new_bid st
            in (s\<lparr>forks := AList.update fork st' (forks s)\<rparr>, is_top, us)))"

definition sort_bid ::
  "u64 \<Rightarrow> nat \<Rightarrow> Bid \<Rightarrow> BidSorter \<Rightarrow> (BidSorter \<times> bool \<times> TopBidUpdate list) option" where
  "sort_bid now elapsed bid s =
     (if bid_slot bid \<noteq> curr_bid_slot s then None
      else (let (s', is_top, us) = process_bid now bid s;
                tel = local_telemetry s'
            in Some (s'\<lparr>local_telemetry := tel\<lparr>tel_subs := tel_subs tel + 1,
                  tel_subs_process_time := tel_subs_process_time tel + elapsed\<rparr>\<rparr>, is_top, us)))"

definition demote_fork ::
  "u64 \<Rightarrow> BlsPublicKeyBytes \<Rightarrow> ForkState \<Rightarrow> ForkState \<times> TopBidUpdate list" where
  "demote_fork now demoted st =
     (case map_of (fs_bids st) demoted of
        None \<Rightarrow> (st, [])
      | Some _ \<Rightarrow>
          (let st1 = st\<lparr>fs_bids := AList.delete demoted (fs_bids st)\<rparr>
           in case fs_curr_bid st1 of
                Some served \<Rightarrow>
                  if bid_builder_pubkey served = demoted then traverse_update_top_bid now st1
                  else (st1, [])
              | None \<Rightarrow> (st1, [])))"

definition process_demotion ::
  "u64 \<Rightarrow> BlsPublicKeyBytes \<Rightarrow> BidSorter \<Rightarrow> BidSorter \<times> TopBidUpdate list" where
  "process_demotion now demoted s =
     (s\<lparr>forks := map (\<lambda>(f, st). (f, fst (demote_fork now demoted st))) (forks s)\<rparr>,
      concat (map (\<lambda>(f, st). snd (demote_fork now demoted st)) (forks s)))"

definition demote :: "u64 \<Rightarrow> BlsPublicKeyBytes \<Rightarrow> BidSorter \<Rightarrow> BidSorter \<times> TopBidUpdate list" where
  "demote now demoted s =
     (if demoted \<in> set (demotions s) then (s, [])
      else process_demotion now demoted (s\<lparr>demotions := demoted # demotions s\<rparr>))"

definition top_bid_value :: "BidSorter \<Rightarrow> ForkKey \<Rightarrow> U256 option" where
  "top_bid_value s f =
     Option.bind (map_of (forks s) f) (\<lambda>st. map_option bid_value (fs_curr_bid st))"

definition sorter_get_header :: "BidSorter \<Rightarrow> ForkKey \<Rightarrow> B256 option" where
  "sorter_get_header s f =
     Option.bind (map_of (forks s) f) (\<lambda>st. map_option bid_block_hash (fs_curr_bid st))"

record SorterReport =
  rep_bid_slot :: u64
  rep_valid_subs :: u32
  rep_accepted_subs :: u32
  rep_stale_subs :: u32

definition accepted_subs :: "BidSorter \<Rightarrow> u32" where
  "accepted_subs s = sum_list (map (\<lambda>(f, st). fs_subs st) (forks s))"

definition report :: "BidSorter \<Rightarrow> BidSorter \<times> SorterReport" where
  "report s =
     (s\<lparr>local_telemetry := default_telemetry\<rparr>,
      \<lparr>rep_bid_slot = curr_bid_slot s, rep_valid_subs = tel_subs (local_telemetry s),
       rep_accepted_subs = accepted_subs s,
       rep_stale_subs = tel_stale_subs (local_telemetry s)\<rparr>)"

definition process_slot :: "u64 \<Rightarrow> BidSorter \<Rightarrow> BidSorter" where
  "process_slot new_slot s =
     (let s1 = (if curr_bid_slot s > 0 then fst (report s) else s)
      in s1\<lparr>curr_bid_slot := new_slot, demotions := [], forks := []\<rparr>)"

section \<open>Runs of the sorter\<close>

datatype SorterOp =
    OpSort u64 nat Bid
  | OpDemote u64 BlsPublicKeyBytes
  | OpSlot u64

fun sorter_step :: "SorterOp \<Rightarrow> BidSorter \<Rightarrow> BidSorter option" where
  "sorter_step (OpSort now elapsed bid) s = map_option fst (sort_bid now elapsed bid s)"
| "sorter_step (OpDemote now k) s = Some (fst (demote now k s))"
| "sorter_step (OpSlot n) s = Some (process_slot n s)"

section \<open>Invariant\<close>

definition bids_ok :: "ForkKey \<Rightarrow> (BlsPublicKeyBytes, Bid) FxHashMap \<Rightarrow> bool" where
  "bids_ok f m \<longleftrightarrow> distinct (map fst m) \<and>
     (\<forall>(k, b) \<in> set m. bid_builder_pubkey b = k \<and> bid_fork b = f)"

definition fork_ok :: "ForkKey \<Rightarrow> ForkState \<Rightarrow> bool" where
  "fork_ok f st \<longleftrightarrow> bids_ok f (fs_bids st) \<and>
     (case fs_curr_bid st of
        None \<Rightarrow> fs_bids st = []
      | Some c \<Rightarrow> map_of (fs_bids st) (bid_builder_pubkey c) = Some c \<and>
                  (\<forall>b \<in> snd ` set (fs_bids st). bid_value b \<le> bid_value c))"

definition fork_slot_ok :: "u64 \<Rightarrow> ForkState \<Rightarrow> bool" where
  "fork_slot_ok n st \<longleftrightarrow> (\<forall>b \<in> snd ` set (fs_bids st). bid_slot b = n)"

definition sorter_ok :: "BidSorter \<Rightarrow> bool" where
  "sorter_ok s \<longleftrightarrow> distinct (map fst (forks s)) \<and>
     (\<forall>p \<in> set (forks s). fork_ok (fst p) (snd p) \<and> fork_slot_ok (curr_bid_slot s) (snd p))"

section \<open>Abstract auction\<close>

text \<open>The contract of the sorter without forks, caching or telemetry: the book is the last accepted
  bid of every builder on every fork.\<close>

type_synonym book = "ForkKey \<Rightarrow> BlsPublicKeyBytes \<Rightarrow> Bid option"

definition abs_book :: "BidSorter \<Rightarrow> book" where
  "abs_book s f k = Option.bind (map_of (forks s) f) (\<lambda>st. map_of (fs_bids st) k)"

definition book_sort :: "Bid \<Rightarrow> book \<Rightarrow> book" where
  "book_sort b m =
     (case m (bid_fork b) (bid_builder_pubkey b) of
        Some old \<Rightarrow> if version_ge (bid_version old) (bid_version b) then m
                    else m(bid_fork b := (m (bid_fork b))(bid_builder_pubkey b := Some b))
      | None \<Rightarrow> m(bid_fork b := (m (bid_fork b))(bid_builder_pubkey b := Some b)))"

definition served :: "BidSorter \<Rightarrow> ForkKey \<Rightarrow> Bid option" where
  "served s f = Option.bind (map_of (forks s) f) fs_curr_bid"

definition telemetry_ok :: "BidSorter \<Rightarrow> bool" where
  "telemetry_ok s \<longleftrightarrow> curr_bid_slot s > 0 \<and>
     tel_subs (local_telemetry s) = tel_stale_subs (local_telemetry s) + accepted_subs s"

definition positive_slot :: "SorterOp \<Rightarrow> bool" where
  "positive_slot op = (case op of OpSlot n \<Rightarrow> n > 0 | _ \<Rightarrow> True)"

definition book_demote :: "BlsPublicKeyBytes \<Rightarrow> book \<Rightarrow> book" where
  "book_demote k m = (\<lambda>f. (m f)(k := None))"

text \<open>A bid of builder \<open>k\<close> worth \<open>v\<close> with sequence number \<open>n\<close>, on one fixed fork of slot 7.\<close>

definition sample_bid :: "BlsPublicKeyBytes \<Rightarrow> U256 \<Rightarrow> u32 \<Rightarrow> Bid" where
  "sample_bid k v n =
     \<lparr>bid_version = \<lparr>on_receive_ns = 0, sequence = Some n\<rparr>, bid_value = v, bid_slot = 7,
      bid_block_hash = 100, bid_builder_pubkey = k, bid_block_number = 1, bid_parent_hash = 5,
      bid_parent_root = 6, bid_fee_recipient = 0\<rparr>"

section \<open>Lemmas on one fork\<close>

lemma best_bid_None: "best_bid st = None \<longleftrightarrow> fs_bids st = []"
  by (simp add: best_bid_def)

lemma best_bid_mem: "best_bid st = Some b \<Longrightarrow> b \<in> snd ` set (fs_bids st)"
  unfolding best_bid_def by (drule reduce_max_mem) simp

lemma best_bid_greatest:
  "best_bid st = Some b \<Longrightarrow> c \<in> snd ` set (fs_bids st) \<Longrightarrow> bid_value c \<le> bid_value b"
  unfolding best_bid_def by (erule reduce_max_greatest) simp

lemma fork_ok_default [simp]: "fork_ok f default_fork" "fork_slot_ok n default_fork"
  by (simp_all add: fork_ok_def fork_slot_ok_def bids_ok_def default_fork_def)

lemma bids_ok_update:
  "bids_ok f m \<Longrightarrow> bid_builder_pubkey b = k \<Longrightarrow> bid_fork b = f \<Longrightarrow> bids_ok f (AList.update k b m)"
  by (auto simp: bids_ok_def distinct_update dest!: mem_updateD)

lemma bids_ok_delete: "bids_ok f m \<Longrightarrow> bids_ok f (AList.delete k m)"
  by (auto simp: bids_ok_def distinct_delete mem_delete)

lemma bids_ok_mem: "bids_ok f m \<Longrightarrow> b \<in> snd ` set m \<Longrightarrow> map_of m (bid_builder_pubkey b) = Some b"
  by (force simp: bids_ok_def)

lemma update_top_bid_ok:
  "bids_ok f (fs_bids st) \<Longrightarrow> b \<in> snd ` set (fs_bids st) \<Longrightarrow>
   (\<And>c. c \<in> snd ` set (fs_bids st) \<Longrightarrow> bid_value c \<le> bid_value b) \<Longrightarrow>
   fork_ok f (fst (update_top_bid now b st))"
  by (simp add: fork_ok_def update_top_bid_def bids_ok_mem)

lemma traverse_update_top_bid_ok:
  assumes "bids_ok f (fs_bids st)"
  shows "fork_ok f (fst (traverse_update_top_bid now st))"
proof (cases "best_bid st")
  case None
  then have "fs_bids st = []" by (simp add: best_bid_None)
  then show ?thesis using None assms by (simp add: traverse_update_top_bid_def fork_ok_def)
next
  case (Some b)
  then have "fork_ok f (fst (update_top_bid now b st))"
    by (intro update_top_bid_ok [OF assms best_bid_mem] best_bid_greatest)
  then show ?thesis using Some by (simp add: traverse_update_top_bid_def)
qed

lemma traverse_update_top_bid_bids [simp]:
  "fs_bids (fst (traverse_update_top_bid now st)) = fs_bids st"
  by (auto simp: traverse_update_top_bid_def update_top_bid_def split: option.splits)

lemma update_top_bid_bids [simp]: "fs_bids (fst (update_top_bid now b st)) = fs_bids st"
  by (simp add: update_top_bid_def)

lemma accept_bid_bids:
  "fs_bids (fst (accept_bid now b st)) = AList.update (bid_builder_pubkey b) b (fs_bids st)"
  using traverse_update_top_bid_bids [of now "st\<lparr>fs_bids := AList.update (bid_builder_pubkey b) b
      (fs_bids st), fs_subs := fs_subs st + 1\<rparr>"]
  by (auto simp: accept_bid_def update_top_bid_def Let_def split: option.splits prod.splits
      simp del: traverse_update_top_bid_bids)

lemma accept_bid_ok:
  assumes ok: "fork_ok f st" and f: "bid_fork b = f"
  shows "fork_ok f (fst (accept_bid now b st))"
proof -
  let ?st = "st\<lparr>fs_bids := AList.update (bid_builder_pubkey b) b (fs_bids st), fs_subs := fs_subs st + 1\<rparr>"
  have bids: "bids_ok f (fs_bids ?st)"
    using ok f by (simp add: fork_ok_def bids_ok_update)
  have mem: "b \<in> snd ` set (fs_bids ?st)"
    using map_of_mem_values [of "fs_bids ?st" "bid_builder_pubkey b" b] by (simp add: update_conv')
  have sub: "c = b \<or> c \<in> snd ` set (fs_bids st)" if "c \<in> snd ` set (fs_bids ?st)" for c
    using that by (auto dest!: mem_updateD)
  show ?thesis
  proof (cases "fs_curr_bid st")
    case None
    then have "fs_bids st = []" using ok by (simp add: fork_ok_def)
    then have "fork_ok f (fst (update_top_bid now b ?st))"
      by (intro update_top_bid_ok [OF bids mem]) (use sub in auto)
    then show ?thesis using None by (simp add: accept_bid_def update_top_bid_def)
  next
    case (Some c)
    have c: "map_of (fs_bids st) (bid_builder_pubkey c) = Some c"
      and max: "\<And>d. d \<in> snd ` set (fs_bids st) \<Longrightarrow> bid_value d \<le> bid_value c"
      using ok Some by (auto simp: fork_ok_def)
    have up: "fork_ok f (fst (update_top_bid now b ?st))" if "bid_value c < bid_value b"
      using that by (intro update_top_bid_ok [OF bids mem]) (use sub max in force)
    have keep: "fork_ok f ?st"
      if "bid_value b \<le> bid_value c" "bid_builder_pubkey b \<noteq> bid_builder_pubkey c"
      using that bids Some c sub max by (auto simp: fork_ok_def update_conv')
    have cancel: "fork_ok f (fst (traverse_update_top_bid now ?st))"
      by (rule traverse_update_top_bid_ok [OF bids])
    show ?thesis using Some up keep cancel
      by (auto simp: accept_bid_def Let_def not_less split: prod.splits)
  qed
qed

lemma demote_fork_bids:
  "fs_bids (fst (demote_fork now k st)) = AList.delete k (fs_bids st)"
proof (cases "map_of (fs_bids st) k")
  case None
  then have "AList.delete k (fs_bids st) = fs_bids st"
    by (force simp: AList.delete_eq filter_id_conv map_of_eq_None_iff)
  then show ?thesis using None by (simp add: demote_fork_def)
next
  case (Some b)
  then show ?thesis
    using traverse_update_top_bid_bids [of now "st\<lparr>fs_bids := AList.delete k (fs_bids st)\<rparr>"]
    by (auto simp: demote_fork_def Let_def simp del: traverse_update_top_bid_bids
        split: option.splits)
qed

lemma demote_fork_ok:
  assumes "fork_ok f st"
  shows "fork_ok f (fst (demote_fork now k st))"
proof -
  have bids: "bids_ok f (AList.delete k (fs_bids st))"
    using assms by (simp add: fork_ok_def bids_ok_delete)
  have trav: "fork_ok f (fst (traverse_update_top_bid now (st\<lparr>fs_bids := AList.delete k (fs_bids st)\<rparr>)))"
    using bids by (intro traverse_update_top_bid_ok) simp
  show ?thesis
  proof (cases "fs_curr_bid st")
    case None
    then show ?thesis using assms by (simp add: demote_fork_def fork_ok_def bids_ok_def)
  next
    case (Some c)
    then show ?thesis using assms bids trav
      by (auto simp: demote_fork_def fork_ok_def Let_def map_of_delete_other mem_delete
          split: option.splits)
  qed
qed

section \<open>The invariant is kept by every operation\<close>

lemma sorter_ok_new: "sorter_ok BidSorter_new"
  by (simp add: sorter_ok_def BidSorter_new_def)

lemma sorter_ok_lookup:
  assumes "sorter_ok s" "map_of (forks s) f = Some st"
  shows "fork_ok f st" "fork_slot_ok (curr_bid_slot s) st"
proof -
  have "(f, st) \<in> set (forks s)" using assms(2) by (rule map_of_SomeD)
  then show "fork_ok f st" "fork_slot_ok (curr_bid_slot s) st"
    using assms(1) unfolding sorter_ok_def by (metis fst_conv snd_conv)+
qed

lemma sorter_ok_fork_or_default:
  assumes "sorter_ok s"
  shows "fork_ok f (fork_or_default s f)" "fork_slot_ok (curr_bid_slot s) (fork_or_default s f)"
  using sorter_ok_lookup [OF assms, of f]
  by (cases "map_of (forks s) f"; simp add: fork_or_default_def)+

lemma sorter_ok_update_fork:
  assumes "sorter_ok s" "fork_ok f st" "fork_slot_ok (curr_bid_slot s) st"
  shows "sorter_ok (s\<lparr>forks := AList.update f st (forks s)\<rparr>)"
proof -
  have "fork_ok (fst p) (snd p) \<and> fork_slot_ok (curr_bid_slot s) (snd p)"
    if "p \<in> set (AList.update f st (forks s))" for p
    using mem_updateD [OF that] assms by (elim disjE) (simp_all add: sorter_ok_def)
  then show ?thesis using assms(1) by (simp add: sorter_ok_def distinct_update)
qed

lemma sorter_ok_telemetry [simp]: "sorter_ok (s\<lparr>local_telemetry := t\<rparr>) = sorter_ok s"
  by (simp add: sorter_ok_def)

lemma fork_slot_ok_accept:
  assumes "fork_slot_ok n st" "bid_slot b = n"
  shows "fork_slot_ok n (fst (accept_bid now b st))"
  unfolding fork_slot_ok_def accept_bid_bids
proof
  fix c
  assume "c \<in> snd ` set (AList.update (bid_builder_pubkey b) b (fs_bids st))"
  then obtain p where p: "p \<in> set (AList.update (bid_builder_pubkey b) b (fs_bids st))" "c = snd p"
    by blast
  show "bid_slot c = n"
    using mem_updateD [OF p(1)] p(2) assms by (elim disjE) (simp_all add: fork_slot_ok_def)
qed

lemma process_bid_ok:
  assumes ok: "sorter_ok s" and slot: "bid_slot b = curr_bid_slot s"
  shows "sorter_ok (fst (process_bid now b s))"
proof -
  let ?st = "fork_or_default s (bid_fork b)"
  note st = sorter_ok_fork_or_default [OF ok, of "bid_fork b"]
  have "sorter_ok (s\<lparr>forks := AList.update (bid_fork b) ?st (forks s)\<rparr>)"
    by (rule sorter_ok_update_fork [OF ok st])
  moreover have "sorter_ok (s\<lparr>forks := AList.update (bid_fork b) (fst (accept_bid now b ?st)) (forks s)\<rparr>)"
    by (rule sorter_ok_update_fork [OF ok accept_bid_ok [OF st(1) refl] fork_slot_ok_accept [OF st(2) slot]])
  ultimately show ?thesis
    using sorter_ok_telemetry [where s = "s\<lparr>forks := AList.update (bid_fork b) ?st (forks s)\<rparr>"]
    by (simp add: process_bid_def Let_def case_prod_beta)
qed

lemma process_bid_frame [simp]:
  "curr_bid_slot (fst (process_bid now b s)) = curr_bid_slot s"
  "demotions (fst (process_bid now b s)) = demotions s"
  "tel_subs (local_telemetry (fst (process_bid now b s))) = tel_subs (local_telemetry s)"
  by (simp_all add: process_bid_def Let_def split: prod.split)

lemma sort_bid_ok [helix_inv]:
  "sorter_ok s \<Longrightarrow> sort_bid now el b s = Some (s', t, us) \<Longrightarrow> sorter_ok s'"
  using process_bid_ok [of s b now]
  by (auto simp: sort_bid_def Let_def split: if_splits prod.splits)

lemma fork_slot_ok_demote: "fork_slot_ok n st \<Longrightarrow> fork_slot_ok n (fst (demote_fork now k st))"
  by (simp add: fork_slot_ok_def demote_fork_bids mem_delete)

lemma process_demotion_ok: "sorter_ok s \<Longrightarrow> sorter_ok (fst (process_demotion now k s))"
  by (simp add: process_demotion_def sorter_ok_def case_prod_beta' demote_fork_ok
      fork_slot_ok_demote comp_def)

lemma demote_ok [helix_inv]: "sorter_ok s \<Longrightarrow> sorter_ok (fst (demote now k s))"
  using process_demotion_ok [of "s\<lparr>demotions := k # demotions s\<rparr>" now k]
  by (simp add: demote_def sorter_ok_def)

lemma process_slot_ok [helix_inv]: "sorter_ok (process_slot n s)"
  by (simp add: process_slot_def sorter_ok_def Let_def)

interpretation sorter: invariant_machine sorter_step "\<lambda>_. True" sorter_ok
proof unfold_locales
  fix s e s'
  assume "sorter_ok s" "sorter_step e s = Some s'"
  then show "sorter_ok s'" by (cases e) (auto intro: helix_inv)
qed

section \<open>Refinement of the abstract book\<close>

lemma abs_book_fork_or_default: "abs_book s f k = map_of (fs_bids (fork_or_default s f)) k"
  by (auto simp: abs_book_def fork_or_default_def default_fork_def split: option.splits)

lemma is_stale_book:
  "is_stale (fork_or_default s (bid_fork b)) b \<longleftrightarrow>
     (case abs_book s (bid_fork b) (bid_builder_pubkey b) of
        Some old \<Rightarrow> version_ge (bid_version old) (bid_version b) | None \<Rightarrow> False)"
  by (simp add: is_stale_def abs_book_fork_or_default)

lemma abs_book_update_fork:
  "abs_book (s\<lparr>forks := AList.update f st (forks s)\<rparr>) = (abs_book s)(f := map_of (fs_bids st))"
  by (rule ext) (auto simp: abs_book_def map_of_update_other)

lemma abs_book_telemetry [simp]: "abs_book (s\<lparr>local_telemetry := t\<rparr>) = abs_book s"
  by (intro ext) (simp add: abs_book_def)

lemma abs_book_process_bid: "abs_book (fst (process_bid now b s)) = book_sort b (abs_book s)"
proof -
  let ?f = "bid_fork b" and ?st = "fork_or_default s (bid_fork b)"
  have same: "(abs_book s)(?f := map_of (fs_bids ?st)) = abs_book s"
    by (intro ext) (simp add: abs_book_fork_or_default)
  have acc: "(abs_book s)(?f := map_of (fs_bids (fst (accept_bid now b ?st)))) =
      (abs_book s)(?f := (abs_book s ?f)(bid_builder_pubkey b := Some b))"
    by (intro ext) (simp add: accept_bid_bids update_conv' abs_book_fork_or_default)
  show ?thesis
  proof (cases "is_stale ?st b")
    case True
    then have "abs_book (fst (process_bid now b s)) = abs_book s"
      using abs_book_telemetry [where s = "s\<lparr>forks := AList.update ?f ?st (forks s)\<rparr>"]
        abs_book_update_fork [of ?f ?st s] same
      by (simp add: process_bid_def Let_def)
    then show ?thesis using True by (auto simp: is_stale_book book_sort_def split: option.splits)
  next
    case False
    then have "abs_book (fst (process_bid now b s)) =
        (abs_book s)(?f := (abs_book s ?f)(bid_builder_pubkey b := Some b))"
      using abs_book_update_fork [of ?f "fst (accept_bid now b ?st)" s] acc
      by (auto simp: process_bid_def Let_def split: prod.splits)
    then show ?thesis using False by (auto simp: is_stale_book book_sort_def split: option.splits)
  qed
qed

lemma abs_book_sort:
  "sort_bid now el b s = Some (s', t, us) \<Longrightarrow> abs_book s' = book_sort b (abs_book s)"
  using abs_book_process_bid [of now b s]
  by (auto simp: sort_bid_def Let_def split: if_splits prod.splits)

lemma map_of_map_values: "map_of (map (\<lambda>(f, st). (f, g st)) m) f = map_option g (map_of m f)"
  by (induction m) auto

lemma abs_book_demote:
  "k \<notin> set (demotions s) \<Longrightarrow> abs_book (fst (demote now k s)) = book_demote k (abs_book s)"
  by (intro ext) (auto simp: abs_book_def book_demote_def demote_def process_demotion_def
      map_of_map_values demote_fork_bids map_of_delete_other split: option.splits bind_split)

lemma abs_book_slot: "abs_book (process_slot n s) = (\<lambda>f k. None)"
  by (intro ext) (simp add: abs_book_def process_slot_def Let_def)

section \<open>The interface the auctioneer relies on\<close>

text \<open>A served bid is in the book, no held bid of its fork is worth more, and a fork with a held bid
  serves one.  The value served is then the maximum of the book, whichever maximal bid it is.\<close>

locale auction_book =
  fixes inv :: "'s \<Rightarrow> bool" and bk :: "'s \<Rightarrow> book" and srv :: "'s \<Rightarrow> ForkKey \<Rightarrow> Bid option"
  assumes served_mem: "inv s \<Longrightarrow> srv s f = Some b \<Longrightarrow> bk s f (bid_builder_pubkey b) = Some b"
    and served_max: "inv s \<Longrightarrow> srv s f = Some b \<Longrightarrow> bk s f k = Some c \<Longrightarrow> bid_value c \<le> bid_value b"
    and served_some: "inv s \<Longrightarrow> bk s f k = Some c \<Longrightarrow> srv s f \<noteq> None"
begin

lemma served_None_iff: "inv s \<Longrightarrow> srv s f = None \<longleftrightarrow> (\<forall>k. bk s f k = None)"
  using served_some served_mem by (metis not_None_eq)

lemma served_value_greatest:
  "inv s \<Longrightarrow> srv s f = Some b \<Longrightarrow>
   bid_value b = Max (bid_value ` ran (bk s f))"
  by (intro Max_eqI [symmetric]) (auto simp: ran_def dest: served_max intro!: imageI served_mem
      finite_subset [OF _ finite])

lemma served_value_order_free:
  "inv s \<Longrightarrow> inv s' \<Longrightarrow> bk s f = bk s' f \<Longrightarrow>
   map_option bid_value (srv s f) = map_option bid_value (srv s' f)"
  using served_None_iff [of s f] served_None_iff [of s' f]
    served_value_greatest [of s f] served_value_greatest [of s' f]
  by (cases "srv s f"; cases "srv s' f") auto

end

interpretation book: auction_book sorter_ok abs_book served
proof unfold_locales
  fix s f b k c
  assume ok: "sorter_ok s"
  show "abs_book s f (bid_builder_pubkey b) = Some b" if "served s f = Some b"
    using ok that by (auto simp: served_def abs_book_def fork_ok_def bind_eq_Some_conv
        dest: sorter_ok_lookup)
  show "bid_value c \<le> bid_value b" if held: "served s f = Some b" "abs_book s f k = Some c"
  proof -
    obtain st where st: "map_of (forks s) f = Some st" "fs_curr_bid st = Some b"
        "map_of (fs_bids st) k = Some c"
      using held by (auto simp: served_def abs_book_def bind_eq_Some_conv)
    then show ?thesis
      using sorter_ok_lookup [OF ok st(1)] map_of_mem_values [OF st(3)] by (auto simp: fork_ok_def)
  qed
  show "served s f \<noteq> None" if "abs_book s f k = Some c"
    using ok that by (fastforce simp: served_def abs_book_def fork_ok_def bind_eq_Some_conv
        dest: sorter_ok_lookup split: option.splits)
qed

lemma sorter_get_header_served: "sorter_get_header s f = map_option bid_block_hash (served s f)"
  by (simp add: sorter_get_header_def served_def map_option_bind comp_def)

lemma top_bid_value_served: "top_bid_value s f = map_option bid_value (served s f)"
  by (simp add: top_bid_value_def served_def map_option_bind comp_def)

section \<open>Telemetry\<close>

lemma fs_subs_update_top_bid [simp]: "fs_subs (fst (update_top_bid now b st)) = fs_subs st"
  by (simp add: update_top_bid_def)

lemma fs_subs_traverse [simp]: "fs_subs (fst (traverse_update_top_bid now st)) = fs_subs st"
  by (auto simp: traverse_update_top_bid_def split: option.splits)

lemma fs_subs_accept: "fs_subs (fst (accept_bid now b st)) = fs_subs st + 1"
  using fs_subs_traverse [of now "st\<lparr>fs_bids := AList.update (bid_builder_pubkey b) b
      (fs_bids st), fs_subs := fs_subs st + 1\<rparr>"]
  by (auto simp: accept_bid_def update_top_bid_def Let_def split: option.splits prod.splits
      simp del: fs_subs_traverse)

lemma fs_subs_demote [simp]: "fs_subs (fst (demote_fork now k st)) = fs_subs st"
  using fs_subs_traverse [of now "st\<lparr>fs_bids := AList.delete k (fs_bids st)\<rparr>"]
  by (auto simp: demote_fork_def Let_def simp del: fs_subs_traverse split: option.splits)

lemma accepted_subs_process_bid:
  "accepted_subs (fst (process_bid now b s)) + tel_stale_subs (local_telemetry (fst (process_bid now b s)))
   = accepted_subs s + tel_stale_subs (local_telemetry s) + 1"
proof -
  let ?st = "fork_or_default s (bid_fork b)"
  have old: "(case map_of (forks s) (bid_fork b) of Some w \<Rightarrow> fs_subs w | None \<Rightarrow> 0) = fs_subs ?st"
    by (auto simp: fork_or_default_def default_fork_def split: option.splits)
  show ?thesis
  proof (cases "is_stale ?st b")
    case True
    then show ?thesis
      by (simp add: process_bid_def accepted_subs_def Let_def sum_list_update [of fs_subs] old)
  next
    case False
    then show ?thesis using fs_subs_accept [of now b ?st]
      by (auto simp: process_bid_def accepted_subs_def Let_def sum_list_update [of fs_subs] old
          split: prod.splits)
  qed
qed

lemma accepted_subs_demote: "accepted_subs (fst (demote now k s)) = accepted_subs s"
proof -
  have "map (\<lambda>(f, st). fs_subs st) (map (\<lambda>(f, st). (f, fst (demote_fork now k st))) m) =
      map (\<lambda>(f, st). fs_subs st) m" for m :: "(ForkKey, ForkState) FxHashMap"
    by (induction m) auto
  then show ?thesis by (simp add: demote_def process_demotion_def accepted_subs_def del: map_map)
qed

lemma demote_frame [simp]:
  "curr_bid_slot (fst (demote now k s)) = curr_bid_slot s"
  "local_telemetry (fst (demote now k s)) = local_telemetry s"
  by (simp_all add: demote_def process_demotion_def)

lemma sort_bid_telemetry:
  "telemetry_ok s \<Longrightarrow> sort_bid now el b s = Some (s', t, us) \<Longrightarrow> telemetry_ok s'"
  using accepted_subs_process_bid [of now b s] process_bid_frame(1,3) [of now b s]
  by (auto simp: sort_bid_def telemetry_ok_def accepted_subs_def Let_def algebra_simps
      simp del: process_bid_frame split: if_splits prod.splits)

lemma demote_telemetry: "telemetry_ok s \<Longrightarrow> telemetry_ok (fst (demote now k s))"
  by (simp add: telemetry_ok_def accepted_subs_demote)

lemma process_slot_telemetry: "telemetry_ok s \<Longrightarrow> n > 0 \<Longrightarrow> telemetry_ok (process_slot n s)"
  by (simp add: telemetry_ok_def process_slot_def report_def default_telemetry_def
      accepted_subs_def Let_def)

interpretation telemetry: invariant_machine sorter_step positive_slot telemetry_ok
proof unfold_locales
  fix s e s'
  assume "telemetry_ok s" "positive_slot e" "sorter_step e s = Some s'"
  then show "telemetry_ok s'"
    by (cases e) (auto simp: positive_slot_def
        intro: sort_bid_telemetry demote_telemetry process_slot_telemetry)
qed

section \<open>What sorting one bid does\<close>

lemmas sorter_eval = sort_bid_def process_bid_def accept_bid_def is_stale_def fork_or_default_def
  default_fork_def update_top_bid_def traverse_update_top_bid_def best_bid_def bid_fork_def
  version_ge_def version_cmp_def word_cmp_def Let_def

lemma served_update_fork:
  "served (s\<lparr>forks := AList.update f st (forks s)\<rparr>) = (served s)(f := fs_curr_bid st)"
  by (rule ext) (simp add: served_def map_of_update_other)

lemma served_telemetry [simp]: "served (s\<lparr>local_telemetry := t\<rparr>) = served s"
  by (rule ext) (simp add: served_def)

lemma served_fork_or_default: "served s f = fs_curr_bid (fork_or_default s f)"
  by (auto simp: served_def fork_or_default_def default_fork_def split: option.splits)

lemma served_process_bid:
  "served (fst (process_bid now b s)) =
     (if is_stale (fork_or_default s (bid_fork b)) b then served s
      else (served s)(bid_fork b := fs_curr_bid (fst (accept_bid now b (fork_or_default s (bid_fork b))))))"
proof -
  let ?st = "fork_or_default s (bid_fork b)"
  have "(served s)(bid_fork b := fs_curr_bid ?st) = served s"
    by (rule ext) (simp add: served_fork_or_default)
  then show ?thesis
    using served_telemetry [where s = "s\<lparr>forks := AList.update (bid_fork b) ?st (forks s)\<rparr>"]
      served_update_fork [of "bid_fork b" _ s]
    by (auto simp: process_bid_def Let_def split: prod.splits)
qed

lemma accept_bid_top:
  "fst (snd (accept_bid now b st)) \<Longrightarrow>
   \<exists>c. fs_curr_bid (fst (accept_bid now b st)) = Some c \<and> bid_block_hash c = bid_block_hash b"
  by (auto simp: accept_bid_def update_top_bid_def Let_def split: option.splits prod.splits if_splits)

lemma accept_bid_higher:
  "(case fs_curr_bid st of Some c \<Rightarrow> bid_value c < bid_value b | None \<Rightarrow> True) \<Longrightarrow>
   fst (snd (accept_bid now b st)) \<and> fs_curr_bid (fst (accept_bid now b st)) = Some b"
  by (auto simp: accept_bid_def update_top_bid_def Let_def split: option.splits prod.splits)

lemma accept_bid_updates:
  "snd (snd (accept_bid now b st)) = [] \<or>
   (\<exists>c. fs_curr_bid (fst (accept_bid now b st)) = Some c \<and>
        snd (snd (accept_bid now b st)) = [top_bid_update now c])"
  by (auto simp: accept_bid_def update_top_bid_def traverse_update_top_bid_def Let_def
      split: option.splits prod.splits if_splits)

lemma sort_bid_result:
  assumes "sort_bid now el b s = Some (s', t, us)"
  shows "served s' = served (fst (process_bid now b s))"
    and "(t, us) = snd (process_bid now b s)"
  using assms by (auto simp: sort_bid_def Let_def split: if_splits prod.splits)

lemma process_bid_fresh:
  "\<not> is_stale (fork_or_default s (bid_fork b)) b \<Longrightarrow>
   snd (process_bid now b s) = snd (accept_bid now b (fork_or_default s (bid_fork b)))"
  by (auto simp: process_bid_def Let_def split: prod.splits)

lemma process_bid_stale:
  "is_stale (fork_or_default s (bid_fork b)) b \<Longrightarrow> snd (process_bid now b s) = (False, [])"
  by (simp add: process_bid_def Let_def)

section \<open>Properties\<close>

text \<open>C4.  After any sequence of sorted bids, demotions and slot changes that does not panic, the value
  the sorter serves for a fork is the maximum over the bids it holds for that fork, there is none
  exactly when it holds none, and the block hash it serves belongs to a held bid of that value.\<close>

theorem sorter_serves_maximum:
  assumes "run sorter_step ops BidSorter_new = Some s"
  shows "top_bid_value s f =
      (if \<forall>k. abs_book s f k = None then None else Some (Max (bid_value ` ran (abs_book s f)))) \<and>
    (\<forall>h. sorter_get_header s f = Some h \<longrightarrow>
      (\<exists>b. abs_book s f (bid_builder_pubkey b) = Some b \<and> bid_block_hash b = h \<and>
          top_bid_value s f = Some (bid_value b)))"
proof -
  have ok: "sorter_ok s" using sorter.run_inv [OF sorter_ok_new _ assms] by simp
  have "top_bid_value s f =
      (if \<forall>k. abs_book s f k = None then None else Some (Max (bid_value ` ran (abs_book s f))))"
    using book.served_None_iff [OF ok, of f] book.served_value_greatest [OF ok, of f]
    by (cases "served s f") (auto simp: top_bid_value_served)
  moreover have "\<exists>b. abs_book s f (bid_builder_pubkey b) = Some b \<and> bid_block_hash b = h \<and>
      top_bid_value s f = Some (bid_value b)" if "sorter_get_header s f = Some h" for h
    using that book.served_mem [OF ok] by (auto simp: sorter_get_header_served top_bid_value_served)
  ultimately show ?thesis by blast
qed

theorem sorter_serves_maximum_witness:
  "\<exists>s. run sorter_step [OpSlot 7, OpSort 0 0 (sample_bid 1 10 1), OpSort 0 0 (sample_bid 2 20 1),
      OpSort 0 0 (sample_bid 2 5 2)] BidSorter_new = Some s \<and>
     top_bid_value s \<lparr>fk_parent_hash = 5, fk_parent_root = 6\<rparr> = Some 10 \<and>
     (\<exists>b. abs_book s \<lparr>fk_parent_hash = 5, fk_parent_root = 6\<rparr> (bid_builder_pubkey b) = Some b \<and>
          bid_block_hash b = 100)"
proof -
  let ?ops = "[OpSlot 7, OpSort 0 0 (sample_bid 1 10 1), OpSort 0 0 (sample_bid 2 20 1),
      OpSort 0 0 (sample_bid 2 5 2)]"
  let ?f = "\<lparr>fk_parent_hash = 5, fk_parent_root = 6\<rparr>"
  obtain s where s: "run sorter_step ?ops BidSorter_new = Some s"
      "sorter_get_header s ?f = Some 100" "top_bid_value s ?f = Some 10"
    by (simp add: sorter_eval sample_bid_def BidSorter_new_def process_slot_def
        sorter_get_header_def top_bid_value_def)
  then show ?thesis using sorter_serves_maximum [OF s(1), of ?f] by blast
qed

text \<open>C12.  The sorter implements the abstract auction book: sorting replaces a builder's bid on its fork
  exactly when the new version is strictly newer, the first demotion of a builder in a slot removes
  its bids from every fork and later ones change nothing, and a new slot empties the book.\<close>

theorem sorter_refines_book:
  "(sort_bid now el b s = Some (s', t, us) \<longrightarrow> abs_book s' = book_sort b (abs_book s)) \<and>
   abs_book (fst (demote now k s)) =
     (if k \<in> set (demotions s) then abs_book s else book_demote k (abs_book s)) \<and>
   abs_book (process_slot n s) = (\<lambda>f k. None)"
proof (cases "k \<in> set (demotions s)")
  case True
  then show ?thesis by (simp add: abs_book_sort abs_book_slot demote_def)
next
  case False
  then show ?thesis by (simp add: abs_book_sort abs_book_demote abs_book_slot)
qed

theorem sorter_refines_book_witness:
  "\<exists>s' t us. sort_bid 0 0 (sample_bid 1 10 1) (process_slot 7 BidSorter_new) = Some (s', t, us) \<and>
     abs_book s' = book_sort (sample_bid 1 10 1) (abs_book (process_slot 7 BidSorter_new))"
proof -
  obtain s' t us where s: "sort_bid 0 0 (sample_bid 1 10 1) (process_slot 7 BidSorter_new) = Some (s', t, us)"
    by (simp add: sorter_eval sample_bid_def BidSorter_new_def process_slot_def)
  then show ?thesis using sorter_refines_book [of 0 0 "sample_bid 1 10 1" _ s' t us] by blast
qed



text \<open>C14.  The counters of a slot add up: the submissions sorted are the stale ones plus the accepted
  ones of all forks, in 32-bit arithmetic, through any run that starts from a slot change and only
  changes to positive slots.\<close>

theorem sorter_telemetry_adds_up:
  assumes "n > 0" "\<forall>op \<in> set ops. positive_slot op"
    and "run sorter_step ops (process_slot n BidSorter_new) = Some s"
  shows "tel_subs (local_telemetry s) = tel_stale_subs (local_telemetry s) + accepted_subs s"
proof -
  have "telemetry_ok (process_slot n BidSorter_new)"
    using assms(1) by (simp add: telemetry_ok_def process_slot_def BidSorter_new_def accepted_subs_def
        default_telemetry_def)
  from telemetry.run_inv [OF this assms(2,3)] show ?thesis by (simp add: telemetry_ok_def)
qed

theorem sorter_telemetry_adds_up_witness:
  "\<exists>s. run sorter_step [OpSort 0 3 (sample_bid 1 10 1), OpSort 0 4 (sample_bid 1 11 1)]
        (process_slot 7 BidSorter_new) = Some s \<and> tel_subs (local_telemetry s) = 2 \<and>
     tel_subs (local_telemetry s) = tel_stale_subs (local_telemetry s) + accepted_subs s"
proof -
  let ?ops = "[OpSort 0 3 (sample_bid 1 10 1), OpSort 0 4 (sample_bid 1 11 1)]"
  obtain s where s: "run sorter_step ?ops (process_slot 7 BidSorter_new) = Some s"
      "tel_subs (local_telemetry s) = 2"
    by (simp add: sorter_eval sample_bid_def BidSorter_new_def process_slot_def default_telemetry_def)
  show ?thesis using sorter_telemetry_adds_up [of 7 ?ops s] s by (simp add: positive_slot_def)
qed

text \<open>C15.  Only the first demotion of a builder in a slot acts.  A bid the builder gets sorted after
  its demotion is held, and a second demotion of the builder in that slot leaves the book as it is,
  that bid included.\<close>

theorem second_demotion_keeps_bid:
  assumes "k \<notin> set (demotions s)" "bid_builder_pubkey b = k"
    and "sort_bid now el b (fst (demote now0 k s)) = Some (s', t, us)"
  shows "abs_book s' (bid_fork b) k = Some b \<and> demote now' k s' = (s', [])"
proof
  show "abs_book s' (bid_fork b) k = Some b"
    using assms abs_book_sort [OF assms(3)] by (simp add: abs_book_demote book_sort_def book_demote_def)
  have "demotions s' = demotions (fst (demote now0 k s))"
    using assms(3) process_bid_frame(2) [of now b "fst (demote now0 k s)"]
    by (auto simp: sort_bid_def Let_def simp del: process_bid_frame split: if_splits prod.splits)
  then have "k \<in> set (demotions s')" using assms(1) by (simp add: demote_def process_demotion_def)
  then show "demote now' k s' = (s', [])" by (simp add: demote_def)
qed

theorem second_demotion_keeps_bid_witness:
  "\<exists>s' t us. sort_bid 0 0 (sample_bid 1 10 1) (fst (demote 0 1 (process_slot 7 BidSorter_new))) = Some (s', t, us) \<and>
     top_bid_value s' \<lparr>fk_parent_hash = 5, fk_parent_root = 6\<rparr> = Some 10 \<and> demote 9 1 s' = (s', [])"
proof -
  obtain s' t us where s: "sort_bid 0 0 (sample_bid 1 10 1)
        (fst (demote 0 1 (process_slot 7 BidSorter_new))) = Some (s', t, us)"
      "top_bid_value s' \<lparr>fk_parent_hash = 5, fk_parent_root = 6\<rparr> = Some 10"
    by (simp add: sorter_eval sample_bid_def BidSorter_new_def process_slot_def demote_def
        process_demotion_def top_bid_value_def)
  show ?thesis using second_demotion_keeps_bid [OF _ _ s(1), of 9] s
    by (auto simp: sample_bid_def process_slot_def BidSorter_new_def)
qed

end
