(* ===== verification/Wire_Header.thy ===== *)
theory Wire_Header
  imports Byte_Codec Auctioneer_Types
begin

unbundle bit_operations_syntax

text \<open>
  The headers a submission carries: the 6-byte TCP header of \<open>crates/tcp-types/src/lib.rs\<close>, the HTTP
  headers, and the internal header both become (\<open>InternalBidSubmissionHeader\<close> in
  \<open>crates/relay/src/auctioneer/types.rs\<close>) with its serialised form.  An HTTP header map is a function
  from names to the value's text; a value that is not visible ASCII is kept, and \<open>to_str\<close> rejects it.
\<close>

section \<open>TCP header\<close>

datatype ParseError = InvalidMergeType u8 | SubmissionTooShort | DuplicateSequenceNumber u32

fun merge_type_u8 :: "MergeType \<Rightarrow> u8" where
  "merge_type_u8 NoMerge = 0"
| "merge_type_u8 Mergeable = 1"
| "merge_type_u8 AppendOnly = 2"
| "merge_type_u8 Pause = 3"

definition merge_type_try_from :: "u8 \<Rightarrow> MergeType option" where
  "merge_type_try_from v =
     (if v = 0 then Some NoMerge else if v = 1 then Some Mergeable
      else if v = 2 then Some AppendOnly else if v = 3 then Some Pause else None)"

definition merge_type_is_some :: "MergeType \<Rightarrow> bool" where
  "merge_type_is_some m = (m = Mergeable \<or> m = AppendOnly)"

record BidSubmissionHeader =
  sh_sequence_number :: u32
  sh_merge_type :: MergeType
  sh_flags :: u8

definition IS_DEHYDRATED :: u8 where "IS_DEHYDRATED = push_bit 0 1"
definition WITH_ADJUSTMENTS :: u8 where "WITH_ADJUSTMENTS = push_bit 1 1"
definition ZSTD_COMPRESSED :: u8 where "ZSTD_COMPRESSED = push_bit 2 1"
definition PESSIMISTIC :: u8 where "PESSIMISTIC = push_bit 3 1"
definition DEHYDRATED_V2 :: u8 where "DEHYDRATED_V2 = push_bit 4 1"
definition MERGING_V2 :: u8 where "MERGING_V2 = push_bit 5 1"

definition flags_contains :: "u8 \<Rightarrow> u8 \<Rightarrow> bool" where
  "flags_contains flags f = (flags AND f = f)"

definition flags_insert :: "u8 \<Rightarrow> u8 \<Rightarrow> u8" where
  "flags_insert f flags = (flags OR f)"

definition BID_SUB_HEADER_SIZE :: nat where
  "BID_SUB_HEADER_SIZE = 6"

definition header_try_from :: "bytes \<Rightarrow> (ParseError, BidSubmissionHeader) Result" where
  "header_try_from value =
     (if length value < BID_SUB_HEADER_SIZE then Inl SubmissionTooShort
      else (case merge_type_try_from (value ! 4) of
              None \<Rightarrow> Inl (InvalidMergeType (value ! 4))
            | Some m \<Rightarrow> Inr \<lparr>sh_sequence_number = u32_from_be (take 4 value), sh_merge_type = m,
                             sh_flags = value ! 5\<rparr>))"

definition append_encoded :: "BidSubmissionHeader \<Rightarrow> bytes \<Rightarrow> bytes" where
  "append_encoded h buffer =
     buffer @ u32_to_be (sh_sequence_number h) @ [merge_type_u8 (sh_merge_type h), sh_flags h]"

definition header_compression :: "BidSubmissionHeader \<Rightarrow> Compression" where
  "header_compression h = (if flags_contains (sh_flags h) ZSTD_COMPRESSED then Zstd else NoCompression)"

section \<open>Internal header\<close>

record InternalBidSubmissionHeader =
  ih_submission_id :: Uuid
  ih_sequence_number :: u32
  ih_has_sequence_number :: bool
  ih_merge_type :: MergeType
  ih_flags :: u8
  ih_encoding :: Encoding
  ih_compression :: Compression
  ih_api_key :: string

definition from_tcp_header :: "Uuid \<Rightarrow> BidSubmissionHeader \<Rightarrow> InternalBidSubmissionHeader" where
  "from_tcp_header i h =
     \<lparr>ih_submission_id = i, ih_sequence_number = sh_sequence_number h,
      ih_has_sequence_number = True, ih_merge_type = sh_merge_type h, ih_flags = sh_flags h,
      ih_encoding = Ssz, ih_compression = header_compression h, ih_api_key = []\<rparr>"

subsection \<open>HTTP headers\<close>

type_synonym HeaderMap = "string \<Rightarrow> string option"

datatype SubmissionType = DefaultType | MergeTypeSub | DehydratedType

definition to_str :: "string \<Rightarrow> string option" where
  "to_str v =
     (if \<forall>c \<in> set v. (32 \<le> (of_char c :: nat) \<and> (of_char c :: nat) < 127) \<or> (of_char c :: nat) = 9
      then Some v else None)"

definition parse_submission_type :: "string \<Rightarrow> SubmissionType option" where
  "parse_submission_type t =
     (if eq_ignore_ascii_case t ''default'' then Some DefaultType
      else if eq_ignore_ascii_case t ''merge'' then Some MergeTypeSub
      else if eq_ignore_ascii_case t ''dehydrated'' then Some DehydratedType else None)"

definition parse_merge_type :: "string \<Rightarrow> MergeType option" where
  "parse_merge_type t =
     (if eq_ignore_ascii_case t ''none'' then Some NoMerge
      else if eq_ignore_ascii_case t ''mergeable'' then Some Mergeable
      else if eq_ignore_ascii_case t ''append_only'' then Some AppendOnly
      else if eq_ignore_ascii_case t ''pause'' then Some Pause else None)"

definition submission_type_from_headers :: "HeaderMap \<Rightarrow> SubmissionType option" where
  "submission_type_from_headers hs =
     Option.bind (Option.bind (hs ''x-submission-type'') to_str) parse_submission_type"

text \<open>\<open>str::parse::<u32>\<close>: an optional plus sign, then at least one digit, without overflow.\<close>

fun parse_digits :: "nat \<Rightarrow> string \<Rightarrow> nat option" where
  "parse_digits acc [] = Some acc"
| "parse_digits acc (c # cs) =
     (if 48 \<le> (of_char c :: nat) \<and> (of_char c :: nat) \<le> 57
      then (let acc' = acc * 10 + ((of_char c :: nat) - 48)
            in if acc' < 2 ^ 32 then parse_digits acc' cs else None)
      else None)"

definition parse_u32 :: "string \<Rightarrow> u32 option" where
  "parse_u32 t =
     (let ds = (case t of c # cs \<Rightarrow> if c = CHR ''+'' then cs else t | [] \<Rightarrow> [])
      in if ds = [] then None else map_option word_of_nat (parse_digits 0 ds))"

definition header_is :: "HeaderMap \<Rightarrow> string \<Rightarrow> string \<Rightarrow> bool" where
  "header_is hs name v = (hs name = Some v)"

definition merge_type_from_headers :: "HeaderMap \<Rightarrow> SubmissionType option \<Rightarrow> MergeType" where
  "merge_type_from_headers hs sub_type =
     (case hs ''x-merge-type'' of
        None \<Rightarrow> if sub_type = Some MergeTypeSub \<or> header_is hs ''x-mergeable'' ''true''
                then Mergeable else NoMerge
      | Some v \<Rightarrow> (case Option.bind (to_str v) parse_merge_type of Some m \<Rightarrow> m | None \<Rightarrow> NoMerge))"

definition from_http_headers :: "Uuid \<Rightarrow> HeaderMap \<Rightarrow> InternalBidSubmissionHeader" where
  "from_http_headers i hs =
     (let f0 = 0;
          f1 = (if header_is hs ''x-with-adjustments'' ''true'' then flags_insert WITH_ADJUSTMENTS f0 else f0);
          f2 = (if hs ''x-hydrate'' \<noteq> None then flags_insert IS_DEHYDRATED f1 else f1);
          f3 = (if header_is hs ''x-pessimistic'' ''true'' then flags_insert PESSIMISTIC f2 else f2);
          sub_type = submission_type_from_headers hs;
          f4 = (if sub_type = Some DehydratedType then flags_insert IS_DEHYDRATED f3 else f3);
          seq = Option.bind (Option.bind (hs ''x-sequence'') to_str) parse_u32
      in \<lparr>ih_submission_id = i,
          ih_sequence_number = (case seq of Some n \<Rightarrow> n | None \<Rightarrow> 0),
          ih_has_sequence_number = (seq \<noteq> None),
          ih_merge_type = merge_type_from_headers hs sub_type,
          ih_flags = f4,
          ih_encoding = (if header_is hs ''content-type'' ''application/octet-stream'' then Ssz else Json),
          ih_compression = (if header_is hs ''content-encoding'' ''gzip'' then Gzip
                            else if header_is hs ''content-encoding'' ''zstd'' then Zstd
                            else NoCompression),
          ih_api_key = (case Option.bind (case hs ''x-api-key'' of Some v \<Rightarrow> Some v
                                          | None \<Rightarrow> hs ''x-api-token'') to_str of
                          Some k \<Rightarrow> take 128 k | None \<Rightarrow> [])\<rparr>)"

subsection \<open>Serialised form\<close>

fun encoding_u8 :: "Encoding \<Rightarrow> u8" where
  "encoding_u8 Json = 0"
| "encoding_u8 Ssz = 1"

fun compression_u8 :: "Compression \<Rightarrow> u8" where
  "compression_u8 NoCompression = 0"
| "compression_u8 Gzip = 1"
| "compression_u8 Zstd = 2"

definition to_bytes :: "InternalBidSubmissionHeader \<Rightarrow> bytes" where
  "to_bytes h =
     fixed_bytes 16 (ih_submission_id h) @ [of_bool (ih_has_sequence_number h)] @
     u32_to_le (ih_sequence_number h) @
     [merge_type_u8 (ih_merge_type h), ih_flags h, encoding_u8 (ih_encoding h),
      compression_u8 (ih_compression h), word_of_nat (length (ih_api_key h))] @
     map of_char (ih_api_key h)"

definition MAX_SERIALISED_LEN :: nat where
  "MAX_SERIALISED_LEN = 154"

section \<open>Lemmas\<close>

lemma merge_type_roundtrip [simp]: "merge_type_try_from (merge_type_u8 m) = Some m"
  by (cases m) (simp_all add: merge_type_try_from_def)

lemma merge_type_u8_inverse: "merge_type_try_from v = Some m \<Longrightarrow> merge_type_u8 m = v"
  by (auto simp: merge_type_try_from_def split: if_splits)

lemma merge_type_u8_eq [simp]: "merge_type_u8 m = merge_type_u8 n \<longleftrightarrow> m = n"
  by (metis merge_type_roundtrip option.inject)

lemma encoding_u8_eq [simp]: "encoding_u8 a = encoding_u8 b \<longleftrightarrow> a = b"
  by (cases a; cases b) simp_all

lemma compression_u8_eq [simp]: "compression_u8 a = compression_u8 b \<longleftrightarrow> a = b"
  by (cases a; cases b) simp_all

lemma u32_to_le_eq [simp]: "u32_to_le a = u32_to_le b \<longleftrightarrow> a = b"
  by (metis u32_le_roundtrip)

lemma fixed_bytes_16_eq [simp]: "fixed_bytes 16 (a :: Uuid) = fixed_bytes 16 b \<longleftrightarrow> a = b"
proof
  assume "fixed_bytes 16 a = fixed_bytes 16 b"
  then have "(fixed_from (fixed_bytes 16 a) :: Uuid) = fixed_from (fixed_bytes 16 b)"
    by (rule arg_cong)
  then show "a = b" by (simp add: fixed_bytes_roundtrip)
qed simp

lemma inj_of_char: "inj (of_char :: char \<Rightarrow> u8)"
proof (rule injI)
  fix c d :: char
  assume "(of_char c :: u8) = of_char d"
  then have "unat (word_of_nat (of_char c) :: u8) = unat (word_of_nat (of_char d) :: u8)"
    by (simp only: of_nat_of_char)
  then have "(of_char c :: nat) = of_char d"
    using nat_of_char_less_256 [of c] nat_of_char_less_256 [of d]
    by (simp add: unsigned_of_nat take_bit_eq_mod)
  then show "c = d" by (metis char_of_char)
qed

lemma map_of_char_eq [simp]: "map (of_char :: char \<Rightarrow> u8) s = map of_char t \<longleftrightarrow> s = t"
  by (simp add: inj_map_eq_map inj_of_char)

lemma length_append_encoded: "length (append_encoded h []) = BID_SUB_HEADER_SIZE"
  by (simp add: append_encoded_def BID_SUB_HEADER_SIZE_def)

lemma take_append_encoded: "take 4 (append_encoded h [] @ rest) = u32_to_be (sh_sequence_number h)"
  by (simp add: append_encoded_def)

lemma nth_append_encoded:
  "(append_encoded h [] @ rest) ! 4 = merge_type_u8 (sh_merge_type h)"
  "(append_encoded h [] @ rest) ! 5 = sh_flags h"
  by (simp_all add: append_encoded_def nth_append)

lemma api_key_bound:
  "length (ih_api_key (from_http_headers i hs)) \<le> 128" "length (ih_api_key (from_tcp_header i h)) \<le> 128"
  by (simp_all add: from_http_headers_def from_tcp_header_def Let_def split: option.splits)

section \<open>Properties\<close>

text \<open>C25.  The TCP header decodes to what was encoded, whatever follows it; what decodes re-encodes to
  its first six bytes; and decoding fails exactly on fewer than six bytes or a merge type above 3.\<close>

theorem tcp_header_roundtrip:
  "header_try_from (append_encoded h [] @ rest) = Inr h \<and>
   (header_try_from bs = Inr h' \<longrightarrow> append_encoded h' [] = take 6 bs) \<and>
   (header_try_from bs = Inl SubmissionTooShort \<longleftrightarrow> length bs < 6) \<and>
   (header_try_from bs = Inl (InvalidMergeType v) \<longleftrightarrow> 6 \<le> length bs \<and> bs ! 4 = v \<and> 3 < v)"
proof (intro conjI impI)
  show "header_try_from (append_encoded h [] @ rest) = Inr h"
    using length_append_encoded [of h]
    by (simp add: header_try_from_def nth_append_encoded take_append_encoded
        del: take_append)
  show "append_encoded h' [] = take 6 bs" if "header_try_from bs = Inr h'"
  proof -
    have l: "6 \<le> length bs" and h: "sh_sequence_number h' = u32_from_be (take 4 bs)"
        "merge_type_try_from (bs ! 4) = Some (sh_merge_type h')" "sh_flags h' = bs ! 5"
      using that by (auto simp: header_try_from_def BID_SUB_HEADER_SIZE_def split: if_splits option.splits)
    have "take 6 bs = take 4 bs @ [bs ! 4, bs ! 5]"
      using l by (simp add: take_Suc_conv_app_nth eval_nat_numeral)
    then show ?thesis using l h merge_type_u8_inverse [OF h(2)]
      by (simp add: append_encoded_def u32_be_inverse)
  qed
  show "header_try_from bs = Inl SubmissionTooShort \<longleftrightarrow> length bs < 6"
    by (simp add: header_try_from_def BID_SUB_HEADER_SIZE_def split: option.splits)
  have "merge_type_try_from v = None \<longleftrightarrow> 3 < v"
    by (simp add: merge_type_try_from_def word_less_nat_alt word_unat_eq_iff)
  then show "header_try_from bs = Inl (InvalidMergeType v) \<longleftrightarrow> 6 \<le> length bs \<and> bs ! 4 = v \<and> 3 < v"
    by (auto simp: header_try_from_def BID_SUB_HEADER_SIZE_def not_less split: option.splits)
qed

theorem tcp_header_roundtrip_witness:
  "header_try_from [0, 0, 7, 121, 1, 63] = Inr \<lparr>sh_sequence_number = 1913, sh_merge_type = Mergeable, sh_flags = 63\<rparr> \<and>
   append_encoded \<lparr>sh_sequence_number = 1913, sh_merge_type = Mergeable, sh_flags = 63\<rparr> [] = [0, 0, 7, 121, 1, 63]"
proof -
  have d: "header_try_from [0, 0, 7, 121, 1, 63] =
      Inr \<lparr>sh_sequence_number = 1913, sh_merge_type = Mergeable, sh_flags = 63\<rparr>"
    by (simp add: header_try_from_def BID_SUB_HEADER_SIZE_def merge_type_try_from_def u32_from_be_def)
  then show ?thesis using tcp_header_roundtrip [of _ _ "[0, 0, 7, 121, 1, 63]"] by simp
qed

text \<open> The serialised internal header fits its 154-byte buffer for every header the relay builds from a
  TCP or an HTTP request, and two headers with keys of at most 128 characters that serialise to the
  same bytes are equal.\<close>

theorem internal_header_serialisation:
  "length (to_bytes (from_http_headers i hs)) \<le> MAX_SERIALISED_LEN \<and>
   length (to_bytes (from_tcp_header i h)) \<le> MAX_SERIALISED_LEN \<and>
   (length (ih_api_key a) \<le> 128 \<and> length (ih_api_key b) \<le> 128 \<and> to_bytes a = to_bytes b \<longrightarrow> a = b)"
proof -
  have len: "length (to_bytes a) = 26 + length (ih_api_key a)" for a
    by (simp add: to_bytes_def)
  have "a = b" if "to_bytes a = to_bytes b"
    using that by (cases a; cases b) (auto simp: to_bytes_def of_bool_def split: if_splits)
  then show ?thesis using api_key_bound(1) [of i hs] api_key_bound(2) [of i h]
    by (simp add: len MAX_SERIALISED_LEN_def)
qed

theorem internal_header_serialisation_witness:
  "\<exists>a. length (ih_api_key a) \<le> 128 \<and> to_bytes a = to_bytes (from_tcp_header 9
      \<lparr>sh_sequence_number = 1, sh_merge_type = Pause, sh_flags = 4\<rparr>) \<and>
     a = from_tcp_header 9 \<lparr>sh_sequence_number = 1, sh_merge_type = Pause, sh_flags = 4\<rparr>"
  using internal_header_serialisation [where
      a = "from_tcp_header 9 \<lparr>sh_sequence_number = 1, sh_merge_type = Pause, sh_flags = 4\<rparr>" and
      b = "from_tcp_header 9 \<lparr>sh_sequence_number = 1, sh_merge_type = Pause, sh_flags = 4\<rparr>"]
  by (simp add: api_key_bound)

end
