(* ===== verification/Gloas_Encoding.thy ===== *)
theory Gloas_Encoding
  imports Byte_Codec Auctioneer_Types
begin

text \<open>
  The byte layout of Gloas submissions, bids and envelopes (\<open>crates/types/src/gloas.rs\<close>): the
  decoder's offset checks, the sections of a decoded submission, the unsigned bid with its builder
  index slot, the envelope and the signed container.  Field reads of the external SSZ views are
  arguments; every offset the relay computes itself is modelled.
\<close>

section \<open>Decoding\<close>

datatype DecodeError =
    InvalidByteLength nat nat
  | BytesInvalid string
  | TraceInvalid

definition GLOAS_BID_TRACE_SIZE :: nat where "GLOAS_BID_TRACE_SIZE = 268"
definition BID_FIXED :: nat where "BID_FIXED = 224"
definition ENVELOPE_FIXED :: nat where "ENVELOPE_FIXED = 80"
definition SIGNED_FIXED :: nat where "SIGNED_FIXED = 100"

definition u32_at :: "bytes \<Rightarrow> nat \<Rightarrow> nat" where
  "u32_at buf at = unat (u32_from_le (slice at (at + 4) buf))"

definition gloas_blobs_bundle :: "GloasBidSubmission \<Rightarrow> bytes" where
  "gloas_blobs_bundle g = slice (gs_blobs_offset g) (gs_requests_offset g) (gs_bytes g)"

definition gloas_execution_requests :: "GloasBidSubmission \<Rightarrow> bytes" where
  "gloas_execution_requests g = drop (gs_requests_offset g) (gs_bytes g)"

definition gloas_signature :: "GloasBidSubmission \<Rightarrow> bytes" where
  "gloas_signature g = slice (GLOAS_BID_TRACE_SIZE + 12) SUBMISSION_FIXED (gs_bytes g)"

definition gloas_block_access_list :: "externals \<Rightarrow> GloasBidSubmission \<Rightarrow> bytes" where
  "gloas_block_access_list x g =
     (let p = gloas_execution_payload g in drop (view_block_access_list_offset x p) p)"

definition tx_span_ok :: "nat \<Rightarrow> bytes \<Rightarrow> nat \<Rightarrow> nat \<Rightarrow> bool" where
  "tx_span_ok max_tx txs n_txs i =
     (let start = u32_at txs (4 * i);
          stop = (if i + 1 < n_txs then u32_at txs (4 * (i + 1)) else length txs)
      in start \<le> stop \<and> stop \<le> length txs \<and> stop - start \<le> max_tx)"

definition transactions_layout_ok :: "externals \<Rightarrow> bytes \<Rightarrow> bool" where
  "transactions_layout_ok x txs =
     (if txs = [] then True
      else if length txs < 4 then False
      else (let first = u32_at txs 0 in
            if \<not> 4 dvd first \<or> first > length txs \<or> first div 4 > max_transactions_per_payload x
            then False
            else list_all (tx_span_ok (max_bytes_per_transaction x) txs (first div 4)) [0..<first div 4]))"

definition payload_layout_ok :: "externals \<Rightarrow> bytes \<Rightarrow> bool" where
  "payload_layout_ok x d =
     (if length d < execution_payload_fixed_gloas x then False
      else (let extra = view_extra_data_offset x d;
                txs = view_transactions_offset x d;
                withdrawals = view_withdrawals_offset x d;
                bal = view_block_access_list_offset x d
            in extra = execution_payload_fixed_gloas x \<and> extra \<le> txs \<and> txs \<le> withdrawals \<and>
               withdrawals \<le> bal \<and> bal \<le> length d \<and> txs - extra \<le> max_extra_data_bytes x \<and>
               WITHDRAWAL_SIZE dvd (bal - withdrawals) \<and>
               (bal - withdrawals) div WITHDRAWAL_SIZE \<le> max_withdrawals_per_payload x \<and>
               transactions_layout_ok x (slice txs withdrawals d)))"

definition blobs_bundle_layout_ok :: "externals \<Rightarrow> bytes \<Rightarrow> bool" where
  "blobs_bundle_layout_ok x bundle =
     (if length bundle < 12 then False
      else (let commitments = u32_at bundle 0; proofs = u32_at bundle 4; blobs = u32_at bundle 8 in
            if commitments \<noteq> 12 \<or> proofs < commitments \<or> blobs < proofs \<or> blobs > length bundle
            then False
            else (let c = proofs - commitments; p = blobs - proofs; b = length bundle - blobs in
                  bytes_per_blob x dvd b \<and>
                  c = b div bytes_per_blob x * bytes_per_kzg_commitment x \<and>
                  p = b div bytes_per_blob x * cells_per_ext_blob x * bytes_per_kzg_proof x)))"

definition gloas_from_ssz_bytes :: "externals \<Rightarrow> bytes \<Rightarrow> (DecodeError, GloasBidSubmission) Result" where
  "gloas_from_ssz_bytes x bs =
     (if length bs < SUBMISSION_FIXED then Inl (InvalidByteLength (length bs) SUBMISSION_FIXED)
      else case decode_gloas_trace x (take GLOAS_BID_TRACE_SIZE bs) of
        None \<Rightarrow> Inl TraceInvalid
      | Some message \<Rightarrow>
          (let payload_offset = u32_at bs GLOAS_BID_TRACE_SIZE;
               blobs_offset = u32_at bs (GLOAS_BID_TRACE_SIZE + 4);
               requests_offset = u32_at bs (GLOAS_BID_TRACE_SIZE + 8)
           in if payload_offset \<noteq> SUBMISSION_FIXED \<or> blobs_offset < payload_offset \<or>
                 requests_offset < blobs_offset \<or> requests_offset > length bs
              then Inl (BytesInvalid ''submission offsets'')
              else (let g = \<lparr>gs_message = message, gs_bytes = bs, gs_blobs_offset = blobs_offset,
                             gs_requests_offset = requests_offset\<rparr>
                    in if \<not> payload_layout_ok x (gloas_execution_payload g)
                       then Inl (BytesInvalid ''execution payload layout'')
                       else if \<not> blobs_bundle_layout_ok x (gloas_blobs_bundle g)
                       then Inl (BytesInvalid ''blobs bundle layout'')
                       else if \<not> requests_check_canonical x (gloas_execution_requests g)
                       then Inl (BytesInvalid ''execution requests layout'')
                       else Inr g)))"

section \<open>Sections of a submission\<close>

definition bundle_section :: "GloasBidSubmission \<Rightarrow> nat \<Rightarrow> bytes" where
  "bundle_section g i =
     (let bundle = gloas_blobs_bundle g;
          start = u32_at bundle (4 * i);
          stop = (if i < 2 then u32_at bundle (4 * (i + 1)) else length bundle)
      in slice start stop bundle)"

definition gloas_commitments :: "GloasBidSubmission \<Rightarrow> bytes" where
  "gloas_commitments g = bundle_section g 0"

definition gloas_proofs :: "GloasBidSubmission \<Rightarrow> bytes" where
  "gloas_proofs g = bundle_section g 1"

definition gloas_blobs :: "GloasBidSubmission \<Rightarrow> bytes" where
  "gloas_blobs g = bundle_section g 2"

definition gloas_validate_lengths ::
  "externals \<Rightarrow> GloasBidSubmission \<Rightarrow> nat \<Rightarrow> (BlockValidationError, unit) Result" where
  "gloas_validate_lengths x g max_blobs_per_block =
     (let blobs = length (gloas_blobs g) div bytes_per_blob x in
      if blobs > max_blobs_per_block
      then Inl (ValidationSszError (InvalidByteCount blobs max_blobs_per_block))
      else case requests_check_counts x (gloas_execution_requests g) of
             Some (n_txs, maxi) \<Rightarrow> Inl (ValidationSszError (InvalidByteCount n_txs maxi))
           | None \<Rightarrow> Inr ())"

section \<open>Bids and envelopes\<close>

definition unsigned_bid :: "externals \<Rightarrow> GloasBidSubmission \<Rightarrow> Address \<Rightarrow> u64 \<Rightarrow> bytes" where
  "unsigned_bid x g fee_recipient execution_payment =
     (let payload = gloas_execution_payload g in
      fixed_bytes 32 (view_parent_hash x payload) @
      fixed_bytes 32 (gt_parent_block_root (gs_message g)) @
      fixed_bytes 32 (view_block_hash x payload) @
      fixed_bytes 32 (view_prev_randao x payload) @
      fixed_bytes 20 fee_recipient @
      u64_to_le (view_gas_limit x payload) @
      u64_to_le 0 @
      u64_to_le (view_slot_number x payload) @
      u64_to_le 0 @
      u64_to_le execution_payment @
      u32_to_le (word_of_nat BID_FIXED) @
      fixed_bytes 32 (requests_root x (gloas_execution_requests g)) @
      gloas_commitments g)"

definition gloas_envelope :: "GloasBidSubmission \<Rightarrow> u64 \<Rightarrow> B256 \<Rightarrow> B256 \<Rightarrow> bytes" where
  "gloas_envelope g builder_index beacon_block_root parent_beacon_block_root =
     (let payload = gloas_execution_payload g in
      u32_to_le (word_of_nat ENVELOPE_FIXED) @
      u32_to_le (word_of_nat (ENVELOPE_FIXED + length payload)) @
      u64_to_le builder_index @
      fixed_bytes 32 beacon_block_root @
      fixed_bytes 32 parent_beacon_block_root @
      payload @ gloas_execution_requests g)"

definition envelope_contents :: "GloasBidSubmission \<Rightarrow> bytes \<Rightarrow> bytes" where
  "envelope_contents g signed_envelope =
     (let proofs_offset = 12 + length signed_envelope;
          blobs_offset = proofs_offset + length (gloas_proofs g)
      in u32_to_le 12 @ u32_to_le (word_of_nat proofs_offset) @ u32_to_le (word_of_nat blobs_offset) @
         signed_envelope @ gloas_proofs g @ gloas_blobs g)"

definition signed_container :: "bytes \<Rightarrow> bytes \<Rightarrow> bytes" where
  "signed_container message signature = u32_to_le (word_of_nat SIGNED_FIXED) @ signature @ message"

definition set_bid_builder_index :: "bytes \<Rightarrow> u64 \<Rightarrow> bytes" where
  "set_bid_builder_index bid builder_index = take 156 bid @ u64_to_le builder_index @ drop 164 bid"

section \<open>Lemmas\<close>

lemma u32_at_prefix: "u32_at (u32_to_le w @ rest) 0 = unat w"
  by (simp add: u32_at_def slice_def)

lemma u32_at_skip: "length xs \<le> k \<Longrightarrow> u32_at (xs @ ys) k = u32_at ys (k - length xs)"
  by (simp add: u32_at_def slice_append_right)

lemma unat_u32_small: "n < 2 ^ 32 \<Longrightarrow> unat (word_of_nat n :: u32) = n"
  by (simp add: unsigned_of_nat take_bit_eq_mod)

lemma take_slice: "a \<le> b \<Longrightarrow> take a bs @ slice a b bs = take b bs"
  using append_take_drop_id [of a "take b bs"] by (simp add: slice_def min_def)

lemma slice_partition:
  "a \<le> b \<Longrightarrow> b \<le> c \<Longrightarrow> c \<le> length bs \<Longrightarrow> take a bs @ slice a b bs @ slice b c bs @ drop c bs = bs"
  using take_slice [of a b bs] take_slice [of b c bs] by (simp flip: append_assoc)

lemma from_ssz_bytes_Inr:
  assumes "gloas_from_ssz_bytes x bs = Inr g"
  shows "gs_bytes g = bs" "SUBMISSION_FIXED \<le> gs_blobs_offset g"
    "gs_blobs_offset g \<le> gs_requests_offset g" "gs_requests_offset g \<le> length bs"
    "payload_layout_ok x (gloas_execution_payload g)"
    "blobs_bundle_layout_ok x (gloas_blobs_bundle g)"
    "requests_check_canonical x (gloas_execution_requests g)"
  using assms by (auto simp: gloas_from_ssz_bytes_def Let_def split: if_splits option.splits)

lemma blobs_bundle_layout_sections:
  assumes "blobs_bundle_layout_ok x (gloas_blobs_bundle g)"
  shows "take 12 (gloas_blobs_bundle g) @ gloas_commitments g @ gloas_proofs g @ gloas_blobs g =
      gloas_blobs_bundle g"
    and "\<exists>k. length (gloas_blobs g) = k * bytes_per_blob x \<and>
        length (gloas_commitments g) = k * bytes_per_kzg_commitment x \<and>
        length (gloas_proofs g) = k * cells_per_ext_blob x * bytes_per_kzg_proof x"
proof -
  let ?b = "gloas_blobs_bundle g"
  have ok: "12 \<le> length ?b" "u32_at ?b 0 = 12" "12 \<le> u32_at ?b 4" "u32_at ?b 4 \<le> u32_at ?b 8"
      "u32_at ?b 8 \<le> length ?b" "bytes_per_blob x dvd length ?b - u32_at ?b 8"
      "u32_at ?b 4 - 12 = (length ?b - u32_at ?b 8) div bytes_per_blob x * bytes_per_kzg_commitment x"
      "u32_at ?b 8 - u32_at ?b 4 = (length ?b - u32_at ?b 8) div bytes_per_blob x *
         cells_per_ext_blob x * bytes_per_kzg_proof x"
    using assms by (auto simp: blobs_bundle_layout_ok_def Let_def split: if_splits)
  have sec: "gloas_commitments g = slice 12 (u32_at ?b 4) ?b"
      "gloas_proofs g = slice (u32_at ?b 4) (u32_at ?b 8) ?b"
      "gloas_blobs g = drop (u32_at ?b 8) ?b"
    using ok(2) by (simp_all add: gloas_commitments_def gloas_proofs_def gloas_blobs_def
        bundle_section_def slice_def Let_def)
  show "take 12 ?b @ gloas_commitments g @ gloas_proofs g @ gloas_blobs g = ?b"
    using slice_partition [of 12 "u32_at ?b 4" "u32_at ?b 8" ?b] ok by (simp add: sec)
  show "\<exists>k. length (gloas_blobs g) = k * bytes_per_blob x \<and>
        length (gloas_commitments g) = k * bytes_per_kzg_commitment x \<and>
        length (gloas_proofs g) = k * cells_per_ext_blob x * bytes_per_kzg_proof x"
    using ok by (intro exI [of _ "(length ?b - u32_at ?b 8) div bytes_per_blob x"]) (simp add: sec)
qed

section \<open>Properties\<close>



text \<open> In the unsigned bid with the builder index written into it, every field sits at the offset
  the consensus layout gives it: the index occupies bytes 156 to 164 and nothing else changes, the
  slot, the payment and the commitments offset read back, and the commitments follow the fixed part.\<close>

theorem bid_layout:
  "let bid = unsigned_bid x g fee_recipient payment; set = set_bid_builder_index bid index in
   length set = BID_FIXED + length (gloas_commitments g) \<and>
   u64_from_le (slice 156 164 set) = index \<and>
   take 156 set = take 156 bid \<and> drop 164 set = drop 164 bid \<and>
   slice 0 32 set = fixed_bytes 32 (view_parent_hash x (gloas_execution_payload g)) \<and>
   slice 128 148 set = fixed_bytes 20 fee_recipient \<and>
   u64_from_le (slice 164 172 set) = view_slot_number x (gloas_execution_payload g) \<and>
   u64_from_le (slice 180 188 set) = payment \<and>
   u32_at set 188 = BID_FIXED \<and>
   drop BID_FIXED set = gloas_commitments g"
  by (simp add: unsigned_bid_def set_bid_builder_index_def Let_def slice_def u32_at_def BID_FIXED_def
      unat_u32_small)

text \<open>C24.  The envelope, the signed container and the published contents carry their parts where their
  own offset tables say, as long as the total stays below \<open>2^32\<close> bytes, the range of the offsets.\<close>

theorem envelope_layout:
  assumes "ENVELOPE_FIXED + length (gloas_execution_payload g) < 2 ^ 32"
    and "12 + length e + length (gloas_proofs g) < 2 ^ 32" "length signature = 96"
  shows "let env = gloas_envelope g index root proot; c = envelope_contents g e in
    u32_at env 0 = ENVELOPE_FIXED \<and>
    slice (u32_at env 0) (u32_at env 4) env = gloas_execution_payload g \<and>
    drop (u32_at env 4) env = gloas_execution_requests g \<and>
    u64_from_le (slice 8 16 env) = index \<and> slice 16 48 env = fixed_bytes 32 root \<and>
    slice (u32_at c 0) (u32_at c 4) c = e \<and>
    slice (u32_at c 4) (u32_at c 8) c = gloas_proofs g \<and> drop (u32_at c 8) c = gloas_blobs g \<and>
    drop (u32_at (signed_container e signature) 0) (signed_container e signature) = e \<and>
    slice 4 SIGNED_FIXED (signed_container e signature) = signature"
proof -
  let ?env = "gloas_envelope g index root proot" and ?c = "envelope_contents g e"
  have env: "u32_at ?env 0 = 80" "u32_at ?env 4 = 80 + length (gloas_execution_payload g)"
    using assms(1) by (simp_all add: gloas_envelope_def Let_def u32_at_def slice_def ENVELOPE_FIXED_def
        unat_u32_small del: of_nat_add)
  have c: "u32_at ?c 0 = 12" "u32_at ?c 4 = 12 + length e"
      "u32_at ?c 8 = 12 + length e + length (gloas_proofs g)"
    using assms(2) by (simp_all add: envelope_contents_def Let_def u32_at_def slice_def unat_u32_small
        del: of_nat_add)
  have s: "u32_at (signed_container e signature) 0 = 100"
    by (simp add: signed_container_def u32_at_def slice_def SIGNED_FIXED_def unat_u32_small)
  show ?thesis unfolding Let_def env c s
    using assms(3) by (simp add: gloas_envelope_def envelope_contents_def signed_container_def Let_def slice_def
        ENVELOPE_FIXED_def SIGNED_FIXED_def)
qed

theorem envelope_layout_witness:
  "u32_at (envelope_contents \<lparr>gs_message = \<lparr>gt_trace = sample_trace, gt_parent_block_root = 6\<rparr>,
       gs_bytes = [], gs_blobs_offset = 0, gs_requests_offset = 0\<rparr> [1, 2, 3]) 4 = 15 \<and>
   slice 12 15 (envelope_contents \<lparr>gs_message = \<lparr>gt_trace = sample_trace, gt_parent_block_root = 6\<rparr>,
       gs_bytes = [], gs_blobs_offset = 0, gs_requests_offset = 0\<rparr> [1, 2, 3]) = [1, 2, 3]"
proof -
  let ?g = "\<lparr>gs_message = \<lparr>gt_trace = sample_trace, gt_parent_block_root = 6\<rparr>,
       gs_bytes = [], gs_blobs_offset = 0, gs_requests_offset = 0\<rparr>"
  have e: "gloas_execution_payload ?g = []" "gloas_proofs ?g = []" "gloas_blobs ?g = []"
    by (simp_all add: gloas_execution_payload_def gloas_proofs_def gloas_blobs_def bundle_section_def
        gloas_blobs_bundle_def slice_def)
  have o: "u32_at (envelope_contents ?g [1, 2, 3]) 0 = 12" "u32_at (envelope_contents ?g [1, 2, 3]) 4 = 15"
    by (simp_all add: envelope_contents_def e u32_at_def slice_def)
  show ?thesis using envelope_layout [of ?g "[1, 2, 3]" "replicate 96 0"]
    by (simp add: e ENVELOPE_FIXED_def o Let_def)
qed

end
