(* ===== verification/Gloas_Reveal.thy ===== *)
theory Gloas_Reveal
  imports Gloas_Encoding
begin

text \<open>
  Holding and revealing Gloas payloads (\<open>crates/relay/src/auctioneer\<close>): the two-generation payload
  store of \<open>context.rs\<close>, the blocks seen per slot (\<open>seen_blocks.rs\<close>), the proposer preferences
  (\<open>builder_preferences.rs\<close>), the relay's builder identity (\<open>builder_identity.rs\<close>), and the reveal
  decided at the attestation deadline with its publication loop (\<open>gloas_payload.rs\<close>).

  Roots, signing domains and BLS signatures come from code outside the repository and are the
  fields of \<open>signer\<close>.
\<close>

section \<open>Payload store\<close>

record 'a PayloadStore =
  ps_current :: "(B256, 'a) FxHashMap"
  ps_previous :: "(B256, 'a) FxHashMap"

definition store_with_capacity :: "'a PayloadStore" where
  "store_with_capacity = \<lparr>ps_current = [], ps_previous = []\<rparr>"

definition store_insert :: "B256 \<Rightarrow> 'a \<Rightarrow> 'a PayloadStore \<Rightarrow> 'a PayloadStore" where
  "store_insert h e s = s\<lparr>ps_current := AList.update h e (ps_current s)\<rparr>"

definition store_get :: "'a PayloadStore \<Rightarrow> B256 \<Rightarrow> 'a option" where
  "store_get s h = map_of (ps_current s) h"

definition get_for_reveal :: "'a PayloadStore \<Rightarrow> B256 \<Rightarrow> 'a option" where
  "get_for_reveal s h = (case map_of (ps_current s) h of Some e \<Rightarrow> Some e | None \<Rightarrow> map_of (ps_previous s) h)"

definition store_is_empty :: "'a PayloadStore \<Rightarrow> bool" where
  "store_is_empty s = (ps_current s = [] \<and> ps_previous s = [])"

definition rotate :: "'a PayloadStore \<Rightarrow> 'a PayloadStore \<times> (B256, 'a) FxHashMap" where
  "rotate s = (\<lparr>ps_current = [], ps_previous = ps_current s\<rparr>, ps_previous s)"

section \<open>Seen blocks\<close>

datatype Recorded = NewBlock | Repeat | Late

record SeenBlocks =
  sbs_slots :: "(Slot, SeenBlock list) FxHashMap"
  sbs_decided :: Slot

definition default_seen :: SeenBlocks where
  "default_seen = \<lparr>sbs_slots = [], sbs_decided = 0\<rparr>"

definition seen_for :: "SeenBlocks \<Rightarrow> Slot \<Rightarrow> SeenBlock list" where
  "seen_for s n = (case map_of (sbs_slots s) n of Some bs \<Rightarrow> bs | None \<Rightarrow> [])"

definition record_block :: "Slot \<Rightarrow> SeenBlock \<Rightarrow> SeenBlocks \<Rightarrow> SeenBlocks \<times> Recorded" where
  "record_block slot block s =
     (if slot \<le> sbs_decided s then (s, Late)
      else (let seen = seen_for s slot in
            if list_ex (\<lambda>b. sb_block_root b = sb_block_root block) seen
            then (s\<lparr>sbs_slots := AList.update slot seen (sbs_slots s)\<rparr>, Repeat)
            else (s\<lparr>sbs_slots := AList.update slot (seen @ [block]) (sbs_slots s)\<rparr>, NewBlock)))"

definition decide :: "Slot \<Rightarrow> SeenBlocks \<Rightarrow> SeenBlocks \<times> SeenBlock list" where
  "decide slot s =
     (s\<lparr>sbs_decided := max (sbs_decided s) slot,
        sbs_slots := filter (\<lambda>p. fst p > slot) (AList.delete slot (sbs_slots s))\<rparr>,
      seen_for s slot)"

section \<open>Proposer preferences\<close>

type_synonym BuilderPreferencesStore = "((BlsPublicKeyBytes \<times> u64), u64) FxHashMap"

definition prefs_store :: "BlsPublicKeyBytes \<Rightarrow> u64 \<Rightarrow> u64 \<Rightarrow> BuilderPreferencesStore \<Rightarrow> BuilderPreferencesStore" where
  "prefs_store proposer slot max_payment m = AList.update (proposer, slot) max_payment m"

definition max_execution_payment :: "BuilderPreferencesStore \<Rightarrow> BlsPublicKeyBytes \<Rightarrow> u64 \<Rightarrow> u64 option" where
  "max_execution_payment m proposer slot = map_of m (proposer, slot)"

definition prefs_on_new_slot :: "u64 \<Rightarrow> BuilderPreferencesStore \<Rightarrow> BuilderPreferencesStore" where
  "prefs_on_new_slot new_slot m = filter (\<lambda>p. snd (fst p) \<ge> new_slot) m"

section \<open>Builder identity\<close>

record signer =
  sg_envelope_root :: "bytes \<Rightarrow> B256"
  sg_bid_root :: "bytes \<Rightarrow> B256"
  sg_bid_slot :: "bytes \<Rightarrow> u64"
  sg_builder_domain :: "u64 \<Rightarrow> B256"
  sg_hash_concat :: "B256 \<Rightarrow> B256 \<Rightarrow> B256"
  sg_bls_sign :: "B256 \<Rightarrow> bytes"

definition UNRESOLVED_BUILDER_INDEX :: u64 where
  "UNRESOLVED_BUILDER_INDEX = - 1"

text \<open>The identity's mutable part is the atomic builder index.\<close>

type_synonym GloasBuilderIdentity = u64

definition identity_new :: GloasBuilderIdentity where
  "identity_new = UNRESOLVED_BUILDER_INDEX"

definition builder_index :: "GloasBuilderIdentity \<Rightarrow> u64 option" where
  "builder_index i = (if i \<noteq> UNRESOLVED_BUILDER_INDEX then Some i else None)"

definition set_builder_index :: "u64 option \<Rightarrow> GloasBuilderIdentity" where
  "set_builder_index index = (case index of Some i \<Rightarrow> i | None \<Rightarrow> UNRESOLVED_BUILDER_INDEX)"

definition signing_root :: "signer \<Rightarrow> B256 \<Rightarrow> B256 \<Rightarrow> B256" where
  "signing_root sg object_root domain = sg_hash_concat sg object_root domain"

definition sign :: "signer \<Rightarrow> B256 \<Rightarrow> u64 \<Rightarrow> bytes \<Rightarrow> bytes" where
  "sign sg object_root slot message =
     signed_container message (sg_bls_sign sg (signing_root sg object_root (sg_builder_domain sg slot)))"

definition sign_envelope :: "signer \<Rightarrow> bytes \<Rightarrow> u64 \<Rightarrow> bytes" where
  "sign_envelope sg envelope slot = sign sg (sg_envelope_root sg envelope) slot envelope"

definition sign_bid :: "signer \<Rightarrow> GloasBuilderIdentity \<Rightarrow> bytes \<Rightarrow> bytes option" where
  "sign_bid sg i raw_bid =
     (case builder_index i of
        None \<Rightarrow> None
      | Some index \<Rightarrow>
          (let bid = set_bid_builder_index raw_bid index
           in Some (sign sg (sg_bid_root sg bid) (sg_bid_slot sg bid) bid)))"

section \<open>Reveal\<close>

record GloasPayload =
  gp_submission :: GloasBidSubmission
  gp_bid :: bytes

definition WEI_PER_GWEI :: U256 where
  "WEI_PER_GWEI = 1000000000"

definition saturating_to_u64 :: "U256 \<Rightarrow> u64" where
  "saturating_to_u64 v = (if unat v < 2 ^ 64 then ucast v else - 1)"

definition GloasPayload_new :: "externals \<Rightarrow> GloasBidSubmission \<Rightarrow> Address \<Rightarrow> GloasPayload" where
  "GloasPayload_new x submission fee_recipient =
     (let execution_payment = saturating_to_u64 (bt_value (gt_trace (gs_message submission)) div WEI_PER_GWEI)
      in \<lparr>gp_submission = submission, gp_bid = unsigned_bid x submission fee_recipient execution_payment\<rparr>)"

definition gloas_has_bid_trace :: "GloasPayload \<Rightarrow> BidTrace \<Rightarrow> bool" where
  "gloas_has_bid_trace e t = (gt_trace (gs_message (gp_submission e)) = t)"

definition signed_envelope_contents ::
  "signer \<Rightarrow> GloasBidSubmission \<Rightarrow> u64 \<Rightarrow> Slot \<Rightarrow> SeenBlock \<Rightarrow> bytes" where
  "signed_envelope_contents sg submission index slot block =
     (let envelope = gloas_envelope submission index (sb_block_root block) (sb_parent_root block);
          signed_envelope = sign_envelope sg envelope slot
      in envelope_contents submission signed_envelope)"

definition handle_attestation_deadline ::
  "signer \<Rightarrow> GloasBuilderIdentity \<Rightarrow> GloasPayload PayloadStore \<Rightarrow> Slot \<Rightarrow> B256 \<Rightarrow> SeenBlocks \<Rightarrow>
   SeenBlocks \<times> bytes option" where
  "handle_attestation_deadline sg identity payloads slot head_root s =
     (let (s', seen) = decide slot s in
      case seen of
        [block] \<Rightarrow>
          (case builder_index identity of
             None \<Rightarrow> (s', None)
           | Some index \<Rightarrow>
               if sb_bid_builder_index block \<noteq> index then (s', None)
               else if sb_block_root block \<noteq> head_root then (s', None)
               else (case get_for_reveal payloads (sb_bid_block_hash block) of
                       None \<Rightarrow> (s', None)
                     | Some entry \<Rightarrow>
                         (s', Some (signed_envelope_contents sg (gp_submission entry) index slot block))))
      | _ \<Rightarrow> (s', None))"

definition PUBLISH_ATTEMPTS :: nat where
  "PUBLISH_ATTEMPTS = 12"

text \<open>\<open>publish\<close> is the answer of the beacon nodes to each attempt; the result is the attempt that was
  taken, or none after the last one.\<close>

fun reveal_loop :: "(nat \<Rightarrow> bool) \<Rightarrow> nat \<Rightarrow> nat \<Rightarrow> nat option" where
  "reveal_loop publish attempt 0 = None"
| "reveal_loop publish attempt (Suc left) =
     (if publish attempt then Some attempt else reveal_loop publish (Suc attempt) left)"

definition reveal_envelope :: "(nat \<Rightarrow> bool) \<Rightarrow> nat option" where
  "reveal_envelope publish = reveal_loop publish 0 PUBLISH_ATTEMPTS"

definition sample_signer :: signer where
  "sample_signer = \<lparr>sg_envelope_root = (\<lambda>b. 0), sg_bid_root = (\<lambda>b. 0), sg_bid_slot = (\<lambda>b. 7),
     sg_builder_domain = (\<lambda>n. 0), sg_hash_concat = (\<lambda>a b. a), sg_bls_sign = (\<lambda>r. replicate 96 0)\<rparr>"

section \<open>Histories of seen blocks\<close>

datatype SeenOp = RecordOp Slot SeenBlock | DecideOp Slot

fun seen_step :: "SeenOp \<Rightarrow> SeenBlocks \<Rightarrow> SeenBlocks option" where
  "seen_step (RecordOp n b) s = Some (fst (record_block n b s))"
| "seen_step (DecideOp n) s = Some (fst (decide n s))"

fun recorded :: "Slot \<Rightarrow> SeenOp list \<Rightarrow> SeenBlock list" where
  "recorded n [] = []"
| "recorded n (RecordOp m b # ops) = (if m = n then b # recorded n ops else recorded n ops)"
| "recorded n (DecideOp m # ops) = recorded n ops"

fun decided_by :: "Slot \<Rightarrow> SeenOp \<Rightarrow> bool" where
  "decided_by n (DecideOp m) = (n \<le> m)"
| "decided_by n (RecordOp m b) = False"

definition seen_ok :: "SeenBlocks \<Rightarrow> bool" where
  "seen_ok s \<longleftrightarrow> distinct (map fst (sbs_slots s)) \<and> (\<forall>p \<in> set (sbs_slots s). sbs_decided s < fst p)"

section \<open>Lemmas on seen blocks\<close>

lemma decided_record [simp]: "sbs_decided (fst (record_block n b s)) = sbs_decided s"
  by (simp add: record_block_def Let_def)

lemma decided_decide [simp]: "sbs_decided (fst (decide n s)) = max (sbs_decided s) n"
  by (simp add: decide_def)

lemma seen_for_record:
  "seen_for (fst (record_block n b s)) m =
     (if m = n \<and> sbs_decided s < n \<and> sb_block_root b \<notin> sb_block_root ` set (seen_for s n)
      then seen_for s n @ [b] else seen_for s m)"
  by (auto simp: record_block_def Let_def seen_for_def map_of_update_other list_ex_iff image_iff)

lemma seen_for_decide: "seen_for (fst (decide n s)) m = (if n < m then seen_for s m else [])"
  by (auto simp: decide_def seen_for_def map_of_filter_key map_of_delete_other)

lemma recorded_append [simp]: "recorded n (xs @ ys) = recorded n xs @ recorded n ys"
  by (induction n xs rule: recorded.induct) auto

lemma seen_history:
  assumes "run seen_step ops default_seen = Some s" "0 < n" "\<not> list_ex (decided_by n) ops"
  shows "sbs_decided s < n \<and> distinct (map sb_block_root (seen_for s n)) \<and>
    set (seen_for s n) \<subseteq> set (recorded n ops) \<and>
    sb_block_root ` set (seen_for s n) = sb_block_root ` set (recorded n ops)"
  using assms
proof (induction ops arbitrary: s rule: rev_induct)
  case Nil
  then show ?case by (auto simp: default_seen_def seen_for_def)
next
  case (snoc op ops)
  obtain s0 where s0: "run seen_step ops default_seen = Some s0" and s: "seen_step op s0 = Some s"
    using snoc.prems(1) by (auto simp: run_append split: option.splits)
  note IH = snoc.IH [OF s0 snoc.prems(2)]
  show ?case
  proof (cases op)
    case (RecordOp m b)
    then have s': "s = fst (record_block m b s0)" using s by simp
    show ?thesis using IH snoc.prems(3) RecordOp by (auto simp: s' seen_for_record)
  next
    case (DecideOp m)
    then have s': "s = fst (decide m s0)" using s by simp
    show ?thesis using IH snoc.prems(3) DecideOp by (auto simp: s' seen_for_decide not_le)
  qed
qed

lemma seen_after_decide:
  assumes "run seen_step ops s0 = Some s" "n \<le> sbs_decided s0" "seen_for s0 n = []"
  shows "n \<le> sbs_decided s \<and> seen_for s n = []"
  using assms
proof (induction ops arbitrary: s0)
  case Nil
  then show ?case by simp
next
  case (Cons op ops)
  show ?case
  proof (cases op)
    case (RecordOp m b)
    show ?thesis using Cons.IH [of "fst (record_block m b s0)"] Cons.prems RecordOp
      by (auto simp: seen_for_record)
  next
    case (DecideOp m)
    show ?thesis using Cons.IH [of "fst (decide m s0)"] Cons.prems DecideOp
      by (simp add: seen_for_decide le_max_iff_disj)
  qed
qed

section \<open>Stores as keyed stores\<close>

interpretation payloads: keyed_store store_get store_insert
  by unfold_locales (simp add: store_get_def store_insert_def map_of_update_other)

interpretation reveals: keyed_store get_for_reveal store_insert
  by unfold_locales (simp add: get_for_reveal_def store_insert_def map_of_update_other split: option.splits)

lemma rotate_gets:
  "store_get (fst (rotate s)) h = None"
  "get_for_reveal (fst (rotate s)) h = store_get s h"
  "get_for_reveal (fst (rotate (fst (rotate s)))) h = None"
  by (simp_all add: rotate_def store_get_def get_for_reveal_def)

lemma reveal_loop_Some:
  "reveal_loop publish a k = Some i \<longleftrightarrow> a \<le> i \<and> i < a + k \<and> publish i \<and> (\<forall>j. a \<le> j \<and> j < i \<longrightarrow> \<not> publish j)"
proof (induction publish a k rule: reveal_loop.induct)
  case (1 publish a)
  then show ?case by simp
next
  case (2 publish a k)
  show ?case
  proof (cases "publish a")
    case True
    then show ?thesis by (auto simp: not_less_eq_eq)
  next
    case False
    then show ?thesis using 2 by (auto simp: Suc_le_eq) (metis le_neq_implies_less)+
  qed
qed

lemma seen_decided:
  "list_ex (decided_by n) ops \<Longrightarrow> run seen_step ops s0 = Some s \<Longrightarrow> seen_for s n = []"
proof (induction ops arbitrary: s0)
  case Nil
  then show ?case by simp
next
  case (Cons op ops)
  show ?case
  proof (cases "decided_by n op")
    case True
    then obtain m where op: "op = DecideOp m" "n \<le> m" by (cases op) auto
    then have "run seen_step ops (fst (decide m s0)) = Some s" using Cons.prems(2) by simp
    then show ?thesis using seen_after_decide [of ops "fst (decide m s0)" s n] op(2)
      by (simp add: seen_for_decide le_max_iff_disj leD)
  next
    case False
    then show ?thesis using Cons by (auto split: option.splits)
  qed
qed

lemma deadline_Some:
  "snd (handle_attestation_deadline sg i ps n head s) = Some env \<longleftrightarrow>
     (\<exists>block entry. seen_for s n = [block] \<and> builder_index i = Some (sb_bid_builder_index block) \<and>
        sb_block_root block = head \<and> get_for_reveal ps (sb_bid_block_hash block) = Some entry \<and>
        env = signed_envelope_contents sg (gp_submission entry) (sb_bid_builder_index block) n block)"
  by (cases "seen_for s n" rule: remdups_adj.cases)
    (auto simp: handle_attestation_deadline_def decide_def split: option.splits)

lemma deadline_state [simp]: "fst (handle_attestation_deadline sg i ps n head s) = fst (decide n s)"
  by (auto simp: handle_attestation_deadline_def decide_def split: option.splits list.splits)

section \<open>Properties\<close>

text \<open>C16.  At the attestation deadline of a slot the relay reveals exactly when the slot was not closed
  before, all blocks recorded for it share one root, that root is the beacon node's head, the block
  names the relay's own builder index, and the payload of its bid is held in the current or the previous
  generation; and then it reveals the envelope of that payload for that block.\<close>

theorem reveal_iff_sole_head_block:
  assumes "run seen_step ops default_seen = Some s" "0 < n"
  shows "snd (handle_attestation_deadline sg i ps n head s) = Some env \<longleftrightarrow>
    \<not> list_ex (decided_by n) ops \<and>
    (\<exists>block entry. seen_for s n = [block] \<and> block \<in> set (recorded n ops) \<and>
       (\<forall>b \<in> set (recorded n ops). sb_block_root b = head) \<and> sb_block_root block = head \<and>
       builder_index i = Some (sb_bid_builder_index block) \<and>
       get_for_reveal ps (sb_bid_block_hash block) = Some entry \<and>
       env = signed_envelope_contents sg (gp_submission entry) (sb_bid_builder_index block) n block)"
proof (cases "list_ex (decided_by n) ops")
  case True
  then show ?thesis using seen_decided [OF True assms(1)] by (simp add: deadline_Some)
next
  case False
  note hist = seen_history [OF assms False]
  have "block \<in> set (recorded n ops) \<and> (\<forall>b \<in> set (recorded n ops). sb_block_root b = sb_block_root block)"
    if "seen_for s n = [block]" for block
    using hist that by (metis (no_types, lifting) empty_set image_insert image_is_empty insert_iff
        insert_subset list.simps(15) singletonD image_eqI)
  then show ?thesis using False by (auto simp: deadline_Some)
qed

theorem reveal_iff_sole_head_block_witness:
  "\<exists>s env. run seen_step [RecordOp 7 \<lparr>sb_block_root = 50, sb_parent_root = 6, sb_bid_builder_index = 3,
        sb_bid_block_hash = 100\<rparr>] default_seen = Some s \<and>
     snd (handle_attestation_deadline sample_signer 3
        (store_insert 100 \<lparr>gp_submission = \<lparr>gs_message = \<lparr>gt_trace = sample_trace, gt_parent_block_root = 6\<rparr>,
           gs_bytes = [], gs_blobs_offset = 0, gs_requests_offset = 0\<rparr>, gp_bid = []\<rparr> store_with_capacity) 7 50 s)
       = Some env"
proof -
  let ?b = "\<lparr>sb_block_root = 50, sb_parent_root = 6, sb_bid_builder_index = 3, sb_bid_block_hash = 100\<rparr> :: SeenBlock"
  let ?e = "\<lparr>gp_submission = \<lparr>gs_message = \<lparr>gt_trace = sample_trace, gt_parent_block_root = 6\<rparr>,
           gs_bytes = [], gs_blobs_offset = 0, gs_requests_offset = 0\<rparr>, gp_bid = []\<rparr> :: GloasPayload"
  obtain s where s: "run seen_step [RecordOp 7 ?b] default_seen = Some s" by simp
  have b: "seen_for s 7 = [?b]"
    using s by (auto simp: default_seen_def record_block_def seen_for_def)
  have "builder_index 3 = Some 3" by (simp add: builder_index_def UNRESOLVED_BUILDER_INDEX_def)
  moreover have "get_for_reveal (store_insert 100 ?e store_with_capacity) 100 = Some ?e"
    by (simp add: reveals.get_put)
  ultimately show ?thesis using s b
    by (intro exI [of _ s] exI conjI, simp) (subst reveal_iff_sole_head_block [OF s], auto)
qed

text \<open>C17.  A slot is revealed at most once: once its deadline was handled, no later deadline for that slot or
  an earlier one reveals anything, whatever blocks are recorded in between and however the payload store
  and the identity change.\<close>

theorem reveal_at_most_once:
  assumes "handle_attestation_deadline sg i ps n head s = (s1, r)"
    and "run seen_step ops s1 = Some s2" "m \<le> n"
  shows "snd (handle_attestation_deadline sg' i' ps' m head' s2) = None"
proof -
  have "s1 = fst (decide n s)" using assms(1) deadline_state [of sg i ps n head s] by simp
  then have "seen_for s2 m = []"
    using seen_after_decide [OF assms(2), of m] assms(3) by (simp add: seen_for_decide le_max_iff_disj leD)
  then show ?thesis using deadline_Some [of sg' i' ps' m head' s2] by fastforce
qed

theorem reveal_at_most_once_witness:
  "\<exists>s1 r. handle_attestation_deadline sample_signer 3 store_with_capacity 7 50 default_seen = (s1, r) \<and>
     snd (handle_attestation_deadline sample_signer 3 store_with_capacity 7 50 s1) = None"
proof -
  obtain s1 r where h: "handle_attestation_deadline sample_signer 3 store_with_capacity 7 50 default_seen = (s1, r)"
    by fastforce
  then show ?thesis using reveal_at_most_once [OF h, of "[]" s1 7] by auto
qed

text \<open> A payload stored during an auction is served until the auction ends, can be revealed through
  exactly one more auction, and is gone after the second rotation, unless stored again.\<close>

theorem payload_kept_one_more_auction:
  "store_get (store_insert h e s) h = Some e \<and>
   get_for_reveal (store_insert h e s) h = Some e \<and>
   store_get (fst (rotate (store_insert h e s))) h = None \<and>
   get_for_reveal (fst (rotate (store_insert h e s))) h = Some e \<and>
   get_for_reveal (fst (rotate (fst (rotate (store_insert h e s))))) h = None \<and>
   snd (rotate (fst (rotate (store_insert h e s)))) = ps_current (store_insert h e s)"
  by (simp add: rotate_gets payloads.get_put reveals.get_put) (simp add: rotate_def)

text \<open>C18.  The publication loop stops at the first attempt a beacon node accepts, gives up exactly when none of
  the twelve attempts is accepted, and never tries more than twelve times.\<close>

theorem reveal_envelope_first_accept:
  "(reveal_envelope publish = Some k \<longleftrightarrow> k < 12 \<and> publish k \<and> (\<forall>j < k. \<not> publish j)) \<and>
   (reveal_envelope publish = None \<longleftrightarrow> (\<forall>j < 12. \<not> publish j))"
proof -
  have "reveal_envelope publish = None \<longleftrightarrow> (\<forall>j < 12. \<not> publish j)"
  proof
    assume "reveal_envelope publish = None"
    then have none: "\<And>i. \<not> (i < 12 \<and> publish i \<and> (\<forall>j < i. \<not> publish j))"
      using reveal_loop_Some [of publish 0 12] by (auto simp: reveal_envelope_def PUBLISH_ATTEMPTS_def)
    show "\<forall>j < 12. \<not> publish j"
    proof (intro allI impI)
      fix j :: nat
      show "j < 12 \<Longrightarrow> \<not> publish j"
        by (induction j rule: less_induct) (use none in fastforce)
    qed
  next
    assume "\<forall>j < 12. \<not> publish j"
    then show "reveal_envelope publish = None"
      using reveal_loop_Some [of publish 0 12] by (cases "reveal_envelope publish")
        (auto simp: reveal_envelope_def PUBLISH_ATTEMPTS_def)
  qed
  then show ?thesis using reveal_loop_Some [of publish 0 12 k]
    by (auto simp: reveal_envelope_def PUBLISH_ATTEMPTS_def)
qed

theorem reveal_envelope_first_accept_witness:
  "reveal_envelope (\<lambda>a. 3 \<le> a) = Some 3 \<and> reveal_envelope (\<lambda>a. 12 \<le> a) = None"
  using reveal_envelope_first_accept [of "\<lambda>a. 3 \<le> a" 3] reveal_envelope_first_accept [of "\<lambda>a. 12 \<le> a" 0]
  by auto

text \<open> A proposer's preference for a slot is the last one stored for that proposer and slot, survives every
  slot change up to its own slot, and is dropped by the first change past it.\<close>

theorem preferences_live_until_their_slot:
  "max_execution_payment (prefs_store p n v m) q k =
     (if (q, k) = (p, n) then Some v else max_execution_payment m q k) \<and>
   max_execution_payment (prefs_on_new_slot b m) q k =
     (if b \<le> k then max_execution_payment m q k else None)"
  by (auto simp: max_execution_payment_def prefs_store_def prefs_on_new_slot_def map_of_update_other
      map_of_filter_key [where P = "\<lambda>k. b \<le> snd k"])

end
