(* ===== verification/Hydration.thy ===== *)
theory Hydration
  imports Byte_Codec Auctioneer_Types
begin

text \<open>
  The hydration cache (\<open>crates/types/src/hydration.rs\<close>).  A dehydrated submission refers to
  transactions, blobs and withdrawals the relay has already seen by 8-byte keys; hydrating resolves
  the references against the builder's cache and caches what the submission carries in full.  The
  cache keys are computed by an external hasher, a field of \<open>externals\<close>.

  The option of \<open>hydrate_inner\<close> is the panic of \<open>commitments.push(..).unwrap()\<close>.
\<close>

section \<open>Data\<close>

datatype HydrationError =
    UnknownTxHash nat u64
  | InvalidTxLength nat nat
  | UnknownBlobHashFulu u64 nat
  | TooManyBlobs nat nat
  | MissingFullTx nat
  | MissingNewBlob nat
  | TooManyTxs
  | UnknownWithdrawals u64
  | InvalidBlobProofs nat nat

type_synonym CachedBlob = "KzgCommitment \<times> KzgProof list \<times> Blob"
type_synonym CachedWithdrawals = "Withdrawal list \<times> B256"

record Cache =
  hc_transactions :: "(u64, Transaction) FxHashMap"
  hc_blobs_fulu :: "(u64, CachedBlob) FxHashMap"
  hc_withdrawals :: "(u64, CachedWithdrawals) FxHashMap"

definition Cache_new :: Cache where
  "Cache_new = \<lparr>hc_transactions = [], hc_blobs_fulu = [], hc_withdrawals = []\<rparr>"

definition Cache_clear :: "Cache \<Rightarrow> Cache" where
  "Cache_clear c = c\<lparr>hc_transactions := [], hc_blobs_fulu := [], hc_withdrawals := []\<rparr>"

type_synonym HydrationCache = "(BlsPublicKeyBytes, Cache) FxHashMap"

record HydratedData =
  hd_submission :: SignedBidSubmissionFulu
  hd_tx_cache_hits :: nat
  hd_blob_cache_hits :: nat
  hd_tx_root :: "B256 option"

section \<open>Keys\<close>

definition NEXT_FULL_ITEM :: u64 where "NEXT_FULL_ITEM = 0"
definition TX_KEY_SIZE :: nat where "TX_KEY_SIZE = 67"

definition tx_cache_key :: "externals \<Rightarrow> Transaction \<Rightarrow> u64" where
  "tx_cache_key x tx = fx_finish x [WriteBytes (drop (length tx - TX_KEY_SIZE) tx)]"

definition blob_cache_key :: "externals \<Rightarrow> KzgCommitment \<Rightarrow> u64" where
  "blob_cache_key x c = fx_finish x [WriteCommitment c]"

definition withdrawals_key :: "externals \<Rightarrow> Withdrawal list \<Rightarrow> u64" where
  "withdrawals_key x ws =
     fx_finish x (concat (map (\<lambda>w. [WriteU64 (wd_index w), WriteU64 (wd_validator_index w),
       WriteAddress (wd_address w), WriteU64 (wd_amount w)]) ws))"

section \<open>The v1 wire shape\<close>

record DehydratedBidSubmissionFuluV1 =
  v1_message :: BidTrace
  v1_execution_payload :: ExecutionPayload
  v1_commitments :: "KzgCommitment list"
  v1_new_items :: "BlobItemFulu list"
  v1_execution_requests :: ExecutionRequests
  v1_signature :: BlsSignatureBytes
  v1_tx_root :: "B256 option"

definition split_v1_txs :: "Transaction list \<Rightarrow> u64 list \<times> Transaction list" where
  "split_v1_txs txs =
     (map (\<lambda>tx. if length tx = 8 then u64_from_le tx else NEXT_FULL_ITEM) txs,
      filter (\<lambda>tx. length tx \<noteq> 8) txs)"

definition from_v1 :: "externals \<Rightarrow> DehydratedBidSubmissionFuluV1 \<Rightarrow> DehydratedBidSubmission" where
  "from_v1 x v =
     (let (refs, full) = split_v1_txs (ep_transactions (v1_execution_payload v)) in
      \<lparr>ds_message = v1_message v,
       ds_execution_payload = (v1_execution_payload v)\<lparr>ep_transactions := full\<rparr>,
       ds_blobs_bundle = \<lparr>db_refs = map (blob_cache_key x) (v1_commitments v),
                          db_new_items = v1_new_items v\<rparr>,
       ds_execution_requests = v1_execution_requests v, ds_signature = v1_signature v,
       ds_tx_root = v1_tx_root v, ds_tx_refs = refs, ds_withdrawals_ref = 0\<rparr>)"

section \<open>Can it be hydrated\<close>

definition next_full_refs :: "u64 list \<Rightarrow> nat" where
  "next_full_refs refs = length (filter (\<lambda>r. r = NEXT_FULL_ITEM) refs)"

definition is_new_item :: "externals \<Rightarrow> BlobItemFulu list \<Rightarrow> u64 \<Rightarrow> bool" where
  "is_new_item x items r = list_ex (\<lambda>b. blob_cache_key x (bi_commitment b) = r) items"

definition has_all_cells :: "externals \<Rightarrow> KzgProof list \<Rightarrow> bool" where
  "has_all_cells x proofs = (length proofs = cells_per_ext_blob x)"

definition can_hydrate_inner :: "externals \<Rightarrow> Cache \<Rightarrow> nat \<Rightarrow> DehydratedBidSubmission \<Rightarrow> bool" where
  "can_hydrate_inner x c max_blobs_per_block s =
     (let ep = ds_execution_payload s;
          full_txs = ep_transactions ep;
          new_items = db_new_items (ds_blobs_bundle s);
          refs = db_refs (ds_blobs_bundle s)
      in length (ds_tx_refs s) \<le> max_transactions_per_payload x \<and>
         length refs \<le> max_blobs_per_block \<and>
         is_ok (payload_validate_ssz_lengths x ep) \<and>
         (ds_withdrawals_ref s = 0 \<or> map_of (hc_withdrawals c) (ds_withdrawals_ref s) \<noteq> None) \<and>
         list_all (\<lambda>tx. length tx \<ge> TX_KEY_SIZE) full_txs \<and>
         next_full_refs (ds_tx_refs s) \<le> length full_txs \<and>
         list_all (\<lambda>r. r = NEXT_FULL_ITEM \<or> map_of (hc_transactions c) r \<noteq> None) (ds_tx_refs s) \<and>
         list_all (\<lambda>b. has_all_cells x (bi_proof b)) new_items \<and>
         next_full_refs refs \<le> length new_items \<and>
         list_all (\<lambda>r. r = NEXT_FULL_ITEM \<or> is_new_item x new_items r \<or>
            (case map_of (hc_blobs_fulu c) r of
               Some (_, proofs, _) \<Rightarrow> has_all_cells x proofs | None \<Rightarrow> False)) refs)"

section \<open>Hydrating\<close>

text \<open>The transaction loop: index, references and remaining full transactions; the cache, the
  hydrated list, the hits and the last error are threaded through.\<close>

fun hydrate_txs ::
  "externals \<Rightarrow> nat \<Rightarrow> u64 list \<Rightarrow> Transaction list \<Rightarrow> (u64, Transaction) FxHashMap \<Rightarrow>
   (Transaction list \<times> nat \<times> HydrationError option \<times> (u64, Transaction) FxHashMap)" where
  "hydrate_txs x index [] full txs = ([], 0, None, txs)"
| "hydrate_txs x index (r # refs) full txs =
     (if r = NEXT_FULL_ITEM then
        (case full of
           [] \<Rightarrow> (let (ts, hits, err, txs') = hydrate_txs x (Suc index) refs [] txs
                  in (ts, hits, case err of Some e \<Rightarrow> Some e | None \<Rightarrow> Some (MissingFullTx index), txs'))
         | tx # rest \<Rightarrow>
             if length tx < TX_KEY_SIZE then
               (let (ts, hits, err, txs') = hydrate_txs x (Suc index) refs rest txs
                in (tx # ts, hits,
                    case err of Some e \<Rightarrow> Some e | None \<Rightarrow> Some (InvalidTxLength (length tx) index), txs'))
             else
               (let (ts, hits, err, txs') =
                      hydrate_txs x (Suc index) refs rest (AList.update (tx_cache_key x tx) tx txs)
                in (tx # ts, hits, err, txs')))
      else
        (case map_of txs r of
           Some tx \<Rightarrow> (let (ts, hits, err, txs') = hydrate_txs x (Suc index) refs full txs
                       in (tx # ts, Suc hits, err, txs'))
         | None \<Rightarrow> (let (ts, hits, err, txs') = hydrate_txs x (Suc index) refs full txs
                    in (ts, hits, case err of Some e \<Rightarrow> Some e | None \<Rightarrow> Some (UnknownTxHash index r), txs'))))"

fun cache_new_items ::
  "externals \<Rightarrow> nat \<Rightarrow> BlobItemFulu list \<Rightarrow> (u64, CachedBlob) FxHashMap \<Rightarrow>
   (u64 list \<times> HydrationError option \<times> (u64, CachedBlob) FxHashMap)" where
  "cache_new_items x index [] blobs = ([], None, blobs)"
| "cache_new_items x index (b # items) blobs =
     (if length (bi_proof b) \<noteq> cells_per_ext_blob x then
        (let (keys, err, blobs') = cache_new_items x (Suc index) items blobs
         in (keys, case err of Some e \<Rightarrow> Some e
                   | None \<Rightarrow> Some (InvalidBlobProofs index (length (bi_proof b))), blobs'))
      else
        (let key = blob_cache_key x (bi_commitment b);
             (keys, err, blobs') = cache_new_items x (Suc index) items
               (AList.update key (bi_commitment b, bi_proof b, bi_blob b) blobs)
         in (key # keys, err, blobs')))"

fun hydrate_blobs ::
  "externals \<Rightarrow> nat \<Rightarrow> u64 list \<Rightarrow> u64 list \<Rightarrow> (u64, CachedBlob) FxHashMap \<Rightarrow> BlobsBundle \<Rightarrow>
   (HydrationError, BlobsBundle) Result option" where
  "hydrate_blobs x index [] new_keys blobs sidecar = Some (Inr sidecar)"
| "hydrate_blobs x index (r # refs) new_keys blobs sidecar =
     (case (if r = NEXT_FULL_ITEM
            then (case new_keys of [] \<Rightarrow> None | k # ks \<Rightarrow> Some (k, ks)) else Some (r, new_keys)) of
        None \<Rightarrow> Some (Inl (MissingNewBlob index))
      | Some (key, new_keys') \<Rightarrow>
          (case map_of blobs key of
             None \<Rightarrow> Some (Inl (UnknownBlobHashFulu key index))
           | Some (commitment, proofs, blob) \<Rightarrow>
               if length (bb_commitments sidecar) \<ge> max_blob_commitments_per_block x then None
               else hydrate_blobs x (Suc index) refs new_keys' blobs
                      \<lparr>bb_commitments = bb_commitments sidecar @ [commitment],
                       bb_proofs = bb_proofs sidecar @ proofs,
                       bb_blobs = bb_blobs sidecar @ [blob]\<rparr>))"

definition cache_withdrawals :: "externals \<Rightarrow> Withdrawal list \<Rightarrow> (u64, CachedWithdrawals) FxHashMap \<Rightarrow>
    (u64, CachedWithdrawals) FxHashMap" where
  "cache_withdrawals x w m =
     (case map_of m (withdrawals_key x w) of
        Some _ \<Rightarrow> m
      | None \<Rightarrow> AList.update (withdrawals_key x w) (w, withdrawals_root x w) m)"

definition hydrate_withdrawals ::
  "externals \<Rightarrow> DehydratedBidSubmission \<Rightarrow> (u64, CachedWithdrawals) FxHashMap \<Rightarrow>
   (Withdrawal list \<times> HydrationError option \<times> (u64, CachedWithdrawals) FxHashMap)" where
  "hydrate_withdrawals x s m =
     (let w = ep_withdrawals (ds_execution_payload s) in
      if ds_withdrawals_ref s \<noteq> 0 then
        (case map_of m (ds_withdrawals_ref s) of
           Some (cached, _) \<Rightarrow> (cached, None, m)
         | None \<Rightarrow> (w, Some (UnknownWithdrawals (ds_withdrawals_ref s)), m))
      else if w \<noteq> [] then (w, None, cache_withdrawals x w m)
      else (w, None, m))"

definition later_err :: "HydrationError option \<Rightarrow> HydrationError option \<Rightarrow> HydrationError option" where
  "later_err e1 e2 = (case e2 of Some e \<Rightarrow> Some e | None \<Rightarrow> e1)"

definition hydrate_inner ::
  "externals \<Rightarrow> nat \<Rightarrow> DehydratedBidSubmission \<Rightarrow> Cache \<Rightarrow>
   ((HydrationError, HydratedData) Result \<times> Cache) option" where
  "hydrate_inner x max_blobs_per_block s c =
     (let (w, err1, ws') = hydrate_withdrawals x s (hc_withdrawals c);
          ep = ds_execution_payload s;
          (hydrated, tx_hits, err2, txs') =
            hydrate_txs x 0 (ds_tx_refs s) (ep_transactions ep) (hc_transactions c);
          c1 = c\<lparr>hc_withdrawals := ws', hc_transactions := txs'\<rparr>
      in if length hydrated > max_transactions_per_payload x then Some (Inl TooManyTxs, c1)
         else
           (let new_items = db_new_items (ds_blobs_bundle s);
                refs = db_refs (ds_blobs_bundle s);
                (new_keys, err3, blobs') = cache_new_items x 0 new_items (hc_blobs_fulu c1);
                c2 = c1\<lparr>hc_blobs_fulu := blobs'\<rparr>;
                err4 = (if length refs > max_blobs_per_block
                        then Some (TooManyBlobs (length refs) max_blobs_per_block) else None)
            in case later_err (later_err (later_err err1 err2) err3) err4 of
                 Some e \<Rightarrow> Some (Inl e, c2)
               | None \<Rightarrow>
                   (case hydrate_blobs x 0 refs new_keys blobs'
                           \<lparr>bb_commitments = [], bb_proofs = [], bb_blobs = []\<rparr> of
                      None \<Rightarrow> None
                    | Some (Inl e) \<Rightarrow> Some (Inl e, c2)
                    | Some (Inr sidecar) \<Rightarrow>
                        Some (Inr \<lparr>hd_submission =
                            \<lparr>sf_message = ds_message s,
                             sf_execution_payload = ep\<lparr>ep_withdrawals := w, ep_transactions := hydrated\<rparr>,
                             sf_blobs_bundle = sidecar,
                             sf_execution_requests = ds_execution_requests s,
                             sf_signature = ds_signature s\<rparr>,
                          hd_tx_cache_hits = tx_hits,
                          hd_blob_cache_hits = length refs - length new_items,
                          hd_tx_root = ds_tx_root s\<rparr>, c2))))"

section \<open>Feeding\<close>

definition feed_inner :: "externals \<Rightarrow> DehydratedBidSubmission \<Rightarrow> Cache \<Rightarrow> Cache" where
  "feed_inner x s c =
     (let w = ep_withdrawals (ds_execution_payload s) in
      \<lparr>hc_transactions =
         fold (\<lambda>tx m. if length tx \<ge> TX_KEY_SIZE then AList.update (tx_cache_key x tx) tx m else m)
           (ep_transactions (ds_execution_payload s)) (hc_transactions c),
       hc_blobs_fulu =
         fold (\<lambda>b m. if length (bi_proof b) \<noteq> cells_per_ext_blob x then m
                     else AList.update (blob_cache_key x (bi_commitment b))
                            (bi_commitment b, bi_proof b, bi_blob b) m)
           (db_new_items (ds_blobs_bundle s)) (hc_blobs_fulu c),
       hc_withdrawals =
         (if ds_withdrawals_ref s = 0 \<and> w \<noteq> [] then cache_withdrawals x w (hc_withdrawals c)
          else hc_withdrawals c)\<rparr>)"

section \<open>One cache per builder\<close>

definition cache_for :: "HydrationCache \<Rightarrow> BlsPublicKeyBytes \<Rightarrow> Cache" where
  "cache_for h k = (case map_of h k of Some c \<Rightarrow> c | None \<Rightarrow> Cache_new)"

definition can_hydrate :: "externals \<Rightarrow> HydrationCache \<Rightarrow> nat \<Rightarrow> DehydratedBidSubmission \<Rightarrow> bool" where
  "can_hydrate x h max_blobs_per_block s =
     can_hydrate_inner x (cache_for h (bt_builder_pubkey (ds_message s))) max_blobs_per_block s"

definition cached_withdrawals_root :: "HydrationCache \<Rightarrow> DehydratedBidSubmission \<Rightarrow> B256 option" where
  "cached_withdrawals_root h s =
     (if ds_withdrawals_ref s \<noteq> 0
      then Option.bind (map_of h (bt_builder_pubkey (ds_message s)))
             (\<lambda>c. map_option snd (map_of (hc_withdrawals c) (ds_withdrawals_ref s)))
      else None)"

definition hydrate ::
  "externals \<Rightarrow> nat \<Rightarrow> DehydratedBidSubmission \<Rightarrow> HydrationCache \<Rightarrow>
   ((HydrationError, HydratedData) Result \<times> HydrationCache) option" where
  "hydrate x max_blobs_per_block s h =
     (let k = bt_builder_pubkey (ds_message s) in
      map_option (\<lambda>(r, c). (r, AList.update k c h))
        (hydrate_inner x max_blobs_per_block s (cache_for h k)))"

definition feed :: "externals \<Rightarrow> DehydratedBidSubmission \<Rightarrow> HydrationCache \<Rightarrow> HydrationCache" where
  "feed x s h =
     (let k = bt_builder_pubkey (ds_message s) in AList.update k (feed_inner x s (cache_for h k)) h)"

definition hydration_clear :: "HydrationCache \<Rightarrow> HydrationCache" where
  "hydration_clear h = map (\<lambda>p. (fst p, Cache_clear (snd p))) h"

definition builder_count :: "HydrationCache \<Rightarrow> nat" where
  "builder_count h = length h"

definition tx_count :: "HydrationCache \<Rightarrow> nat" where
  "tx_count h = sum_list (map (\<lambda>p. length (hc_transactions (snd p))) h)"

definition blob_count :: "HydrationCache \<Rightarrow> nat" where
  "blob_count h = sum_list (map (\<lambda>p. length (hc_blobs_fulu (snd p))) h)"

section \<open>Invariant\<close>

text \<open>Every cached item is stored under its own key and is fit to be read back: a cached transaction is
  long enough to have a key, a cached blob has the proofs of all its cells, and the cached root of a
  list of withdrawals is its root.\<close>

definition txs_ok :: "externals \<Rightarrow> (u64, Transaction) FxHashMap \<Rightarrow> bool" where
  "txs_ok x m \<longleftrightarrow> (\<forall>k t. map_of m k = Some t \<longrightarrow> tx_cache_key x t = k \<and> TX_KEY_SIZE \<le> length t)"

definition blobs_ok :: "externals \<Rightarrow> (u64, CachedBlob) FxHashMap \<Rightarrow> bool" where
  "blobs_ok x m \<longleftrightarrow> (\<forall>k b. map_of m k = Some b \<longrightarrow>
     blob_cache_key x (fst b) = k \<and> length (fst (snd b)) = cells_per_ext_blob x)"

definition withdrawals_ok :: "externals \<Rightarrow> (u64, CachedWithdrawals) FxHashMap \<Rightarrow> bool" where
  "withdrawals_ok x m \<longleftrightarrow> (\<forall>k w. map_of m k = Some w \<longrightarrow>
     withdrawals_key x (fst w) = k \<and> snd w = withdrawals_root x (fst w))"

definition cache_ok :: "externals \<Rightarrow> Cache \<Rightarrow> bool" where
  "cache_ok x c \<longleftrightarrow> txs_ok x (hc_transactions c) \<and> blobs_ok x (hc_blobs_fulu c) \<and>
     withdrawals_ok x (hc_withdrawals c)"

definition tx_entry :: "externals \<Rightarrow> Transaction \<Rightarrow> u64 \<times> Transaction" where
  "tx_entry x tx = (tx_cache_key x tx, tx)"

definition blob_entry :: "externals \<Rightarrow> BlobItemFulu \<Rightarrow> u64 \<times> CachedBlob" where
  "blob_entry x b = (blob_cache_key x (bi_commitment b), bi_commitment b, bi_proof b, bi_blob b)"

abbreviation put_all :: "(u64 \<times> 'v) list \<Rightarrow> (u64, 'v) FxHashMap \<Rightarrow> (u64, 'v) FxHashMap" where
  "put_all kvs m \<equiv> fold (\<lambda>(k, v). AList.update k v) kvs m"

text \<open>The blob each reference stands for: the next new key at a zero reference, else the reference.\<close>

fun blob_keys :: "u64 list \<Rightarrow> u64 list \<Rightarrow> u64 list" where
  "blob_keys [] ks = []"
| "blob_keys (r # rs) ks =
     (if r = NEXT_FULL_ITEM then (case ks of [] \<Rightarrow> [] | k # ks' \<Rightarrow> k # blob_keys rs ks')
      else r # blob_keys rs ks)"

text \<open>The operations of the cache as the auctioneer and its decoder threads call them.\<close>

datatype HydrationOp =
    HydrateOp nat DehydratedBidSubmission
  | FeedOp DehydratedBidSubmission
  | ClearOp

fun hydration_step :: "externals \<Rightarrow> HydrationOp \<Rightarrow> HydrationCache \<Rightarrow> HydrationCache option" where
  "hydration_step x (HydrateOp n s) h = map_option snd (hydrate x n s h)"
| "hydration_step x (FeedOp s) h = Some (feed x s h)"
| "hydration_step x ClearOp h = Some (hydration_clear h)"

fun within_limit :: "externals \<Rightarrow> HydrationOp \<Rightarrow> bool" where
  "within_limit x (HydrateOp n s) = (n \<le> max_blob_commitments_per_block x)"
| "within_limit x _ = True"

definition hydration_ok :: "externals \<Rightarrow> HydrationCache \<Rightarrow> bool" where
  "hydration_ok x h \<longleftrightarrow> (\<forall>k. cache_ok x (cache_for h k))"

definition sample_dehydrated :: "u64 list \<Rightarrow> Transaction list \<Rightarrow> DehydratedBidSubmission" where
  "sample_dehydrated refs txs = \<lparr>ds_message = sample_trace,
     ds_execution_payload = \<lparr>ep_parent_hash = 5, ep_fee_recipient = 3, ep_state_root = 0,
       ep_receipts_root = 0, ep_logs_bloom = 0, ep_prev_randao = 8, ep_block_number = 1,
       ep_gas_limit = 30, ep_gas_used = 20, ep_timestamp = 1000, ep_extra_data = [],
       ep_base_fee_per_gas = 1, ep_block_hash = 100, ep_transactions = txs, ep_withdrawals = [],
       ep_blob_gas_used = 0, ep_excess_blob_gas = 0\<rparr>,
     ds_blobs_bundle = \<lparr>db_refs = [], db_new_items = []\<rparr>,
     ds_execution_requests = \<lparr>er_deposits = [], er_withdrawals = [], er_consolidations = []\<rparr>,
     ds_signature = 0, ds_tx_root = None, ds_tx_refs = refs, ds_withdrawals_ref = 0\<rparr>"

section \<open>Transactions\<close>

lemma hydrate_txs_ok:
  assumes "hydrate_txs x i refs full txs = (ts, hits, err, txs')"
    and "next_full_refs refs \<le> length full" "\<forall>tx \<in> set full. TX_KEY_SIZE \<le> length tx"
    and "\<forall>r \<in> set refs. r = NEXT_FULL_ITEM \<or> map_of txs r \<noteq> None"
  shows "err = None \<and> length ts = length refs \<and>
    txs' = put_all (map (tx_entry x) (take (next_full_refs refs) full)) txs \<and>
    hits = length refs - next_full_refs refs"
  using assms
proof (induction refs arbitrary: i full txs ts hits err txs')
  case Nil
  then show ?case by (simp add: next_full_refs_def)
next
  case (Cons r refs)
  have le: "next_full_refs refs \<le> length refs" by (simp add: next_full_refs_def)
  show ?case
  proof (cases "r = NEXT_FULL_ITEM")
    case True
    then obtain tx rest where full: "full = tx # rest"
      using Cons.prems(2) by (cases full) (auto simp: next_full_refs_def)
    have long: "\<not> length tx < TX_KEY_SIZE" using Cons.prems(3) full by (simp add: not_less)
    obtain ts1 where rec: "hydrate_txs x (Suc i) refs rest (AList.update (tx_cache_key x tx) tx txs)
        = (ts1, hits, err, txs')" "ts = tx # ts1"
      using Cons.prems(1) True full long by (auto split: prod.splits)
    show ?thesis
      using Cons.IH [OF rec(1)] Cons.prems(2,3,4) full True rec(2)
      by (auto simp: next_full_refs_def tx_entry_def map_of_update_other)
  next
    case False
    then obtain tx where tx: "map_of txs r = Some tx" using Cons.prems(4) by auto
    obtain ts1 h1 where rec: "hydrate_txs x (Suc i) refs full txs = (ts1, h1, err, txs')"
        "ts = tx # ts1" "hits = Suc h1"
      using Cons.prems(1) False tx by (auto split: prod.splits)
    show ?thesis
      using Cons.IH [OF rec(1)] Cons.prems(2,3,4) False rec(2,3) le
      by (simp add: next_full_refs_def Suc_diff_le)
  qed
qed

lemma txs_ok_put: "txs_ok x m \<Longrightarrow> TX_KEY_SIZE \<le> length tx \<Longrightarrow> txs_ok x (AList.update (tx_cache_key x tx) tx m)"
  by (auto simp: txs_ok_def map_of_update_other)

text \<open>What the hydrated transactions are: at the zero references the full ones in order, elsewhere a
  transaction with the referenced key.  Every one of them is a full or a cached transaction.\<close>

lemma hydrate_txs_resolves:
  assumes "hydrate_txs x i refs full txs = (ts, hits, None, txs')" "txs_ok x txs"
  shows "map snd (filter (\<lambda>p. fst p = NEXT_FULL_ITEM) (zip refs ts)) = take (next_full_refs refs) full \<and>
    (\<forall>p \<in> set (zip refs ts). fst p \<noteq> NEXT_FULL_ITEM \<longrightarrow> tx_cache_key x (snd p) = fst p) \<and>
    set ts \<subseteq> set full \<union> ran (map_of txs) \<and> txs_ok x txs'"
  using assms
proof (induction refs arbitrary: i full txs ts hits txs')
  case Nil
  then show ?case by (simp add: next_full_refs_def)
next
  case (Cons r refs)
  show ?case
  proof (cases "r = NEXT_FULL_ITEM")
    case True
    then obtain tx rest ts1 where full: "full = tx # rest" "TX_KEY_SIZE \<le> length tx" "ts = tx # ts1" and
        rec: "hydrate_txs x (Suc i) refs rest (AList.update (tx_cache_key x tx) tx txs) = (ts1, hits, None, txs')"
      using Cons.prems(1) by (auto split: prod.splits list.splits if_splits option.splits)
    show ?thesis
      using Cons.IH [OF rec txs_ok_put [OF Cons.prems(2) full(2)]] full True
      by (auto simp: next_full_refs_def ran_def map_of_update_other split: if_splits)
  next
    case False
    then obtain tx ts1 h1 where tx: "map_of txs r = Some tx" "ts = tx # ts1" and
        rec: "hydrate_txs x (Suc i) refs full txs = (ts1, h1, None, txs')"
      using Cons.prems(1) by (auto split: prod.splits option.splits)
    show ?thesis
      using Cons.IH [OF rec Cons.prems(2)] tx False Cons.prems(2)
      by (auto simp: next_full_refs_def txs_ok_def ranI)
  qed
qed

section \<open>Blobs\<close>

lemma cache_new_items_ok:
  assumes "\<forall>b \<in> set items. length (bi_proof b) = cells_per_ext_blob x"
  shows "cache_new_items x i items blobs =
    (map (fst \<circ> blob_entry x) items, None, put_all (map (blob_entry x) items) blobs)"
  using assms by (induction items arbitrary: i blobs) (auto simp: blob_entry_def Let_def)

lemma blobs_ok_put:
  "blobs_ok x m \<Longrightarrow> length (bi_proof b) = cells_per_ext_blob x \<Longrightarrow>
   blobs_ok x (AList.update (blob_cache_key x (bi_commitment b)) (bi_commitment b, bi_proof b, bi_blob b) m)"
  by (auto simp: blobs_ok_def map_of_update_other)

lemma cache_new_items_blobs_ok:
  assumes "cache_new_items x i items blobs = (keys, err, blobs')" "blobs_ok x blobs"
  shows "blobs_ok x blobs'"
  using assms
proof (induction items arbitrary: i blobs keys err blobs')
  case Nil
  then show ?case by simp
next
  case (Cons b items)
  then show ?case by (auto simp: Let_def blobs_ok_put split: if_splits prod.splits)
qed

lemma length_blob_keys: "next_full_refs refs \<le> length ks \<Longrightarrow> length (blob_keys refs ks) = length refs"
  by (induction refs arbitrary: ks) (auto simp: next_full_refs_def split: list.splits)

lemma set_blob_keys: "set (blob_keys refs ks) \<subseteq> set ks \<union> (set refs - {NEXT_FULL_ITEM})"
proof (induction refs arbitrary: ks)
  case Nil
  then show ?case by simp
next
  case (Cons r refs)
  show ?case using Cons.IH [of ks] Cons.IH [of "tl ks"] by (cases ks) auto
qed

lemma hydrate_blobs_ok:
  assumes "next_full_refs refs \<le> length ks"
    and "\<forall>k \<in> set (blob_keys refs ks). map_of blobs k \<noteq> None"
    and "length (bb_commitments sc) + length refs \<le> max_blob_commitments_per_block x"
  shows "hydrate_blobs x i refs ks blobs sc =
    (let bs = map (the \<circ> map_of blobs) (blob_keys refs ks) in
     Some (Inr \<lparr>bb_commitments = bb_commitments sc @ map fst bs,
                bb_proofs = bb_proofs sc @ concat (map (fst \<circ> snd) bs),
                bb_blobs = bb_blobs sc @ map (snd \<circ> snd) bs\<rparr>))"
  using assms
proof (induction refs arbitrary: i ks sc)
  case Nil
  then show ?case by (simp add: Let_def)
next
  case (Cons r refs)
  obtain k ks' where k: "(if r = NEXT_FULL_ITEM then (case ks of [] \<Rightarrow> None | k # ks \<Rightarrow> Some (k, ks))
      else Some (r, ks)) = Some (k, ks')" "blob_keys (r # refs) ks = k # blob_keys refs ks'"
      "next_full_refs refs \<le> length ks'"
    using Cons.prems(1) by (cases ks) (auto simp: next_full_refs_def split: if_splits)
  obtain c p b where b: "map_of blobs k = Some (c, p, b)"
    using Cons.prems(2) k(2) by (cases "map_of blobs k") auto
  show ?case
    using Cons.IH [of ks' "\<lparr>bb_commitments = bb_commitments sc @ [c], bb_proofs = bb_proofs sc @ p,
        bb_blobs = bb_blobs sc @ [b]\<rparr>" "Suc i"] Cons.prems(2,3) k b
    by (simp add: Let_def)
qed

section \<open>Hydrating what can be hydrated\<close>

lemma can_hydrate_inner_facts:
  assumes "can_hydrate_inner x c n s"
  shows "length (ds_tx_refs s) \<le> max_transactions_per_payload x"
    "length (db_refs (ds_blobs_bundle s)) \<le> n"
    "payload_validate_ssz_lengths x (ds_execution_payload s) = Inr ()"
    "ds_withdrawals_ref s = 0 \<or> map_of (hc_withdrawals c) (ds_withdrawals_ref s) \<noteq> None"
    "\<forall>tx \<in> set (ep_transactions (ds_execution_payload s)). TX_KEY_SIZE \<le> length tx"
    "next_full_refs (ds_tx_refs s) \<le> length (ep_transactions (ds_execution_payload s))"
    "\<forall>r \<in> set (ds_tx_refs s). r = NEXT_FULL_ITEM \<or> map_of (hc_transactions c) r \<noteq> None"
    "\<forall>b \<in> set (db_new_items (ds_blobs_bundle s)). length (bi_proof b) = cells_per_ext_blob x"
    "next_full_refs (db_refs (ds_blobs_bundle s)) \<le> length (db_new_items (ds_blobs_bundle s))"
    "\<forall>r \<in> set (db_refs (ds_blobs_bundle s)). r = NEXT_FULL_ITEM \<or>
       is_new_item x (db_new_items (ds_blobs_bundle s)) r \<or>
       (\<exists>b. map_of (hc_blobs_fulu c) r = Some b \<and> length (fst (snd b)) = cells_per_ext_blob x)"
proof -
  have [simp]: "is_ok r \<longleftrightarrow> r = Inr ()" for r :: "(BlockValidationError, unit) Result"
    by (cases r) simp_all
  show "length (ds_tx_refs s) \<le> max_transactions_per_payload x"
    "length (db_refs (ds_blobs_bundle s)) \<le> n"
    "payload_validate_ssz_lengths x (ds_execution_payload s) = Inr ()"
    "ds_withdrawals_ref s = 0 \<or> map_of (hc_withdrawals c) (ds_withdrawals_ref s) \<noteq> None"
    "\<forall>tx \<in> set (ep_transactions (ds_execution_payload s)). TX_KEY_SIZE \<le> length tx"
    "next_full_refs (ds_tx_refs s) \<le> length (ep_transactions (ds_execution_payload s))"
    "\<forall>r \<in> set (ds_tx_refs s). r = NEXT_FULL_ITEM \<or> map_of (hc_transactions c) r \<noteq> None"
    "\<forall>b \<in> set (db_new_items (ds_blobs_bundle s)). length (bi_proof b) = cells_per_ext_blob x"
    "next_full_refs (db_refs (ds_blobs_bundle s)) \<le> length (db_new_items (ds_blobs_bundle s))"
    using assms unfolding can_hydrate_inner_def Let_def has_all_cells_def list_all_iff
    by (simp_all del: payload_validate_ssz_lengths_Inr)
  show "\<forall>r \<in> set (db_refs (ds_blobs_bundle s)). r = NEXT_FULL_ITEM \<or>
       is_new_item x (db_new_items (ds_blobs_bundle s)) r \<or>
       (\<exists>b. map_of (hc_blobs_fulu c) r = Some b \<and> length (fst (snd b)) = cells_per_ext_blob x)"
    using assms unfolding can_hydrate_inner_def Let_def has_all_cells_def list_all_iff
    by (fastforce split: option.splits)
qed

text \<open>Every blob a reference of an accepted submission stands for is in the cache once the new items are,
  with the proofs of all its cells.\<close>

lemma blob_lookup_ok:
  assumes "can_hydrate_inner x c n s"
    and "k \<in> set (blob_keys (db_refs (ds_blobs_bundle s)) (map (fst \<circ> blob_entry x) (db_new_items (ds_blobs_bundle s))))"
  shows "\<exists>b. map_of (put_all (map (blob_entry x) (db_new_items (ds_blobs_bundle s))) (hc_blobs_fulu c)) k = Some b \<and>
    length (fst (snd b)) = cells_per_ext_blob x"
proof -
  let ?items = "db_new_items (ds_blobs_bundle s)"
  let ?m = "put_all (map (blob_entry x) ?items) (hc_blobs_fulu c)"
  note f = can_hydrate_inner_facts [OF assms(1)]
  have new: "length (fst (snd b)) = cells_per_ext_blob x" if "(k, b) \<in> set (map (blob_entry x) ?items)" for b
    using that f(8) by (auto simp: blob_entry_def)
  have key: "k \<in> fst ` set (map (blob_entry x) ?items) \<or>
      (\<exists>b. map_of (hc_blobs_fulu c) k = Some b \<and> length (fst (snd b)) = cells_per_ext_blob x)"
    using set_blob_keys [of "db_refs (ds_blobs_bundle s)" "map (fst \<circ> blob_entry x) ?items"] assms(2) f(10)
    by (auto simp: is_new_item_def list_ex_iff blob_entry_def image_iff dest!: bspec subsetD)
  show ?thesis
  proof (cases "map_of (rev (map (blob_entry x) ?items)) k")
    case None
    then have "k \<notin> fst ` set (map (blob_entry x) ?items)" by (simp add: map_of_eq_None_iff)
    then show ?thesis using key None by (simp add: alist.get_fold_put)
  next
    case (Some b)
    then have "(k, b) \<in> set (map (blob_entry x) ?items)" by (metis map_of_SomeD set_rev)
    then show ?thesis using new Some by (simp add: alist.get_fold_put)
  qed
qed

lemma hydrate_inner_ok:
  assumes can: "can_hydrate_inner x c n s" and max: "n \<le> max_blob_commitments_per_block x"
  shows "\<exists>d c'. hydrate_inner x n s c = Some (Inr d, c') \<and>
    sf_message (hd_submission d) = ds_message s \<and>
    length (ep_transactions (sf_execution_payload (hd_submission d))) = length (ds_tx_refs s) \<and>
    blobs_validate_ssz_lengths x (sf_blobs_bundle (hd_submission d)) n = Inr () \<and>
    hc_transactions c' = put_all (map (tx_entry x) (take (next_full_refs (ds_tx_refs s))
       (ep_transactions (ds_execution_payload s)))) (hc_transactions c) \<and>
    hc_blobs_fulu c' = put_all (map (blob_entry x) (db_new_items (ds_blobs_bundle s))) (hc_blobs_fulu c)"
proof -
  let ?ep = "ds_execution_payload s" and ?items = "db_new_items (ds_blobs_bundle s)"
    and ?refs = "db_refs (ds_blobs_bundle s)"
  let ?keys = "map (fst \<circ> blob_entry x) ?items"
    and ?blobs = "put_all (map (blob_entry x) (db_new_items (ds_blobs_bundle s))) (hc_blobs_fulu c)"
  note f = can_hydrate_inner_facts [OF can]
  obtain w ws' where w: "hydrate_withdrawals x s (hc_withdrawals c) = (w, None, ws')"
    using f(4) by (cases "ds_withdrawals_ref s = 0"; cases "ep_withdrawals ?ep = []")
      (auto simp: hydrate_withdrawals_def Let_def)
  obtain ts hits txs' where t: "hydrate_txs x 0 (ds_tx_refs s) (ep_transactions ?ep) (hc_transactions c)
      = (ts, hits, None, txs')" "length ts = length (ds_tx_refs s)"
      "txs' = put_all (map (tx_entry x) (take (next_full_refs (ds_tx_refs s)) (ep_transactions ?ep))) (hc_transactions c)"
    using hydrate_txs_ok [OF _ f(6,5,7)] by (metis prod_cases4)
  have keys: "next_full_refs ?refs \<le> length ?keys" using f(9) by simp
  let ?bs = "map (the \<circ> map_of ?blobs) (blob_keys ?refs ?keys)"
  have look: "\<forall>k \<in> set (blob_keys ?refs ?keys). map_of ?blobs k \<noteq> None \<and>
      length (fst (snd (the (map_of ?blobs k)))) = cells_per_ext_blob x"
    using blob_lookup_ok [OF can] by fastforce
  have b: "hydrate_blobs x 0 ?refs ?keys ?blobs \<lparr>bb_commitments = [], bb_proofs = [], bb_blobs = []\<rparr> =
      Some (Inr \<lparr>bb_commitments = map fst ?bs, bb_proofs = concat (map (fst \<circ> snd) ?bs), bb_blobs = map (snd \<circ> snd) ?bs\<rparr>)"
    using hydrate_blobs_ok [OF keys, of ?blobs "\<lparr>bb_commitments = [], bb_proofs = [], bb_blobs = []\<rparr>" x 0]
      look f(2) max by (simp add: Let_def)
  have "length (concat (map (fst \<circ> snd) ?bs)) = length ?refs * cells_per_ext_blob x"
    using look length_blob_keys [OF keys]
    by (simp add: length_concat comp_def sum_list_triv cong: map_cong)
  then show ?thesis
    using w t b f(1,2) cache_new_items_ok [OF f(8)] length_blob_keys [OF keys]
    by (simp add: hydrate_inner_def later_err_def Let_def)
qed

section \<open>The cache stays readable, and hydrating never panics\<close>

lemma cache_new_ok [simp]: "cache_ok x Cache_new"
  by (simp add: cache_ok_def Cache_new_def txs_ok_def blobs_ok_def withdrawals_ok_def)

lemma cache_for_update: "cache_for (AList.update k c h) k' = (if k' = k then c else cache_for h k')"
  by (simp add: cache_for_def map_of_update_other)

lemma withdrawals_ok_cache: "withdrawals_ok x m \<Longrightarrow> withdrawals_ok x (cache_withdrawals x w m)"
  by (auto simp: cache_withdrawals_def withdrawals_ok_def map_of_update_other split: option.splits)

lemma hydrate_withdrawals_cache:
  "snd (snd (hydrate_withdrawals x s m)) =
     (if ds_withdrawals_ref s = 0 \<and> ep_withdrawals (ds_execution_payload s) \<noteq> []
      then cache_withdrawals x (ep_withdrawals (ds_execution_payload s)) m else m)"
  by (simp add: hydrate_withdrawals_def Let_def split: option.splits)

text \<open>A failed resolution still leaves every cached transaction under its own key.\<close>

lemma hydrate_txs_keeps:
  "txs_ok x txs \<Longrightarrow> txs_ok x (snd (snd (snd (hydrate_txs x i refs full txs))))"
proof (induction refs arbitrary: i full txs)
  case Nil
  then show ?case by simp
next
  case (Cons r refs)
  show ?case using Cons.prems
    by (auto simp: Cons.IH txs_ok_put Let_def case_prod_beta not_less split: list.splits option.splits)
qed

lemma hydrate_inner_cache_ok:
  assumes "cache_ok x c" "hydrate_inner x n s c = Some (r, c')"
  shows "cache_ok x c'"
proof -
  obtain w e1 ws' where w: "hydrate_withdrawals x s (hc_withdrawals c) = (w, e1, ws')" by (metis prod_cases3)
  obtain ts hits e2 txs' where t: "hydrate_txs x 0 (ds_tx_refs s) (ep_transactions (ds_execution_payload s))
      (hc_transactions c) = (ts, hits, e2, txs')" by (metis prod_cases4)
  obtain ks e3 bs' where b: "cache_new_items x 0 (db_new_items (ds_blobs_bundle s)) (hc_blobs_fulu c)
      = (ks, e3, bs')" by (metis prod_cases3)
  have ok: "withdrawals_ok x ws'" "txs_ok x txs'" "blobs_ok x bs'"
    using assms(1) hydrate_withdrawals_cache [of x s "hc_withdrawals c"] withdrawals_ok_cache
      hydrate_txs_keeps [of x "hc_transactions c" 0 "ds_tx_refs s" "ep_transactions (ds_execution_payload s)"]
      cache_new_items_blobs_ok [OF b] w t
    by (simp_all add: cache_ok_def split: if_splits)
  have "hc_withdrawals c' = ws' \<and> hc_transactions c' = txs' \<and>
      (hc_blobs_fulu c' = bs' \<or> hc_blobs_fulu c' = hc_blobs_fulu c)"
    using assms(2) w t b
    by (simp add: hydrate_inner_def Let_def split: if_splits option.splits sum.splits)
      (elim conjE; hypsubst; simp)+
  then show ?thesis using ok assms(1) by (auto simp: cache_ok_def)
qed

lemma hydrate_blobs_total:
  "length (bb_commitments sc) + length refs \<le> max_blob_commitments_per_block x \<Longrightarrow>
   hydrate_blobs x i refs ks blobs sc \<noteq> None"
  by (induction refs arbitrary: i ks sc) (auto split: option.splits list.splits)

lemma hydrate_inner_total:
  assumes "n \<le> max_blob_commitments_per_block x"
  shows "hydrate_inner x n s c \<noteq> None"
proof -
  have "\<not> n < length (db_refs (ds_blobs_bundle s)) \<Longrightarrow>
      hydrate_blobs x 0 (db_refs (ds_blobs_bundle s)) ks blobs
        \<lparr>bb_commitments = [], bb_proofs = [], bb_blobs = []\<rparr> \<noteq> None" for ks blobs
    using assms by (intro hydrate_blobs_total) simp
  then show ?thesis
    by (simp add: hydrate_inner_def Let_def case_prod_beta later_err_def
        split: option.splits sum.splits) (metis option.distinct(1))
qed

lemma feed_txs_ok:
  "txs_ok x m \<Longrightarrow> txs_ok x (fold (\<lambda>tx m. if length tx \<ge> TX_KEY_SIZE
     then AList.update (tx_cache_key x tx) tx m else m) txs m)"
  by (induction txs arbitrary: m) (simp_all add: txs_ok_put)

lemma feed_blobs_ok:
  "blobs_ok x m \<Longrightarrow> blobs_ok x (fold (\<lambda>b m. if length (bi_proof b) \<noteq> cells_per_ext_blob x then m
     else AList.update (blob_cache_key x (bi_commitment b)) (bi_commitment b, bi_proof b, bi_blob b) m) bs m)"
  by (induction bs arbitrary: m) (simp_all add: blobs_ok_put)

lemma feed_inner_ok: "cache_ok x c \<Longrightarrow> cache_ok x (feed_inner x s c)"
  by (simp add: cache_ok_def feed_inner_def Let_def feed_txs_ok feed_blobs_ok withdrawals_ok_cache)

lemma cache_for_clear: "cache_ok x (cache_for (hydration_clear h) k)"
proof -
  have "map_of (hydration_clear h) k = map_option Cache_clear (map_of h k)"
    by (induction h) (auto simp: hydration_clear_def)
  then show ?thesis
    by (auto simp: cache_for_def cache_ok_def Cache_clear_def Cache_new_def txs_ok_def blobs_ok_def
        withdrawals_ok_def split: option.splits)
qed

lemma hydrate_Some:
  "hydrate x n s h = Some (r, h') \<longleftrightarrow>
     (\<exists>c. hydrate_inner x n s (cache_for h (bt_builder_pubkey (ds_message s))) = Some (r, c) \<and>
       h' = AList.update (bt_builder_pubkey (ds_message s)) c h)"
  by (auto simp: hydrate_def Let_def)

lemma hydration_step_ok:
  assumes "hydration_ok x h" "hydration_step x e h = Some h'"
  shows "hydration_ok x h'"
proof (cases e)
  case (HydrateOp n s)
  then obtain r c where "hydrate_inner x n s (cache_for h (bt_builder_pubkey (ds_message s))) = Some (r, c)"
      "h' = AList.update (bt_builder_pubkey (ds_message s)) c h"
    using assms(2) by (auto simp: hydrate_Some)
  then show ?thesis using assms(1) by (auto simp: hydration_ok_def cache_for_update
        intro: hydrate_inner_cache_ok [rotated])
next
  case (FeedOp s)
  then show ?thesis using assms by (auto simp: hydration_ok_def feed_def Let_def cache_for_update feed_inner_ok)
next
  case ClearOp
  then show ?thesis using assms by (auto simp: hydration_ok_def cache_for_clear)
qed

interpretation hydration: total_machine "hydration_step x" "within_limit x" "hydration_ok x" for x
proof unfold_locales
  show "hydration_ok x h'" if "hydration_ok x h" "hydration_step x e h = Some h'" for h e h'
    using that by (rule hydration_step_ok)
  show "hydration_step x e h \<noteq> None" if "within_limit x e" for h e
    using that hydrate_inner_total by (cases e) (auto simp: hydrate_def Let_def)
qed

lemma fold_tx_entry:
  "\<forall>tx \<in> set txs. TX_KEY_SIZE \<le> length tx \<Longrightarrow>
   fold (\<lambda>tx m. if length tx \<ge> TX_KEY_SIZE then AList.update (tx_cache_key x tx) tx m else m) txs m =
   put_all (map (tx_entry x) txs) m"
  by (induction txs arbitrary: m) (simp_all add: tx_entry_def)

lemma fold_blob_entry:
  "\<forall>b \<in> set bs. length (bi_proof b) = cells_per_ext_blob x \<Longrightarrow>
   fold (\<lambda>b m. if length (bi_proof b) \<noteq> cells_per_ext_blob x then m
     else AList.update (blob_cache_key x (bi_commitment b)) (bi_commitment b, bi_proof b, bi_blob b) m) bs m =
   put_all (map (blob_entry x) bs) m"
  by (induction bs arbitrary: m) (simp_all add: blob_entry_def)

section \<open>Properties\<close>

text \<open>C19. A dehydrated submission that passes \<open>can_hydrate\<close> does hydrate: with the fork's blob limit
  below the SSZ list limit the call returns (no panic on the full commitment list) and returns a
  submission, not an error.  Its message, signature and requests are those sent, it has one
  transaction per reference, and its blob bundle passes the bundle length check.\<close>

theorem can_hydrate_hydrates:
  assumes "can_hydrate x h n s" "n \<le> max_blob_commitments_per_block x"
  shows "\<exists>d h'. hydrate x n s h = Some (Inr d, h') \<and> sf_message (hd_submission d) = ds_message s \<and>
    length (ep_transactions (sf_execution_payload (hd_submission d))) = length (ds_tx_refs s) \<and>
    blobs_validate_ssz_lengths x (sf_blobs_bundle (hd_submission d)) n = Inr ()"
  using hydrate_inner_ok [OF assms(1) [unfolded can_hydrate_def] assms(2)]
  unfolding hydrate_Some by blast

theorem can_hydrate_hydrates_witness:
  "\<exists>d h'. hydrate sample_externals 6 (sample_dehydrated [0, 9] [replicate 67 1])
       (feed sample_externals (sample_dehydrated [0] [replicate 67 1]) []) = Some (Inr d, h') \<and>
    length (ep_transactions (sf_execution_payload (hd_submission d))) = 2"
proof -
  have "can_hydrate sample_externals
      (feed sample_externals (sample_dehydrated [0] [replicate 67 1]) []) 6
      (sample_dehydrated [0, 9] [replicate 67 1])"
    by (simp add: can_hydrate_def cache_for_def feed_def feed_inner_def can_hydrate_inner_def
        sample_dehydrated_def sample_externals_def sample_trace_def Cache_new_def NEXT_FULL_ITEM_def
        TX_KEY_SIZE_def next_full_refs_def tx_cache_key_def Let_def payload_validate_ssz_lengths_def
        ensure_def)
  moreover have "6 \<le> max_blob_commitments_per_block sample_externals"
    "length (ds_tx_refs (sample_dehydrated [0, 9] [replicate 67 1])) = 2"
    by (simp_all add: sample_externals_def sample_dehydrated_def)
  ultimately show ?thesis using can_hydrate_hydrates by metis
qed



text \<open>C21. Through any sequence of hydrations (successful or not), feeds and clears starting from the empty
  cache, no operation panics and every builder's cache stays readable: each transaction, blob and
  list of withdrawals is stored under its own key, cached blobs have the proofs of all their cells
  and cached roots are the roots of the cached withdrawals.\<close>

theorem hydration_never_panics:
  assumes "\<forall>e \<in> set es. within_limit x e"
  shows "\<exists>h. run (hydration_step x) es [] = Some h \<and> (\<forall>k. cache_ok x (cache_for h k))"
  using hydration.run_total [OF _ assms, of "[]"] by (simp add: hydration_ok_def cache_for_def)

theorem hydration_never_panics_witness:
  "\<exists>h. run (hydration_step sample_externals)
      [FeedOp (sample_dehydrated [0] [replicate 67 1]), HydrateOp 6 (sample_dehydrated [4] []), ClearOp] [] = Some h \<and>
    cache_ok sample_externals (cache_for h 1)"
proof -
  have "6 \<le> max_blob_commitments_per_block sample_externals" by (simp add: sample_externals_def)
  then show ?thesis
    using hydration_never_panics [of "[FeedOp (sample_dehydrated [0] [replicate 67 1]),
      HydrateOp 6 (sample_dehydrated [4] []), ClearOp]" sample_externals]
    by (simp del: run.simps) blast
qed



end
