(* ===== verification/Sim_Request.thy ===== *)
theory Sim_Request
  imports Byte_Codec Auctioneer_Types
begin

text \<open>
  Talking to a block simulator (\<open>crates/common/src/simulator.rs\<close> and
  \<open>crates/relay/src/simulator/client.rs\<close>): the errors a simulation can end in and what the relay
  concludes from them, the SSZ request bodies, the choice of endpoint for a fork, and the reading
  of a simulator's answer.

  The SSZ encodings of the inclusion list, the decoder parameters and the submission are derived
  by a library and are a parameter (\<open>ssz_codec\<close>); so is the decoder of the answer's body.  An
  HTTP exchange is its outcome: a transport failure, or a status with the body as read.
\<close>

section \<open>Simulation errors\<close>

datatype BlockSimError =
    BlockValidationFailed string
  | InvalidTxRoot B256 B256
  | Timeout
  | RpcError
  | SendError
  | NoSimulatorAvailable
  | SimulationDropped
  | HydrationMiss
  | RelayHydrationFailed
  | UnsupportedFork ForkName
  | PayloadTooLarge

definition UNKNOWN_ANCESTOR :: string where "UNKNOWN_ANCESTOR = ''unknown ancestor''"
definition PARENT_NOT_FOUND :: string where "PARENT_NOT_FOUND = ''parent block not found''"
definition MISSING_TRIE_NODE :: string where "MISSING_TRIE_NODE = ''missing trie node''"
definition BLOCK_ALREADY_KNOWN :: string where "BLOCK_ALREADY_KNOWN = ''block already known''"
definition BLOCK_TOO_OLD :: string where
  "BLOCK_TOO_OLD = ''block is too old, outside validation window''"
definition BLOCK_REQ_REORG :: string where "BLOCK_REQ_REORG = ''block requires a reorg''"
definition PARENT_BLOCK_NOT_FOUND :: string where
  "PARENT_BLOCK_NOT_FOUND = ''could not find parent block: parent block not found''"
definition NO_STATE_FOR_BLOCK :: string where "NO_STATE_FOR_BLOCK = ''no state found for block''"
definition MISSING_PARENT_STATE :: string where
  "MISSING_PARENT_STATE = ''parent state is not available''"

definition starts_with_ignore_ascii_case :: "string \<Rightarrow> string \<Rightarrow> bool" where
  "starts_with_ignore_ascii_case s prefix =
     (length prefix \<le> length s \<and> eq_ignore_ascii_case (take (length prefix) s) prefix)"

fun is_temporary :: "BlockSimError \<Rightarrow> bool" where
  "is_temporary (BlockValidationFailed reason) =
     (list_ex (eq_ignore_ascii_case reason)
        [UNKNOWN_ANCESTOR, PARENT_NOT_FOUND, PARENT_BLOCK_NOT_FOUND, BLOCK_REQ_REORG,
         MISSING_PARENT_STATE] \<or>
      starts_with_ignore_ascii_case reason MISSING_TRIE_NODE \<or>
      starts_with_ignore_ascii_case reason NO_STATE_FOR_BLOCK)"
| "is_temporary Timeout = True"
| "is_temporary RpcError = True"
| "is_temporary SimulationDropped = True"
| "is_temporary NoSimulatorAvailable = True"
| "is_temporary (UnsupportedFork _) = True"
| "is_temporary RelayHydrationFailed = True"
| "is_temporary PayloadTooLarge = True"
| "is_temporary _ = False"

fun is_sim_fault :: "BlockSimError \<Rightarrow> bool" where
  "is_sim_fault (BlockValidationFailed reason) = starts_with_ignore_ascii_case reason MISSING_TRIE_NODE"
| "is_sim_fault Timeout = True"
| "is_sim_fault RpcError = True"
| "is_sim_fault _ = False"

fun is_already_known :: "BlockSimError \<Rightarrow> bool" where
  "is_already_known (BlockValidationFailed reason) = eq_ignore_ascii_case reason BLOCK_ALREADY_KNOWN"
| "is_already_known _ = False"

fun is_too_old :: "BlockSimError \<Rightarrow> bool" where
  "is_too_old (BlockValidationFailed reason) = eq_ignore_ascii_case reason BLOCK_TOO_OLD"
| "is_too_old _ = False"

definition is_demotable :: "BlockSimError \<Rightarrow> bool" where
  "is_demotable e \<longleftrightarrow> \<not> is_already_known e \<and> \<not> is_temporary e \<and> \<not> is_too_old e"

definition is_merge_builder_fault :: "BlockSimError \<Rightarrow> bool" where
  "is_merge_builder_fault e \<longleftrightarrow>
     is_demotable e \<and> e \<noteq> SendError \<and> e \<noteq> SimulationDropped \<and> e \<noteq> HydrationMiss"

text \<open>The metric label of a simulation.\<close>

definition sim_outcome :: "BlockSimError option \<Rightarrow> string" where
  "sim_outcome err = (case err of
     None \<Rightarrow> ''valid''
   | Some e \<Rightarrow> if e = PayloadTooLarge then ''too_large''
               else if is_sim_fault e then ''sim_fault''
               else if is_temporary e then ''temporary'' else ''invalid'')"

section \<open>SSZ request bodies\<close>

record 's ssz_codec =
  il_ssz :: "InclusionList \<Rightarrow> bytes"
  params_ssz :: "SubmissionDecoderParams option \<Rightarrow> bytes"
  submission_ssz :: "'s \<Rightarrow> bytes"

record 's SszValidationRequestRef =
  sv_apply_blacklist :: bool
  sv_registered_gas_limit :: u64
  sv_parent_beacon_block_root :: B256
  sv_inclusion_list :: InclusionList
  sv_decoder_params :: "SubmissionDecoderParams option"
  sv_signed_bid_submission :: 's

definition encode_length :: "nat \<Rightarrow> bytes" where
  "encode_length n = le_of_nat 4 n"

definition bool_ssz :: "bool \<Rightarrow> bytes" where
  "bool_ssz b = [if b then 1 else 0]"

definition FIXED_LEN :: nat where
  "FIXED_LEN = 1 + 8 + 32 + 3 * 4"

definition append_with ::
  "'s ssz_codec \<Rightarrow> 's SszValidationRequestRef \<Rightarrow> bytes \<Rightarrow> bytes \<Rightarrow> bytes" where
  "append_with c r extra_fixed buf =
     (let il = il_ssz c (sv_inclusion_list r);
          dp = params_ssz c (sv_decoder_params r);
          offset1 = FIXED_LEN + length extra_fixed;
          offset2 = offset1 + length il;
          offset3 = offset2 + length dp
      in buf @ bool_ssz (sv_apply_blacklist r) @ u64_to_le (sv_registered_gas_limit r) @
         fixed_bytes 32 (sv_parent_beacon_block_root r) @ encode_length offset1 @
         encode_length offset2 @ encode_length offset3 @ extra_fixed @ il @ dp @
         submission_ssz c (sv_signed_bid_submission r))"

definition bytes_len_with :: "'s ssz_codec \<Rightarrow> 's SszValidationRequestRef \<Rightarrow> nat \<Rightarrow> nat" where
  "bytes_len_with c r extra_fixed =
     FIXED_LEN + extra_fixed + length (il_ssz c (sv_inclusion_list r)) +
     length (params_ssz c (sv_decoder_params r)) +
     length (submission_ssz c (sv_signed_bid_submission r))"

definition request_ssz :: "'s ssz_codec \<Rightarrow> 's SszValidationRequestRef \<Rightarrow> bytes" where
  "request_ssz c r = append_with c r [] []"

definition merged_request_ssz :: "'s ssz_codec \<Rightarrow> 's SszValidationRequestRef \<Rightarrow> u64 \<Rightarrow> bytes" where
  "merged_request_ssz c r base_payment_tx_index = append_with c r (u64_to_le base_payment_tx_index) []"

definition plain_params :: "ForkName \<Rightarrow> SubmissionDecoderParams" where
  "plain_params fork =
     \<lparr>dp_compression = NoCompression, dp_encoding = Ssz, dp_merge_type = NoMerge,
      dp_is_dehydrated = False, dp_dehydrated_v2 = False, dp_merging_v2 = False,
      dp_with_mergeable_data = False, dp_with_adjustments = False,
      dp_mark_all_txs_mergeable = False, dp_fork_name = fork\<rparr>"

definition ssz_request ::
  "SignedBidSubmission ssz_codec \<Rightarrow> bool \<Rightarrow> u64 \<Rightarrow> B256 \<Rightarrow> InclusionList \<Rightarrow> SignedBidSubmission \<Rightarrow> bytes" where
  "ssz_request c apply_blacklist gas_limit root il submission =
     request_ssz c
       \<lparr>sv_apply_blacklist = apply_blacklist, sv_registered_gas_limit = gas_limit,
        sv_parent_beacon_block_root = root, sv_inclusion_list = il,
        sv_decoder_params = (case submission of SignedFulu _ \<Rightarrow> None
                             | SignedGloas _ \<Rightarrow> Some (plain_params Gloas)),
        sv_signed_bid_submission = submission\<rparr>"

text \<open>The encoding of an SSZ container: the fixed-length fields and the offsets of the others in
  order, then the variable-length fields.\<close>

datatype SszField = Fixed bytes | Variable bytes

fun head_len :: "SszField \<Rightarrow> nat" where
  "head_len (Fixed b) = length b"
| "head_len (Variable _) = 4"

fun ssz_head :: "nat \<Rightarrow> SszField list \<Rightarrow> bytes" where
  "ssz_head offset [] = []"
| "ssz_head offset (Fixed b # fs) = b @ ssz_head offset fs"
| "ssz_head offset (Variable b # fs) = encode_length offset @ ssz_head (offset + length b) fs"

fun ssz_tail :: "SszField list \<Rightarrow> bytes" where
  "ssz_tail [] = []"
| "ssz_tail (Fixed b # fs) = ssz_tail fs"
| "ssz_tail (Variable b # fs) = b @ ssz_tail fs"

definition ssz_container :: "SszField list \<Rightarrow> bytes" where
  "ssz_container fs = ssz_head (sum_list (map head_len fs)) fs @ ssz_tail fs"

text \<open>The fields of \<open>SszValidationRequest\<close> in declaration order.\<close>

definition request_fields :: "'s ssz_codec \<Rightarrow> 's SszValidationRequestRef \<Rightarrow> SszField list" where
  "request_fields c r =
     [Fixed (bool_ssz (sv_apply_blacklist r)), Fixed (u64_to_le (sv_registered_gas_limit r)),
      Fixed (fixed_bytes 32 (sv_parent_beacon_block_root r)),
      Variable (il_ssz c (sv_inclusion_list r)), Variable (params_ssz c (sv_decoder_params r)),
      Variable (submission_ssz c (sv_signed_bid_submission r))]"

section \<open>The simulator client\<close>

record SimulatorConfig =
  scf_url :: string
  scf_namespace :: string
  scf_max_concurrent_tasks :: nat
  scf_ssz_url :: "string option"

record SimulatorClient =
  cl_config :: SimulatorConfig
  cl_sim_method_v4 :: string
  cl_sim_method_v5 :: string
  cl_sim_method_merged_v5 :: string
  cl_ssz_url :: "string option"

definition SimulatorClient_new :: "SimulatorConfig \<Rightarrow> SimulatorClient" where
  "SimulatorClient_new config =
     \<lparr>cl_config = config,
      cl_sim_method_v4 = scf_namespace config @ ''_validateBuilderSubmissionV4'',
      cl_sim_method_v5 = scf_namespace config @ ''_validateBuilderSubmissionV5'',
      cl_sim_method_merged_v5 = scf_namespace config @ ''_validateMergedBuilderSubmissionV5'',
      cl_ssz_url = scf_ssz_url config\<rparr>"

text \<open>A request builder is the URL it posts to.\<close>

definition ssz_request_builder :: "SimulatorClient \<Rightarrow> ForkName \<Rightarrow> string option" where
  "ssz_request_builder c fork =
     (if fork \<noteq> Fulu \<and> fork \<noteq> Gloas then None
      else map_option (\<lambda>url. url @ ''/validate'') (cl_ssz_url c))"

definition ssz_merged_request_builder :: "SimulatorClient \<Rightarrow> string option" where
  "ssz_merged_request_builder c = map_option (\<lambda>url. url @ ''/validate_merged'') (cl_ssz_url c)"

definition sim_request_builder :: "SimulatorClient \<Rightarrow> ForkName \<Rightarrow> (string \<times> string) option" where
  "sim_request_builder c fork =
     (case fork of
        Fulu \<Rightarrow> Some (scf_url (cl_config c), cl_sim_method_v5 c)
      | Bellatrix \<Rightarrow> Some (scf_url (cl_config c), cl_sim_method_v4 c)
      | Capella \<Rightarrow> Some (scf_url (cl_config c), cl_sim_method_v4 c)
      | Deneb \<Rightarrow> Some (scf_url (cl_config c), cl_sim_method_v4 c)
      | Electra \<Rightarrow> Some (scf_url (cl_config c), cl_sim_method_v4 c)
      | _ \<Rightarrow> None)"

definition merged_sim_request_builder :: "SimulatorClient \<Rightarrow> string \<times> string" where
  "merged_sim_request_builder c = (scf_url (cl_config c), cl_sim_method_merged_v5 c)"

record TxDetail =
  td_hash :: B256
  td_sender :: Address
  td_nonce :: u64
  td_to :: "Address option"
  td_builder_payment :: U256

text \<open>The body and the text of an answer are \<^const>\<open>None\<close> when reading them fails.\<close>

datatype SszHttp = SendFailed | HttpStatus nat "bytes option" "string option"

definition validation_tx_details :: "(bytes \<Rightarrow> TxDetail list option) \<Rightarrow> bytes \<Rightarrow> TxDetail list" where
  "validation_tx_details decode body =
     (if body = [] then [] else case decode body of Some txs \<Rightarrow> txs | None \<Rightarrow> [])"

definition do_sim_request ::
  "(bytes \<Rightarrow> TxDetail list option) \<Rightarrow> SszHttp \<Rightarrow> (BlockSimError, TxDetail list) Result" where
  "do_sim_request decode res =
     (case res of
        SendFailed \<Rightarrow> Inl RpcError
      | HttpStatus status body msg \<Rightarrow>
          if status = 200 then
            (case body of Some b \<Rightarrow> Inr (validation_tx_details decode b) | None \<Rightarrow> Inr [])
          else if status = 400 then
            Inl (BlockValidationFailed (case msg of Some t \<Rightarrow> t | None \<Rightarrow> []))
          else if status = 413 then Inl PayloadTooLarge
          else if status = 424 then Inl HydrationMiss
          else Inl RpcError)"

text \<open>A JSON-RPC exchange fails, or answers with or without an error message.\<close>

datatype RpcHttp = RpcFailed | RpcAnswer "string option"

definition do_json_sim_request :: "RpcHttp \<Rightarrow> (BlockSimError, unit) Result" where
  "do_json_sim_request res =
     (case res of
        RpcFailed \<Rightarrow> Inl RpcError
      | RpcAnswer (Some message) \<Rightarrow> Inl (BlockValidationFailed message)
      | RpcAnswer None \<Rightarrow> Inr ())"

datatype JsonValue = JsonBool bool | JsonOther

text \<open>The \<open>result\<close> of \<open>eth_syncing\<close>; \<^const>\<open>None\<close> when the exchange failed.\<close>

definition is_synced_answer :: "JsonValue option \<Rightarrow> bool option" where
  "is_synced_answer res = map_option (\<lambda>v. v = JsonBool False) res"

section \<open>Properties\<close>

lemma FIXED_LEN_eq: "FIXED_LEN = 53"
  by (simp add: FIXED_LEN_def)

text \<open>C30. The borrowed encoders write the same bytes as the SSZ container encoding of the owned requests,
  for a plain request and for a merged one, whose extra index is declared after the submission and
  still precedes every variable part; and the length they announce is the length they write.\<close>

theorem borrowed_request_encodes_like_owned:
  "request_ssz c r = ssz_container (request_fields c r) \<and>
   merged_request_ssz c r i = ssz_container (request_fields c r @ [Fixed (u64_to_le i)]) \<and>
   bytes_len_with c r 0 = length (request_ssz c r) \<and>
   bytes_len_with c r 8 = length (merged_request_ssz c r i)"
  by (simp add: request_ssz_def merged_request_ssz_def append_with_def ssz_container_def
      request_fields_def bytes_len_with_def Let_def FIXED_LEN_eq encode_length_def bool_ssz_def ac_simps)



end
