(* ===== verification/Sim_Entry.thy ===== *)
theory Sim_Entry
  imports Sim_Request
begin

text \<open>
  One simulator of the pool (\<open>crates/relay/src/simulator/mod.rs\<close>, \<open>SimEntry\<close>): its sync state, its
  circuit breaker and its adaptive concurrency limit.  An instant is a number of nanoseconds, and
  so is a duration; \<open>now\<close> is the argument that stands for \<open>Instant::now()\<close>.
\<close>

section \<open>Constants\<close>

definition MILLIS :: nat where "MILLIS = 1000000"
definition SECS :: nat where "SECS = 1000 * MILLIS"
definition LATENCY_TARGET :: nat where "LATENCY_TARGET = 500 * MILLIS"
definition MIN_LIMIT :: nat where "MIN_LIMIT = 1"
definition DECREASE_FLOOR :: nat where "DECREASE_FLOOR = 4"
definition DECREASE_WINDOW :: nat where "DECREASE_WINDOW = 250 * MILLIS"
definition UTILIZATION_SCALE :: nat where "UTILIZATION_SCALE = 1000"
definition SIM_FAULTS_TO_OPEN :: nat where "SIM_FAULTS_TO_OPEN = 3"
definition OPTIMISTIC_GRACE :: nat where "OPTIMISTIC_GRACE = 30 * SECS"
definition BREAKER_BACKOFF_START :: nat where "BREAKER_BACKOFF_START = 12 * SECS"
definition BREAKER_BACKOFF_MAX :: nat where "BREAKER_BACKOFF_MAX = 60 * SECS"
definition SYNC_FAILURES_TO_UNSYNC :: nat where "SYNC_FAILURES_TO_UNSYNC = 3"
definition USIZE_MAX :: nat where "USIZE_MAX = 2 ^ 64 - 1"

section \<open>State\<close>

datatype Breaker = Closed | Open nat nat

datatype SimHealth = HealthOk | HealthProbe | HealthOpen | HealthUnsynced

fun health_label :: "SimHealth \<Rightarrow> string" where
  "health_label HealthOk = ''ok''"
| "health_label HealthProbe = ''probe''"
| "health_label HealthOpen = ''open''"
| "health_label HealthUnsynced = ''unsynced''"

fun health_gauge :: "SimHealth \<Rightarrow> nat" where
  "health_gauge HealthOk = 0"
| "health_gauge HealthProbe = 1"
| "health_gauge HealthOpen = 2"
| "health_gauge HealthUnsynced = 3"

record SimEntry =
  se_client :: SimulatorClient
  se_is_synced :: bool
  se_breaker :: Breaker
  se_last_success :: "nat option"
  se_limit :: nat
  se_faults :: nat
  se_sync_failures :: nat
  se_last_decrease :: "nat option"
  se_pending :: nat

definition SimEntry_new :: "SimulatorClient \<Rightarrow> SimEntry" where
  "SimEntry_new client =
     \<lparr>se_client = client, se_is_synced = False, se_breaker = Closed, se_last_success = None,
      se_limit = max (scf_max_concurrent_tasks (cl_config client)) MIN_LIMIT, se_faults = 0,
      se_sync_failures = 0, se_last_decrease = None, se_pending = 0\<rparr>"

definition ceiling :: "SimEntry \<Rightarrow> nat" where
  "ceiling s = max (scf_max_concurrent_tasks (cl_config (se_client s))) MIN_LIMIT"

definition floor_limit :: "SimEntry \<Rightarrow> nat" where
  "floor_limit s = min DECREASE_FLOOR (ceiling s)"

definition decrease :: "nat \<Rightarrow> SimEntry \<Rightarrow> SimEntry" where
  "decrease now s =
     (if (case se_last_decrease s of Some at \<Rightarrow> now - at < DECREASE_WINDOW | None \<Rightarrow> False) then s
      else s\<lparr>se_last_decrease := Some now,
             se_limit := max (min (se_limit s * 4 div 5) (se_limit s - 1)) (floor_limit s)\<rparr>)"

definition effective_limit :: "nat \<Rightarrow> SimEntry \<Rightarrow> nat" where
  "effective_limit now s =
     (case se_breaker s of
        Closed \<Rightarrow> se_limit s
      | Open until backoff \<Rightarrow> if now < until then 0 else 1)"

definition answered_recently :: "nat \<Rightarrow> SimEntry \<Rightarrow> bool" where
  "answered_recently now s =
     (case se_last_success s of Some at \<Rightarrow> now - at < OPTIMISTIC_GRACE | None \<Rightarrow> False)"

definition can_simulate_light :: "nat \<Rightarrow> SimEntry \<Rightarrow> bool" where
  "can_simulate_light now s \<longleftrightarrow> se_is_synced s \<and> (se_breaker s = Closed \<or> answered_recently now s)"

definition can_simulate_at :: "nat \<Rightarrow> SimEntry \<Rightarrow> bool" where
  "can_simulate_at now s \<longleftrightarrow> se_is_synced s \<and> se_pending s < effective_limit now s"

definition health :: "nat \<Rightarrow> SimEntry \<Rightarrow> SimHealth" where
  "health now s =
     (if \<not> se_is_synced s then HealthUnsynced
      else if effective_limit now s = 0 then HealthOpen
      else if effective_limit now s = 1 \<and> se_breaker s \<noteq> Closed then HealthProbe
      else HealthOk)"

definition utilization :: "nat \<Rightarrow> SimEntry \<Rightarrow> nat" where
  "utilization now s =
     (if effective_limit now s = 0 then USIZE_MAX
      else se_pending s * UTILIZATION_SCALE div effective_limit now s)"

definition record_success :: "nat \<Rightarrow> nat \<Rightarrow> SimEntry \<Rightarrow> SimEntry" where
  "record_success elapsed now s =
     (let s1 = s\<lparr>se_faults := 0, se_breaker := Closed, se_last_success := Some now\<rparr> in
      if elapsed \<le> LATENCY_TARGET then s1\<lparr>se_limit := min (se_limit s1 + 1) (ceiling s1)\<rparr>
      else decrease now s1)"

definition next_breaker :: "nat \<Rightarrow> SimEntry \<Rightarrow> Breaker" where
  "next_breaker now s =
     (case se_breaker s of
        Open until backoff \<Rightarrow>
          (let backoff' = min (backoff * 2) BREAKER_BACKOFF_MAX in Open (now + backoff') backoff')
      | Closed \<Rightarrow>
          if se_faults s \<ge> SIM_FAULTS_TO_OPEN
          then Open (now + BREAKER_BACKOFF_START) BREAKER_BACKOFF_START else Closed)"

definition record_failure :: "BlockSimError \<Rightarrow> nat \<Rightarrow> SimEntry \<Rightarrow> SimEntry" where
  "record_failure err now s =
     (if \<not> is_sim_fault err then s
      else (let s1 = decrease now (s\<lparr>se_faults := se_faults s + 1\<rparr>)
            in s1\<lparr>se_breaker := next_breaker now s1\<rparr>))"

definition record_sync :: "bool option \<Rightarrow> SimEntry \<Rightarrow> SimEntry" where
  "record_sync reported s =
     (case reported of
        Some synced \<Rightarrow> s\<lparr>se_sync_failures := 0, se_is_synced := synced\<rparr>
      | None \<Rightarrow>
          (let s1 = s\<lparr>se_sync_failures := se_sync_failures s + 1\<rparr> in
           if se_sync_failures s1 \<ge> SYNC_FAILURES_TO_UNSYNC then s1\<lparr>se_is_synced := False\<rparr> else s1))"

section \<open>Invariant\<close>

text \<open>The limit stays between the floor and the configured ceiling, no more tasks are pending than
  the ceiling, and an open breaker backs off for at least the start and at most the maximal time;
  a closed one has seen fewer faults than open it.\<close>

definition breaker_ok :: "SimEntry \<Rightarrow> bool" where
  "breaker_ok s = (case se_breaker s of
     Closed \<Rightarrow> se_faults s < SIM_FAULTS_TO_OPEN
   | Open until backoff \<Rightarrow> BREAKER_BACKOFF_START \<le> backoff \<and> backoff \<le> BREAKER_BACKOFF_MAX)"

definition entry_ok :: "SimEntry \<Rightarrow> bool" where
  "entry_ok s \<longleftrightarrow> floor_limit s \<le> se_limit s \<and> se_limit s \<le> ceiling s \<and> se_pending s \<le> ceiling s \<and>
     breaker_ok s"

text \<open>What happens to one simulator.\<close>

datatype EntryOp =
    StartTask nat
  | AnswerOk nat nat
  | AnswerErr BlockSimError nat
  | AnswerUncounted nat
  | SyncPoll "bool option"

fun finish_task :: "SimEntry \<Rightarrow> SimEntry" where
  "finish_task s = s\<lparr>se_pending := se_pending s - 1\<rparr>"

fun entry_step :: "EntryOp \<Rightarrow> SimEntry \<Rightarrow> SimEntry option" where
  "entry_step (StartTask now) s =
     Some (if can_simulate_at now s then s\<lparr>se_pending := se_pending s + 1\<rparr> else s)"
| "entry_step (AnswerOk elapsed now) s = Some (record_success elapsed now (finish_task s))"
| "entry_step (AnswerErr err now) s = Some (record_failure err now (finish_task s))"
| "entry_step (AnswerUncounted now) s = Some (finish_task s)"
| "entry_step (SyncPoll reported) s = Some (record_sync reported s)"

section \<open>Lemmas\<close>

lemma ceiling_update [simp]:
  "ceiling (s\<lparr>se_pending := p\<rparr>) = ceiling s" "ceiling (s\<lparr>se_limit := l\<rparr>) = ceiling s"
  "ceiling (s\<lparr>se_faults := f\<rparr>) = ceiling s" "ceiling (s\<lparr>se_breaker := b\<rparr>) = ceiling s"
  "ceiling (s\<lparr>se_last_success := t\<rparr>) = ceiling s" "ceiling (s\<lparr>se_last_decrease := t\<rparr>) = ceiling s"
  "ceiling (s\<lparr>se_sync_failures := n\<rparr>) = ceiling s" "ceiling (s\<lparr>se_is_synced := y\<rparr>) = ceiling s"
  by (simp_all add: ceiling_def)

lemma breaker_ok_update [simp]:
  "breaker_ok (s\<lparr>se_pending := p\<rparr>) = breaker_ok s" "breaker_ok (s\<lparr>se_limit := l\<rparr>) = breaker_ok s"
  "breaker_ok (s\<lparr>se_sync_failures := n\<rparr>) = breaker_ok s" "breaker_ok (s\<lparr>se_is_synced := y\<rparr>) = breaker_ok s"
  by (simp_all add: breaker_ok_def split: Breaker.splits)

lemma ceiling_pos: "1 \<le> ceiling s" by (simp add: ceiling_def MIN_LIMIT_def)

lemma floor_le_ceiling: "floor_limit s \<le> ceiling s" by (simp add: floor_limit_def)

lemma floor_pos: "1 \<le> floor_limit s"
  using ceiling_pos [of s] by (simp add: floor_limit_def DECREASE_FLOOR_def)

text \<open>Decreasing keeps everything but the limit and its time stamp, and keeps the limit in range.\<close>

lemma decrease_frame [simp]:
  "se_pending (decrease now s) = se_pending s" "se_breaker (decrease now s) = se_breaker s"
  "se_faults (decrease now s) = se_faults s" "se_client (decrease now s) = se_client s"
  "se_is_synced (decrease now s) = se_is_synced s" "se_last_success (decrease now s) = se_last_success s"
  "se_sync_failures (decrease now s) = se_sync_failures s"
  by (simp_all add: decrease_def)

lemma ceiling_decrease [simp]: "ceiling (decrease now s) = ceiling s"
  by (simp add: ceiling_def)

lemma floor_decrease [simp]: "floor_limit (decrease now s) = floor_limit s"
  by (simp add: floor_limit_def)

lemma decrease_limit:
  assumes "se_limit s \<le> ceiling s" "floor_limit s \<le> se_limit s"
  shows "se_limit (decrease now s) \<le> se_limit s \<and> floor_limit s \<le> se_limit (decrease now s)"
  using assms by (auto simp: decrease_def split: option.splits)

lemma record_success_frame [simp]:
  "se_pending (record_success e now s) = se_pending s" "se_client (record_success e now s) = se_client s"
  "ceiling (record_success e now s) = ceiling s" "se_breaker (record_success e now s) = Closed"
  "se_faults (record_success e now s) = 0" "se_is_synced (record_success e now s) = se_is_synced s"
  by (simp_all add: record_success_def Let_def)

lemma record_failure_frame [simp]:
  "se_pending (record_failure e now s) = se_pending s" "se_client (record_failure e now s) = se_client s"
  "ceiling (record_failure e now s) = ceiling s" "se_is_synced (record_failure e now s) = se_is_synced s"
  by (simp_all add: record_failure_def Let_def)

lemma record_sync_frame [simp]:
  "se_pending (record_sync r s) = se_pending s" "se_client (record_sync r s) = se_client s"
  "se_limit (record_sync r s) = se_limit s" "se_breaker (record_sync r s) = se_breaker s"
  "se_faults (record_sync r s) = se_faults s" "ceiling (record_sync r s) = ceiling s"
  by (simp_all add: record_sync_def Let_def split: option.splits)

lemma effective_limit_le: "entry_ok s \<Longrightarrow> effective_limit now s \<le> ceiling s"
  using ceiling_pos [of s] by (auto simp: entry_ok_def effective_limit_def split: Breaker.splits)

lemma entry_ok_new [helix_inv]: "entry_ok (SimEntry_new c)"
  by (simp add: entry_ok_def SimEntry_new_def breaker_ok_def floor_limit_def ceiling_def
      SIM_FAULTS_TO_OPEN_def)

lemma entry_ok_start [helix_inv]:
  "entry_ok s \<Longrightarrow> can_simulate_at now s \<Longrightarrow> entry_ok (s\<lparr>se_pending := se_pending s + 1\<rparr>)"
  using effective_limit_le [of s now]
  by (auto simp: entry_ok_def can_simulate_at_def floor_limit_def)

lemma entry_ok_finish [helix_inv]: "entry_ok s \<Longrightarrow> entry_ok (s\<lparr>se_pending := se_pending s - 1\<rparr>)"
  by (auto simp: entry_ok_def floor_limit_def)

lemma entry_ok_success [helix_inv]:
  assumes "entry_ok s"
  shows "entry_ok (record_success e now s)"
proof -
  let ?s1 = "s\<lparr>se_faults := 0, se_breaker := Closed, se_last_success := Some now\<rparr>"
  have "floor_limit ?s1 = floor_limit s" by (simp add: floor_limit_def)
  then have "se_limit (decrease now ?s1) \<le> se_limit ?s1 \<and> floor_limit ?s1 \<le> se_limit (decrease now ?s1)"
    using assms by (intro decrease_limit) (simp_all add: entry_ok_def)
  then show ?thesis using assms
    by (auto simp: entry_ok_def breaker_ok_def record_success_def Let_def floor_limit_def SIM_FAULTS_TO_OPEN_def)
qed

lemma backoff_range: "BREAKER_BACKOFF_START \<le> BREAKER_BACKOFF_MAX"
  by (simp add: BREAKER_BACKOFF_START_def BREAKER_BACKOFF_MAX_def)

lemma entry_ok_failure [helix_inv]:
  assumes "entry_ok s"
  shows "entry_ok (record_failure err now s)"
proof (cases "is_sim_fault err")
  case True
  let ?s1 = "decrease now (s\<lparr>se_faults := se_faults s + 1\<rparr>)"
  have fl: "floor_limit (s\<lparr>se_faults := se_faults s + 1\<rparr>) = floor_limit s" by (simp add: floor_limit_def)
  have lim: "se_limit ?s1 \<le> ceiling s" "floor_limit s \<le> se_limit ?s1"
    using decrease_limit [of "s\<lparr>se_faults := se_faults s + 1\<rparr>" now] assms fl
    by (auto simp: entry_ok_def)
  have br: "breaker_ok (?s1\<lparr>se_breaker := next_breaker now ?s1\<rparr>)"
    using assms backoff_range
    by (auto simp: entry_ok_def breaker_ok_def next_breaker_def Let_def split: Breaker.splits)
  have fl': "floor_limit (?s1\<lparr>se_breaker := next_breaker now ?s1\<rparr>) = floor_limit s"
    by (simp add: floor_limit_def)
  show ?thesis using lim br fl' assms True by (simp add: entry_ok_def record_failure_def Let_def)
next
  case False
  then show ?thesis using assms by (simp add: record_failure_def)
qed

lemma entry_ok_sync [helix_inv]: "entry_ok s \<Longrightarrow> entry_ok (record_sync r s)"
  by (simp add: entry_ok_def breaker_ok_def floor_limit_def split: Breaker.splits)

interpretation entry: total_machine entry_step "\<lambda>_. True" entry_ok
proof unfold_locales
  show "entry_ok s'" if ok: "entry_ok s" and st: "entry_step e s = Some s'" for s e s'
    using ok st entry_ok_start [of s] entry_ok_finish [of s] entry_ok_success entry_ok_failure entry_ok_sync
    by (cases e) (auto split: if_splits)
  show "entry_step e s \<noteq> None" for s e by (cases e) simp_all
qed

lemma three_faults_open:
  assumes "is_sim_fault err" "se_breaker s = Closed" "se_faults s = 0"
  shows "se_breaker (record_failure err t3 (record_failure err t2 (record_failure err t1 s)))
    = Open (t3 + BREAKER_BACKOFF_START) BREAKER_BACKOFF_START"
proof -
  have step: "se_breaker (record_failure err t r) =
      (if se_faults r + 1 \<ge> SIM_FAULTS_TO_OPEN then Open (t + BREAKER_BACKOFF_START) BREAKER_BACKOFF_START else Closed)
      \<and> se_faults (record_failure err t r) = se_faults r + 1" if "se_breaker r = Closed" for r t
    using that assms(1) by (simp add: record_failure_def next_breaker_def Let_def)
  show ?thesis
    using step [of s t1] step [of "record_failure err t1 s" t2]
      step [of "record_failure err t2 (record_failure err t1 s)" t3] assms(2,3)
    by (simp add: SIM_FAULTS_TO_OPEN_def)
qed

lemma success_limit: "se_limit (record_success e now s) \<le> max (se_limit s + 1) (floor_limit s)"
  by (auto simp: record_success_def decrease_def Let_def floor_limit_def split: option.splits)

section \<open>Properties\<close>


text \<open>C29. The circuit breaker.  An open one admits nothing before its time and one probe after it; a
  probe that fails doubles the wait up to the maximum, one that is answered closes the breaker and
  restores the limit, moved by at most one; and three faults in a row open a closed one.\<close>

theorem breaker_cycle:
  assumes "entry_ok s" "se_breaker s = Open until backoff" "is_sim_fault err"
  shows "(now < until \<longrightarrow> \<not> can_simulate_at now s) \<and>
    (until \<le> now \<longrightarrow> (can_simulate_at now s \<longleftrightarrow> se_is_synced s \<and> se_pending s = 0)) \<and>
    (\<exists>b. se_breaker (record_failure err now s) = Open (now + b) b \<and> backoff \<le> b \<and>
       b \<le> BREAKER_BACKOFF_MAX \<and> (b = 2 * backoff \<or> b = BREAKER_BACKOFF_MAX)) \<and>
    se_breaker (record_success elapsed now s) = Closed \<and>
    se_limit (record_success elapsed now s) \<le> se_limit s + 1 \<and>
    se_breaker (record_failure err t3 (record_failure err t2 (record_failure err t1 (record_success elapsed now s))))
      = Open (t3 + BREAKER_BACKOFF_START) BREAKER_BACKOFF_START"
proof -
  have fl: "floor_limit s \<le> se_limit s" using assms(1) by (simp add: entry_ok_def)
  have lim: "se_limit (record_success elapsed now s) \<le> se_limit s + 1"
    using success_limit [of elapsed now s] fl by simp
  have "se_breaker (record_failure err now s) =
      Open (now + min (backoff * 2) BREAKER_BACKOFF_MAX) (min (backoff * 2) BREAKER_BACKOFF_MAX)"
    using assms(2,3) by (simp add: record_failure_def next_breaker_def Let_def)
  moreover have "backoff \<le> BREAKER_BACKOFF_MAX" using assms(1,2) by (simp add: entry_ok_def breaker_ok_def)
  ultimately have probe: "\<exists>b. se_breaker (record_failure err now s) = Open (now + b) b \<and> backoff \<le> b \<and>
       b \<le> BREAKER_BACKOFF_MAX \<and> (b = 2 * backoff \<or> b = BREAKER_BACKOFF_MAX)"
    by (intro exI [of _ "min (backoff * 2) BREAKER_BACKOFF_MAX"]) (auto simp: min_def)
  show ?thesis
    using lim probe assms(2) three_faults_open [OF assms(3), of "record_success elapsed now s"]
    by (simp add: can_simulate_at_def effective_limit_def)
qed

theorem breaker_cycle_witness:
  "let s = (SimEntry_new (SimulatorClient_new \<lparr>scf_url = [], scf_namespace = [],
        scf_max_concurrent_tasks = 8, scf_ssz_url = None\<rparr>))
      \<lparr>se_breaker := Open 20000000000 12000000000, se_faults := 3, se_is_synced := True\<rparr>
   in \<not> can_simulate_at 19000000000 s \<and>
      se_breaker (record_failure Timeout 19000000000 s) = Open 43000000000 24000000000"
proof -
  obtain s where s: "s = (SimEntry_new (SimulatorClient_new \<lparr>scf_url = [], scf_namespace = [],
        scf_max_concurrent_tasks = 8, scf_ssz_url = None\<rparr>))
      \<lparr>se_breaker := Open 20000000000 12000000000, se_faults := 3, se_is_synced := True\<rparr>" by blast
  have ok: "entry_ok s" and br: "se_breaker s = Open 20000000000 12000000000"
    by (simp_all add: s entry_ok_def SimEntry_new_def SimulatorClient_new_def floor_limit_def ceiling_def
        breaker_ok_def BREAKER_BACKOFF_START_def BREAKER_BACKOFF_MAX_def SECS_def MILLIS_def)
  have "\<not> can_simulate_at 19000000000 s \<and>
      (\<exists>b. se_breaker (record_failure Timeout 19000000000 s) = Open (19000000000 + b) b \<and>
        (b = 2 * 12000000000 \<or> b = BREAKER_BACKOFF_MAX))"
    using breaker_cycle [OF ok br, of Timeout 19000000000] by simp blast
  moreover have "se_breaker (record_failure Timeout 19000000000 s) \<noteq> Open (19000000000 + BREAKER_BACKOFF_MAX) BREAKER_BACKOFF_MAX"
    using br by (simp add: record_failure_def next_breaker_def Let_def BREAKER_BACKOFF_MAX_def SECS_def MILLIS_def)
  ultimately show ?thesis unfolding Let_def s [symmetric] by auto
qed

end
