(* ===== verification/Simulators.thy ===== *)
theory Simulators
  imports Sim_Entry Bid_Sorter "HOL-Library.Product_Lexorder"
begin

text \<open>
  The pool of block simulators (\<open>crates/relay/src/simulator/mod.rs\<close>).  A validation request is sent
  to a free simulator, queued, or answered from the result of an earlier simulation of the same
  block; a request that will never run is answered as dropped.

  A simulation runs as an asynchronous task that ends by sending an event to the pool.  The model
  keeps the tasks that are running in \<open>sm_tasks\<close> and the channel in \<open>sm_rx\<close>; \<open>sim_task\<close> and
  \<open>merge_sim_task\<close> are the bodies of the tasks, with the network, the SSZ library and the root of
  the transactions as a parameter (\<open>sim_env\<close>).  \<open>now\<close> stands for \<open>Instant::now()\<close>.  Indexing a
  simulator out of range is a panic, \<^const>\<open>None\<close>.  Metrics and log lines are left out.
\<close>

section \<open>Requests\<close>

datatype SimPriority = PreviousSlot | Low | Sample | Top

fun priority_rank :: "SimPriority \<Rightarrow> nat" where
  "priority_rank PreviousSlot = 0"
| "priority_rank Low = 1"
| "priority_rank Sample = 2"
| "priority_rank Top = 3"

instantiation SimPriority :: linorder
begin

definition less_eq_SimPriority :: "SimPriority \<Rightarrow> SimPriority \<Rightarrow> bool" where
  "less_eq_SimPriority a b = (priority_rank a \<le> priority_rank b)"

definition less_SimPriority :: "SimPriority \<Rightarrow> SimPriority \<Rightarrow> bool" where
  "less_SimPriority a b = (priority_rank a < priority_rank b)"

instance
proof
  fix a b c :: SimPriority
  show "a < b \<longleftrightarrow> a \<le> b \<and> \<not> b \<le> a" "a \<le> a" "a \<le> b \<or> b \<le> a"
    by (auto simp: less_eq_SimPriority_def less_SimPriority_def)
  show "a \<le> c" if "a \<le> b" "b \<le> c" using that by (simp add: less_eq_SimPriority_def)
  show "a = b" if "a \<le> b" "b \<le> a"
    using that by (cases a; cases b) (simp_all add: less_eq_SimPriority_def)
qed

end

fun priority_label :: "SimPriority \<Rightarrow> string" where
  "priority_label PreviousSlot = ''previous_slot''"
| "priority_label Low = ''low''"
| "priority_label Sample = ''sample''"
| "priority_label Top = ''top''"

record ValidationRequest =
  vr_submission_id :: Uuid
  vr_priority :: SimPriority
  vr_is_top_bid :: bool
  vr_is_optimistic :: bool
  vr_apply_blacklist :: bool
  vr_registered_gas_limit :: u64
  vr_parent_beacon_block_root :: B256
  vr_inclusion_list :: InclusionList
  vr_submission :: SignedBidSubmission
  vr_tx_root :: "B256 option"
  vr_version :: SubmissionVersion
  vr_trace :: SubmissionTrace
  vr_receive_ns :: u64
  vr_submission_ref :: SubmissionRef

definition sort_key :: "ValidationRequest \<Rightarrow> SimPriority \<times> u8 \<times> u64" where
  "sort_key r = (vr_priority r, if vr_is_top_bid r then 1 else 0, - 1 - vr_receive_ns r)"

definition optimistic_version :: "ValidationRequest \<Rightarrow> OptimisticVersion" where
  "optimistic_version r = (if vr_is_optimistic r then V1 else NotOptimistic)"

definition req_trace :: "ValidationRequest \<Rightarrow> BidTrace" where
  "req_trace r = signed_bid_trace (vr_submission r)"

abbreviation req_hash :: "ValidationRequest \<Rightarrow> B256" where
  "req_hash r \<equiv> bt_block_hash (req_trace r)"

record MergedValidationRequest =
  mv_submission_id :: Uuid
  mv_base_block_hash :: B256
  mv_slot :: u64
  mv_parent_beacon_block_root :: B256
  mv_proposer_fee_recipient :: Address
  mv_registered_gas_limit :: u64
  mv_apply_blacklist :: bool
  mv_inclusion_list :: InclusionList
  mv_receive_ns :: u64

section \<open>Results\<close>

record SimulationResultInner =
  sri_submission_ref :: SubmissionRef
  sri_optimistic_version :: OptimisticVersion
  sri_bid :: "Bid option"
  sri_result :: "(BlockSimError, SubmissionTrace) Result"
  sri_submission_id :: Uuid
  sri_block_hash :: B256
  sri_txs :: "TxDetail list"
  sri_retried :: bool

record MergedSimulationResultInner =
  mri_result :: "(BlockSimError, unit) Result"
  mri_submission_id :: Uuid
  mri_block_hash :: B256
  mri_txs :: "TxDetail list"

datatype SimResult =
    Validate nat "SimulationResultInner option"
  | ValidateMerged nat "MergedSimulationResultInner option"

record SimDone =
  sdn_result :: SimResult
  sdn_elapsed :: nat

definition SimDone_dropped :: "ValidationRequest \<Rightarrow> SimDone option" where
  "SimDone_dropped req =
     (if vr_is_optimistic req then None
      else Some \<lparr>sdn_result = Validate 0 (Some
              \<lparr>sri_submission_ref = vr_submission_ref req,
               sri_optimistic_version = optimistic_version req, sri_bid = None,
               sri_result = Inl SimulationDropped, sri_submission_id = vr_submission_id req,
               sri_block_hash = 0, sri_txs = [], sri_retried = False\<rparr>),
             sdn_elapsed = 0\<rparr>)"

record SimStarted =
  sst_submission_id :: Uuid
  sst_block_hash :: B256
  sst_merged :: bool
  sst_is_top_bid :: bool

definition sim_started_event :: "Uuid \<Rightarrow> B256 \<Rightarrow> bool \<Rightarrow> bool \<Rightarrow> SimStarted" where
  "sim_started_event i h merged is_top =
     \<lparr>sst_submission_id = i, sst_block_hash = h, sst_merged = merged, sst_is_top_bid = is_top\<rparr>"

record SimPreviousSlotDrops =
  psd_slot :: u64
  psd_current_slot :: u64
  psd_queued_requests :: u64
  psd_superseded_requests :: u64

record SimTxIncluded =
  sti_submission_id :: Uuid
  sti_nonce :: u64
  sti_hash :: B256
  sti_sender :: Address
  sti_to :: Address
  sti_builder_payment :: U256
  sti_index :: u32
  sti_has_to :: bool

record SimFinished =
  sfn_submission_id :: Uuid
  sfn_total_payment :: U256
  sfn_elapsed_us :: u64
  sfn_retried :: bool
  sfn_error :: "BlockSimError option"

definition sim_finish_events ::
  "Uuid \<Rightarrow> TxDetail list \<Rightarrow> BlockSimError option \<Rightarrow> nat \<Rightarrow> bool \<Rightarrow> SimTxIncluded list \<times> SimFinished" where
  "sim_finish_events i txs err elapsed retried =
     ((if err \<noteq> None then [] else
         map (\<lambda>(index, tx). \<lparr>sti_submission_id = i, sti_nonce = td_nonce tx, sti_hash = td_hash tx,
             sti_sender = td_sender tx, sti_to = (case td_to tx of Some a \<Rightarrow> a | None \<Rightarrow> 0),
             sti_builder_payment = td_builder_payment tx, sti_index = word_of_nat index,
             sti_has_to = (td_to tx \<noteq> None)\<rparr>) (List.enumerate 0 txs)),
      \<lparr>sfn_submission_id = i,
       sfn_total_payment = (if err \<noteq> None then 0
          else fold (\<lambda>tx acc. saturating_add acc (td_builder_payment tx)) txs 0),
       sfn_elapsed_us = word_of_nat (elapsed div 1000), sfn_retried = retried, sfn_error = err\<rparr>)"

section \<open>State\<close>

datatype SimDispatch = DispatchSsz string string | DispatchJson string string

datatype SimTask =
    ValidateTask nat ValidationRequest SimDispatch
  | MergedTask nat MergedValidationRequest BlockMergeResponse SimDispatch

datatype SimulatorsEvent =
    TaskDone nat "BlockSimError option" SimResult "nat option"
  | SyncStatus nat "bool option"

datatype SimSeen = InFlight "ValidationRequest list" | Done "(BlockSimError, unit) Result"

record SampleState =
  ss_seen :: u32
  ss_sampled :: u32

definition default_sample :: SampleState where
  "default_sample = \<lparr>ss_seen = 0, ss_sampled = 0\<rparr>"

record QueueKey =
  qk_parent_hash :: B256
  qk_builder_pubkey :: BlsPublicKeyBytes

record LocalTelemetry =
  lt_sims_reqs :: nat
  lt_sims_sent_immediately :: nat
  lt_sims_reqs_dropped :: nat
  lt_stale_sim_reqs :: nat
  lt_max_pending :: nat
  lt_max_in_flight :: nat
  lt_sample_skipped :: nat
  lt_duplicate_skipped :: nat
  lt_queued :: nat
  lt_sims_sent_from_queue :: nat
  lt_superseded :: nat
  lt_superseded_sent :: nat

definition default_local_telemetry :: LocalTelemetry where
  "default_local_telemetry =
     \<lparr>lt_sims_reqs = 0, lt_sims_sent_immediately = 0, lt_sims_reqs_dropped = 0,
      lt_stale_sim_reqs = 0, lt_max_pending = 0,
      lt_max_in_flight = 0, lt_sample_skipped = 0, lt_duplicate_skipped = 0, lt_queued = 0,
      lt_sims_sent_from_queue = 0, lt_superseded = 0, lt_superseded_sent = 0\<rparr>"

type_synonym PendingRequests = "(ValidationRequest \<times> QueueKey \<times> SubmissionVersion) list"
type_synonym PendingMergeRequests = "(MergedValidationRequest \<times> BlockMergeResponse) list"

record Simulators =
  sm_simulators :: "SimEntry list"
  sm_requests :: PendingRequests
  sm_priority_requests :: PendingRequests
  sm_merge_requests :: PendingMergeRequests
  sm_superseded :: "ValidationRequest list"
  sm_last_bid_slot :: u64
  sm_previous_bid_slot :: u64
  sm_telemetry :: LocalTelemetry
  sm_slot_stats :: "(nat \<times> nat) list"
  sm_rx :: "SimulatorsEvent list"
  sm_sample_state :: "(BlsPublicKeyBytes, SampleState) FxHashMap"
  sm_seen_blocks :: "(B256, SimSeen) FxHashMap"
  sm_accept_optimistic :: bool
  sm_answered :: "SimDone list"
  sm_tasks :: "SimTask list"

definition Simulators_new :: "SimulatorConfig list \<Rightarrow> Simulators" where
  "Simulators_new configs =
     \<lparr>sm_simulators = map (\<lambda>c. SimEntry_new (SimulatorClient_new c)) configs,
      sm_requests = [], sm_priority_requests = [], sm_merge_requests = [], sm_superseded = [],
      sm_last_bid_slot = 0, sm_previous_bid_slot = 0, sm_telemetry = default_local_telemetry,
      sm_slot_stats = replicate (length configs) (0, 0), sm_rx = [], sm_sample_state = [],
      sm_seen_blocks = [], sm_accept_optimistic = True, sm_answered = [], sm_tasks = []\<rparr>"

definition SUPERSEDED_CAPACITY :: nat where "SUPERSEDED_CAPACITY = 5000"
definition SAMPLE_FLOOR :: u32 where "SAMPLE_FLOOR = 3"
definition SAMPLE_EVERY :: u32 where "SAMPLE_EVERY = 64"

section \<open>Queues\<close>

definition position :: "('a \<Rightarrow> bool) \<Rightarrow> 'a list \<Rightarrow> nat option" where
  "position P xs = (let i = length (takeWhile (\<lambda>x. \<not> P x) xs) in if i < length xs then Some i else None)"

definition queue_store ::
  "ValidationRequest \<Rightarrow> QueueKey \<Rightarrow> SubmissionVersion \<Rightarrow> PendingRequests \<Rightarrow> LocalTelemetry \<Rightarrow>
   ValidationRequest option \<times> PendingRequests \<times> LocalTelemetry" where
  "queue_store req key version reqs tel =
     (case position (\<lambda>p. fst (snd p) = key) reqs of
        Some i \<Rightarrow>
          (let tel' = tel\<lparr>lt_sims_reqs_dropped := lt_sims_reqs_dropped tel + 1\<rparr> in
           if version_gt version (snd (snd (reqs ! i)))
           then (Some (fst (reqs ! i)), reqs[i := (req, key, version)], tel')
           else (Some req, reqs, tel'))
      | None \<Rightarrow>
          (let reqs' = reqs @ [(req, key, version)]
           in (None, reqs', tel\<lparr>lt_max_pending := max (lt_max_pending tel) (length reqs')\<rparr>)))"

definition queue_next_req :: "PendingRequests \<Rightarrow> (ValidationRequest \<times> PendingRequests) option" where
  "queue_next_req reqs =
     (case max_by_key (\<lambda>i. sort_key (fst (reqs ! i))) [0..<length reqs] of
        None \<Rightarrow> None
      | Some i \<Rightarrow> Some (fst (reqs ! i), swap_remove i reqs))"

definition merge_store ::
  "MergedValidationRequest \<Rightarrow> BlockMergeResponse \<Rightarrow> PendingMergeRequests \<Rightarrow>
   (MergedValidationRequest \<times> BlockMergeResponse) option \<times> PendingMergeRequests" where
  "merge_store req response reqs =
     (case position (\<lambda>p. mv_base_block_hash (fst p) = mv_base_block_hash req) reqs of
        Some i \<Rightarrow>
          if mv_receive_ns req > mv_receive_ns (fst (reqs ! i))
          then (Some (reqs ! i), reqs[i := (req, response)]) else (None, reqs)
      | None \<Rightarrow> (None, reqs @ [(req, response)]))"

definition merge_next_req ::
  "PendingMergeRequests \<Rightarrow> ((MergedValidationRequest \<times> BlockMergeResponse) \<times> PendingMergeRequests) option" where
  "merge_next_req reqs =
     (case max_by_key (\<lambda>i. mv_receive_ns (fst (reqs ! i))) [0..<length reqs] of
        None \<Rightarrow> None
      | Some i \<Rightarrow> Some (reqs ! i, swap_remove i reqs))"

section \<open>Selection\<close>

text \<open>The indices of the simulators with an SSZ endpoint, static since a client never changes.\<close>

definition ssz_sim_indices :: "Simulators \<Rightarrow> nat list" where
  "ssz_sim_indices s =
     filter (\<lambda>i. cl_ssz_url (se_client (sm_simulators s ! i)) \<noteq> None) [0..<length (sm_simulators s)]"

definition next_client :: "nat \<Rightarrow> Simulators \<Rightarrow> nat option" where
  "next_client now s =
     min_by_key (\<lambda>i. utilization now (sm_simulators s ! i))
       (filter (\<lambda>i. can_simulate_at now (sm_simulators s ! i)) [0..<length (sm_simulators s)])"

definition select_simulator_at :: "nat \<Rightarrow> Simulators \<Rightarrow> nat option" where
  "select_simulator_at now s =
     (case min_by_key (\<lambda>i. utilization now (sm_simulators s ! i))
             (filter (\<lambda>i. can_simulate_at now (sm_simulators s ! i)) (ssz_sim_indices s)) of
        Some i \<Rightarrow> Some i
      | None \<Rightarrow> next_client now s)"

section \<open>Answers\<close>

definition answer_dropped :: "ValidationRequest \<Rightarrow> Simulators \<Rightarrow> Simulators" where
  "answer_dropped req s =
     (case SimDone_dropped req of
        Some d \<Rightarrow> s\<lparr>sm_answered := sm_answered s @ [d]\<rparr> | None \<Rightarrow> s)"

definition answer_cached ::
  "externals \<Rightarrow> ValidationRequest \<Rightarrow> (BlockSimError, unit) Result \<Rightarrow> Simulators \<Rightarrow> Simulators" where
  "answer_cached x req result s =
     (if vr_is_optimistic req then s
      else s\<lparr>sm_answered := sm_answered s @
        [\<lparr>sdn_result = Validate 0 (Some
            \<lparr>sri_submission_ref = vr_submission_ref req,
             sri_optimistic_version = optimistic_version req,
             sri_bid = Some (Bid_new x (vr_version req) (vr_submission req) (vr_parent_beacon_block_root req)),
             sri_result = (case result of Inl e \<Rightarrow> Inl e | Inr _ \<Rightarrow> Inr (vr_trace req)),
             sri_submission_id = vr_submission_id req, sri_block_hash = 0, sri_txs = [],
             sri_retried = False\<rparr>),
          sdn_elapsed = 0\<rparr>]\<rparr>)"

definition on_block_simulated ::
  "externals \<Rightarrow> B256 \<Rightarrow> (BlockSimError, SubmissionTrace) Result \<Rightarrow> Simulators \<Rightarrow> Simulators" where
  "on_block_simulated x hash result s =
     (let outcome = (case result of Inl e \<Rightarrow> Inl e | Inr _ \<Rightarrow> Inr ());
          prev = map_of (sm_seen_blocks s) hash;
          s1 = (if (case result of Inl e \<Rightarrow> \<not> is_demotable e | Inr _ \<Rightarrow> False)
                then s\<lparr>sm_seen_blocks := AList.delete hash (sm_seen_blocks s)\<rparr>
                else s\<lparr>sm_seen_blocks := AList.update hash (Done outcome) (sm_seen_blocks s)\<rparr>)
      in case prev of
           Some (InFlight waiting) \<Rightarrow> fold (\<lambda>req. answer_cached x req outcome) waiting s1
         | _ \<Rightarrow> s1)"

section \<open>Simulator status\<close>

definition refresh_accept_optimistic :: "nat \<Rightarrow> Simulators \<Rightarrow> Simulators" where
  "refresh_accept_optimistic now s =
     s\<lparr>sm_accept_optimistic := list_ex (can_simulate_light now) (sm_simulators s)\<rparr>"

definition handle_sync_status :: "nat \<Rightarrow> nat \<Rightarrow> bool option \<Rightarrow> Simulators \<Rightarrow> Simulators option" where
  "handle_sync_status now sid reported s =
     (if sid < length (sm_simulators s)
      then Some (refresh_accept_optimistic now
             (s\<lparr>sm_simulators := (sm_simulators s)[sid := record_sync reported (sm_simulators s ! sid)]\<rparr>))
      else None)"

definition take_sample :: "BlsPublicKeyBytes \<Rightarrow> Simulators \<Rightarrow> bool \<times> Simulators" where
  "take_sample builder s =
     (let st = (case map_of (sm_sample_state s) builder of Some st \<Rightarrow> st | None \<Rightarrow> default_sample);
          st1 = st\<lparr>ss_seen := ss_seen st + 1\<rparr>
      in if ss_sampled st1 < SAMPLE_FLOOR \<or> ss_seen st1 mod SAMPLE_EVERY = 0
         then (True, s\<lparr>sm_sample_state :=
                 AList.update builder (st1\<lparr>ss_sampled := ss_sampled st1 + 1\<rparr>) (sm_sample_state s)\<rparr>)
         else (False, s\<lparr>sm_sample_state := AList.update builder st1 (sm_sample_state s)\<rparr>))"

section \<open>Starting simulations\<close>

definition sim_dispatch :: "SimulatorClient \<Rightarrow> ForkName \<Rightarrow> SimDispatch option" where
  "sim_dispatch c fork =
     (case cl_ssz_url c of
        Some url \<Rightarrow> map_option (\<lambda>to_send. DispatchSsz to_send url) (ssz_request_builder c fork)
      | None \<Rightarrow> map_option (\<lambda>(to_send, method). DispatchJson to_send method) (sim_request_builder c fork))"

definition mark_in_flight :: "B256 \<Rightarrow> Simulators \<Rightarrow> Simulators" where
  "mark_in_flight hash s =
     (case map_of (sm_seen_blocks s) hash of
        Some _ \<Rightarrow> s
      | None \<Rightarrow> s\<lparr>sm_seen_blocks := AList.update hash (InFlight []) (sm_seen_blocks s)\<rparr>)"

definition add_pending :: "nat \<Rightarrow> Simulators \<Rightarrow> Simulators" where
  "add_pending sid s =
     s\<lparr>sm_simulators := (sm_simulators s)
         [sid := (sm_simulators s ! sid)\<lparr>se_pending := se_pending (sm_simulators s ! sid) + 1\<rparr>]\<rparr>"

definition track_max_in_flight :: "nat \<Rightarrow> Simulators \<Rightarrow> Simulators" where
  "track_max_in_flight sid s =
     s\<lparr>sm_telemetry := (sm_telemetry s)\<lparr>lt_max_in_flight :=
         max (lt_max_in_flight (sm_telemetry s)) (se_pending (sm_simulators s ! sid))\<rparr>\<rparr>"

definition unsupported_result :: "nat \<Rightarrow> ValidationRequest \<Rightarrow> SimResult" where
  "unsupported_result sid req =
     Validate sid (Some \<lparr>sri_submission_ref = vr_submission_ref req,
       sri_optimistic_version = optimistic_version req, sri_bid = None,
       sri_result = Inl (UnsupportedFork (signed_fork_name (vr_submission req))),
       sri_submission_id = vr_submission_id req, sri_block_hash = req_hash req, sri_txs = [],
       sri_retried = False\<rparr>)"

definition spawn_sim :: "nat \<Rightarrow> ValidationRequest \<Rightarrow> Simulators \<Rightarrow> (SimStarted option \<times> Simulators) option" where
  "spawn_sim sid req s0 =
     (let s = mark_in_flight (req_hash req) s0;
          started = sim_started_event (vr_submission_id req) (req_hash req) False (vr_is_top_bid req);
          track = (if req_hash req \<noteq> 0 then Some started else None)
      in if sid < length (sm_simulators s) then
           (case sim_dispatch (se_client (sm_simulators s ! sid)) (signed_fork_name (vr_submission req)) of
              None \<Rightarrow>
                (let s1 = add_pending sid s
                 in Some (track, s1\<lparr>sm_rx := sm_rx s1 @ [TaskDone sid None (unsupported_result sid req) None]\<rparr>))
            | Some d \<Rightarrow>
                (let s1 = track_max_in_flight sid (add_pending sid s)
                 in Some (track, s1\<lparr>sm_tasks := sm_tasks s1 @ [ValidateTask sid req d]\<rparr>)))
         else None)"

definition spawn_merge_sim ::
  "nat \<Rightarrow> MergedValidationRequest \<Rightarrow> BlockMergeResponse \<Rightarrow> Simulators \<Rightarrow> (SimStarted option \<times> Simulators) option" where
  "spawn_merge_sim sid req response s =
     (let hash = ep_block_hash (bmr_execution_payload response);
          started = sim_started_event (mv_submission_id req) hash True False;
          track = (if hash \<noteq> 0 then Some started else None)
      in if sid < length (sm_simulators s) then
           (let c = se_client (sm_simulators s ! sid);
                d = (case cl_ssz_url c of
                       Some url \<Rightarrow> DispatchSsz (url @ ''/validate_merged'') url
                     | None \<Rightarrow> DispatchJson (fst (merged_sim_request_builder c)) (snd (merged_sim_request_builder c)));
                s1 = track_max_in_flight sid (add_pending sid s)
            in Some (track, s1\<lparr>sm_tasks := sm_tasks s1 @ [MergedTask sid req response d]\<rparr>))
         else None)"

section \<open>Intake\<close>

abbreviation tally :: "(LocalTelemetry \<Rightarrow> LocalTelemetry) \<Rightarrow> Simulators \<Rightarrow> Simulators" where
  "tally f s \<equiv> s\<lparr>sm_telemetry := f (sm_telemetry s)\<rparr>"

text \<open>The request a queue dropped is kept for idle time when it is optimistic, and answered as dropped
  otherwise.\<close>

definition settle_dropped :: "ValidationRequest \<Rightarrow> Simulators \<Rightarrow> Simulators" where
  "settle_dropped d s =
     (if vr_is_optimistic d \<and> length (sm_superseded s) < SUPERSEDED_CAPACITY
      then tally (\<lambda>t. t\<lparr>lt_superseded := lt_superseded t + 1\<rparr>)
             (s\<lparr>sm_superseded := sm_superseded s @ [d\<lparr>vr_priority := Low\<rparr>]\<rparr>)
      else answer_dropped d s)"

definition enqueue :: "ValidationRequest \<Rightarrow> bool \<Rightarrow> Simulators \<Rightarrow> Simulators" where
  "enqueue req fast_track s =
     (let key = \<lparr>qk_parent_hash = bt_parent_hash (req_trace req),
                 qk_builder_pubkey = bt_builder_pubkey (req_trace req)\<rparr>;
          (dropped, q, tel) =
            queue_store req key (vr_version req)
              (if fast_track then sm_priority_requests s else sm_requests s) (sm_telemetry s);
          s1 = (if fast_track then s\<lparr>sm_priority_requests := q, sm_telemetry := tel\<rparr>
                else s\<lparr>sm_requests := q, sm_telemetry := tel\<rparr>)
      in case dropped of None \<Rightarrow> s1 | Some d \<Rightarrow> settle_dropped d s1)"

text \<open>A request for the sample that is not drawn runs at low priority.\<close>

definition sampled :: "ValidationRequest \<Rightarrow> Simulators \<Rightarrow> ValidationRequest \<times> Simulators" where
  "sampled req s =
     (if vr_priority req = Sample then
        (let (taken, s') = take_sample (bt_builder_pubkey (req_trace req)) s
         in if taken then (req, s')
            else (req\<lparr>vr_priority := Low\<rparr>,
                  tally (\<lambda>t. t\<lparr>lt_sample_skipped := lt_sample_skipped t + 1\<rparr>) s'))
      else (req, s))"

definition dispatch ::
  "externals \<Rightarrow> nat \<Rightarrow> ValidationRequest \<Rightarrow> bool \<Rightarrow> Simulators \<Rightarrow> (SimStarted option \<times> Simulators) option" where
  "dispatch x now req fast_track s0 =
     (let s = tally (\<lambda>t. t\<lparr>lt_sims_reqs := lt_sims_reqs t + 1\<rparr>) s0;
          skip = tally (\<lambda>t. t\<lparr>lt_duplicate_skipped := lt_duplicate_skipped t + 1\<rparr>) s
      in case map_of (sm_seen_blocks s) (req_hash req) of
           Some (InFlight waiting) \<Rightarrow>
             Some (None, if vr_is_optimistic req then skip
               else skip\<lparr>sm_seen_blocks :=
                 AList.update (req_hash req) (InFlight (waiting @ [req])) (sm_seen_blocks skip)\<rparr>)
         | Some (Done result) \<Rightarrow> Some (None, answer_cached x req result skip)
         | None \<Rightarrow>
             (let (req1, s1) = sampled req s
              in case select_simulator_at now s1 of
                   Some sid \<Rightarrow>
                     spawn_sim sid req1 (tally (\<lambda>t. t\<lparr>lt_sims_sent_immediately := lt_sims_sent_immediately t + 1\<rparr>) s1)
                 | None \<Rightarrow>
                     Some (None, enqueue req1 fast_track
                       (tally (\<lambda>t. t\<lparr>lt_queued := lt_queued t + 1\<rparr>) s1))))"

definition dispatch_merged ::
  "nat \<Rightarrow> MergedValidationRequest \<Rightarrow> BlockMergeResponse \<Rightarrow> Simulators \<Rightarrow> (SimStarted option \<times> Simulators) option" where
  "dispatch_merged now req response s0 =
     (let s = tally (\<lambda>t. t\<lparr>lt_sims_reqs := lt_sims_reqs t + 1\<rparr>) s0 in
      case next_client now s of
        Some sid \<Rightarrow>
          spawn_merge_sim sid req response
            (tally (\<lambda>t. t\<lparr>lt_sims_sent_immediately := lt_sims_sent_immediately t + 1\<rparr>) s)
      | None \<Rightarrow>
          (let s1 = tally (\<lambda>t. t\<lparr>lt_queued := lt_queued t + 1\<rparr>) s
           in Some (None, s1\<lparr>sm_merge_requests := snd (merge_store req response (sm_merge_requests s1))\<rparr>)))"

section \<open>Completion\<close>

text \<open>The superseded requests are a stack; those whose block was simulated meanwhile are discarded.\<close>

fun pop_unseen :: "(B256, SimSeen) FxHashMap \<Rightarrow> ValidationRequest list \<Rightarrow>
    ValidationRequest option \<times> ValidationRequest list" where
  "pop_unseen seen [] = (None, [])"
| "pop_unseen seen (r # rs) =
     (if map_of seen (req_hash r) = None then (Some r, rs) else pop_unseen seen rs)"

definition send_next :: "nat \<Rightarrow> Simulators \<Rightarrow> (SimStarted list \<times> Simulators) option" where
  "send_next sid s =
     (let from_queue = tally (\<lambda>t. t\<lparr>lt_sims_sent_from_queue := lt_sims_sent_from_queue t + 1\<rparr>);
          started = map_option (\<lambda>(st, s'). (case st of Some e \<Rightarrow> [e] | None \<Rightarrow> [], s'))
      in case queue_next_req (sm_priority_requests s) of
           Some (req, q) \<Rightarrow> started (spawn_sim sid req (from_queue (s\<lparr>sm_priority_requests := q\<rparr>)))
         | None \<Rightarrow>
             (case queue_next_req (sm_requests s) of
                Some (req, q) \<Rightarrow> started (spawn_sim sid req (from_queue (s\<lparr>sm_requests := q\<rparr>)))
              | None \<Rightarrow>
                  (case merge_next_req (sm_merge_requests s) of
                     Some ((req, response), q) \<Rightarrow>
                       started (spawn_merge_sim sid req response (s\<lparr>sm_merge_requests := q\<rparr>))
                   | None \<Rightarrow>
                       (case pop_unseen (sm_seen_blocks s) (rev (sm_superseded s)) of
                          (Some req, rest) \<Rightarrow>
                            started (spawn_sim sid req
                              (tally (\<lambda>t. t\<lparr>lt_superseded_sent := lt_superseded_sent t + 1\<rparr>)
                                (s\<lparr>sm_superseded := rev rest\<rparr>)))
                        | (None, rest) \<Rightarrow> Some ([], s\<lparr>sm_superseded := rev rest\<rparr>)))))"

definition settle_entry :: "nat \<Rightarrow> BlockSimError option \<Rightarrow> nat option \<Rightarrow> SimEntry \<Rightarrow> SimEntry" where
  "settle_entry now error elapsed e =
     (let e1 = e\<lparr>se_pending := se_pending e - 1\<rparr> in
      case error of
        Some err \<Rightarrow> record_failure err now e1
      | None \<Rightarrow> (case elapsed of Some t \<Rightarrow> record_success t now e1 | None \<Rightarrow> e1))"

definition settle_task :: "nat \<Rightarrow> nat \<Rightarrow> BlockSimError option \<Rightarrow> nat option \<Rightarrow> Simulators \<Rightarrow> Simulators" where
  "settle_task now sid error elapsed s =
     refresh_accept_optimistic now
       (s\<lparr>sm_simulators := (sm_simulators s)[sid := settle_entry now error elapsed (sm_simulators s ! sid)],
          sm_slot_stats := (case elapsed of
            Some t \<Rightarrow> (sm_slot_stats s)[sid := (fst (sm_slot_stats s ! sid) + 1, snd (sm_slot_stats s ! sid) + t)]
          | None \<Rightarrow> sm_slot_stats s)\<rparr>)"

definition on_task_response ::
  "nat \<Rightarrow> nat \<Rightarrow> BlockSimError option \<Rightarrow> nat option \<Rightarrow> Simulators \<Rightarrow> (SimStarted list \<times> Simulators) option" where
  "on_task_response now sid error elapsed s =
     (if sid < length (sm_simulators s) \<and> (elapsed = None \<or> sid < length (sm_slot_stats s)) then
        (let s1 = settle_task now sid error elapsed s
         in case next_client now s1 of
              Some free \<Rightarrow> send_next free s1
            | None \<Rightarrow> Some ([], s1))
      else None)"

fun next_done_from ::
  "externals \<Rightarrow> nat \<Rightarrow> SimulatorsEvent list \<Rightarrow> Simulators \<Rightarrow> (SimStarted list \<times> SimDone option \<times> Simulators) option" where
  "next_done_from x now [] s =
     (if sm_answered s = [] then Some ([], None, s)
      else Some ([], Some (last (sm_answered s)), s\<lparr>sm_answered := butlast (sm_answered s)\<rparr>))"
| "next_done_from x now (SyncStatus sid reported # events) s =
     (case handle_sync_status now sid reported (s\<lparr>sm_rx := events\<rparr>) of
        None \<Rightarrow> None
      | Some s1 \<Rightarrow> next_done_from x now events s1)"
| "next_done_from x now (TaskDone sid error result elapsed # events) s =
     (case on_task_response now sid error elapsed (s\<lparr>sm_rx := events\<rparr>) of
        None \<Rightarrow> None
      | Some (started, s1) \<Rightarrow>
          Some (started,
            Some \<lparr>sdn_result = result, sdn_elapsed = (case elapsed of Some t \<Rightarrow> t | None \<Rightarrow> 0)\<rparr>,
            case result of
              Validate _ (Some inner) \<Rightarrow> on_block_simulated x (sri_block_hash inner) (sri_result inner) s1
            | _ \<Rightarrow> s1))"

definition next_done :: "externals \<Rightarrow> nat \<Rightarrow> Simulators \<Rightarrow> (SimStarted list \<times> SimDone option \<times> Simulators) option" where
  "next_done x now s = next_done_from x now (sm_rx s) s"

section \<open>A new slot\<close>

definition sim_report :: "Simulators \<Rightarrow> Simulators" where
  "sim_report s = s\<lparr>sm_telemetry := default_local_telemetry,
                    sm_slot_stats := map (\<lambda>_. (0, 0)) (sm_slot_stats s)\<rparr>"

definition kept_for_idle :: "ValidationRequest \<Rightarrow> bool" where
  "kept_for_idle r \<longleftrightarrow> vr_is_optimistic r \<and> vr_priority r \<noteq> PreviousSlot"

fun waiting_on :: "SimSeen \<Rightarrow> ValidationRequest list" where
  "waiting_on (InFlight waiting) = waiting"
| "waiting_on (Done _) = []"

definition sim_on_new_slot :: "u64 \<Rightarrow> Simulators \<Rightarrow> SimPreviousSlotDrops option \<times> Simulators" where
  "sim_on_new_slot new_slot s0 =
     (let known = sm_previous_bid_slot s0 \<noteq> 0;
          s1 = (if sm_last_bid_slot s0 > 0 then sim_report s0 else s0);
          expired = (\<lambda>r. vr_priority r = PreviousSlot);
          drops = \<lparr>psd_slot = sm_previous_bid_slot s0, psd_current_slot = new_slot,
            psd_queued_requests = word_of_nat (length (filter (\<lambda>p. expired (fst p)) (sm_requests s1))),
            psd_superseded_requests = word_of_nat (length (filter expired (sm_superseded s1)))\<rparr>;
          s2 = fold (\<lambda>p. answer_dropped (fst p)) (sm_priority_requests s1)
                 (s1\<lparr>sm_previous_bid_slot := sm_last_bid_slot s1, sm_last_bid_slot := new_slot,
                     sm_priority_requests := []\<rparr>);
          s3 = fold (\<lambda>p. answer_dropped (fst p)) (filter (\<lambda>p. \<not> kept_for_idle (fst p)) (sm_requests s2))
                 (s2\<lparr>sm_requests := map (\<lambda>(r, k, v). (r\<lparr>vr_priority := PreviousSlot\<rparr>, k, v))
                       (filter (\<lambda>p. kept_for_idle (fst p)) (sm_requests s2))\<rparr>);
          s4 = s3\<lparr>sm_superseded := map (\<lambda>r. r\<lparr>vr_priority := PreviousSlot\<rparr>)
                   (filter (\<lambda>r. \<not> expired r) (sm_superseded s3)),
                 sm_merge_requests := [], sm_sample_state := []\<rparr>;
          s5 = fold answer_dropped (concat (map (\<lambda>p. waiting_on (snd p)) (sm_seen_blocks s4)))
                 (s4\<lparr>sm_seen_blocks := []\<rparr>)
      in (if known then Some drops else None, s5))"

section \<open>The tasks\<close>

record JsonValidationRequest =
  jv_registered_gas_limit :: u64
  jv_message :: BidTrace
  jv_execution_payload :: ExecutionPayload
  jv_signature :: BlsSignatureBytes
  jv_apply_blacklist :: bool
  jv_proposer_preferences :: ValidatorPreferences
  jv_blobs_bundle :: BlobsBundle
  jv_execution_requests :: ExecutionRequests
  jv_parent_beacon_block_root :: B256
  jv_inclusion_list :: InclusionList

definition JsonValidationRequest_new ::
  "u64 \<Rightarrow> SignedBidSubmissionFulu \<Rightarrow> ValidatorPreferences \<Rightarrow> B256 \<Rightarrow> InclusionList \<Rightarrow> JsonValidationRequest" where
  "JsonValidationRequest_new gas_limit block prefs root il =
     \<lparr>jv_registered_gas_limit = gas_limit, jv_message = sf_message block,
      jv_execution_payload = sf_execution_payload block, jv_signature = sf_signature block,
      jv_apply_blacklist = is_regional (vp_filtering prefs), jv_proposer_preferences = prefs,
      jv_blobs_bundle = sf_blobs_bundle block, jv_execution_requests = sf_execution_requests block,
      jv_parent_beacon_block_root = root, jv_inclusion_list = il\<rparr>"

text \<open>The network and the library functions a task uses.  A post is given the number of the attempt,
  since the same body can be answered differently the second time.\<close>

record sim_env =
  env_codec :: "SignedBidSubmission ssz_codec"
  env_merged_codec :: "SignedBidSubmissionFulu ssz_codec"
  env_decode :: "bytes \<Rightarrow> TxDetail list option"
  env_ssz_post :: "nat \<Rightarrow> string \<Rightarrow> bytes \<Rightarrow> bool \<Rightarrow> SszHttp"
  env_json_post :: "string \<Rightarrow> string \<Rightarrow> JsonValidationRequest \<Rightarrow> bool \<Rightarrow> RpcHttp"
  env_merged_json_post :: "string \<Rightarrow> string \<Rightarrow> JsonValidationRequest \<Rightarrow> u64 \<Rightarrow> RpcHttp"

definition first_attempt ::
  "sim_env \<Rightarrow> ValidationRequest \<Rightarrow> SimDispatch \<Rightarrow>
   (BlockSimError, TxDetail list) Result \<times> (bytes \<times> string) option" where
  "first_attempt env req d =
     (case d of
        DispatchSsz to_send ssz_url \<Rightarrow>
          (let body = ssz_request (env_codec env) (vr_apply_blacklist req) (vr_registered_gas_limit req)
                 (vr_parent_beacon_block_root req) (vr_inclusion_list req) (vr_submission req)
           in (do_sim_request (env_decode env) (env_ssz_post env 0 to_send body (vr_is_top_bid req)),
               Some (body, ssz_url)))
      | DispatchJson to_send method \<Rightarrow>
          (case vr_submission req of
             SignedFulu f \<Rightarrow>
               (let json = JsonValidationRequest_new (vr_registered_gas_limit req) f
                      (default_preferences\<lparr>vp_filtering := (if vr_apply_blacklist req then Regional else Global)\<rparr>)
                      (vr_parent_beacon_block_root req) (vr_inclusion_list req)
                in (case do_json_sim_request (env_json_post env to_send method json (vr_is_top_bid req)) of
                      Inl e \<Rightarrow> Inl e | Inr _ \<Rightarrow> Inr [], None))
           | SignedGloas _ \<Rightarrow> (Inl (UnsupportedFork Gloas), None)))"

definition sim_task_res ::
  "externals \<Rightarrow> sim_env \<Rightarrow> ValidationRequest \<Rightarrow> SimDispatch \<Rightarrow> (BlockSimError, TxDetail list) Result \<times> bool" where
  "sim_task_res x env req d =
     (let (res, ssz_retry) = first_attempt env req d;
          (res1, retried) =
            (if res = Inl HydrationMiss then
               (case ssz_retry of
                  Some (body, ssz_url) \<Rightarrow>
                    (do_sim_request (env_decode env)
                       (env_ssz_post env 1 (ssz_url @ ''/validate'') body (vr_is_top_bid req)), True)
                | None \<Rightarrow> (Inl RpcError, False))
             else (res, False))
      in (case (vr_tx_root req, vr_submission req) of
            (Some got, SignedFulu f) \<Rightarrow>
              (let expected = transaction_root x (sf_execution_payload f) in
               if expected \<noteq> got then Inl (InvalidTxRoot got expected) else res1)
          | _ \<Rightarrow> res1, retried))"

definition sim_task :: "externals \<Rightarrow> sim_env \<Rightarrow> nat \<Rightarrow> nat \<Rightarrow> ValidationRequest \<Rightarrow> SimDispatch \<Rightarrow> SimulatorsEvent" where
  "sim_task x env time sid req d =
     (let (res, retried) = sim_task_res x env req d;
          error = (case res of Inl e \<Rightarrow> Some e | Inr _ \<Rightarrow> None);
          inner = \<lparr>sri_submission_ref = vr_submission_ref req,
            sri_optimistic_version = optimistic_version req,
            sri_bid = Some (Bid_new x (vr_version req) (vr_submission req) (vr_parent_beacon_block_root req)),
            sri_result = (case res of Inl e \<Rightarrow> Inl e | Inr _ \<Rightarrow> Inr (vr_trace req)),
            sri_submission_id = vr_submission_id req, sri_block_hash = req_hash req,
            sri_txs = (case res of Inl _ \<Rightarrow> [] | Inr txs \<Rightarrow> txs), sri_retried = retried\<rparr>
      in TaskDone sid error (Validate sid (Some inner)) (Some time))"

definition merged_block_to_submission ::
  "BlockMergeResponse \<Rightarrow> MergedValidationRequest \<Rightarrow> (BlockSimError, SignedBidSubmissionFulu) Result" where
  "merged_block_to_submission response req =
     (let payload = bmr_execution_payload response in
      Inr \<lparr>sf_message = \<lparr>bt_slot = mv_slot req, bt_parent_hash = ep_parent_hash payload,
              bt_block_hash = ep_block_hash payload, bt_builder_pubkey = 0, bt_proposer_pubkey = 0,
              bt_proposer_fee_recipient = mv_proposer_fee_recipient req,
              bt_gas_limit = ep_gas_limit payload, bt_gas_used = ep_gas_used payload,
              bt_value = bmr_proposer_value response\<rparr>,
           sf_execution_payload = payload, sf_blobs_bundle = bmr_blobs_bundle response,
           sf_execution_requests = bmr_execution_requests response, sf_signature = 0\<rparr>)"

definition merge_sim_task ::
  "sim_env \<Rightarrow> nat \<Rightarrow> nat \<Rightarrow> MergedValidationRequest \<Rightarrow> BlockMergeResponse \<Rightarrow> SimDispatch \<Rightarrow> SimulatorsEvent" where
  "merge_sim_task env time sid req response d =
     (case merged_block_to_submission response req of
        Inl err \<Rightarrow>
          TaskDone sid None (ValidateMerged sid (Some \<lparr>mri_result = Inl err,
            mri_submission_id = mv_submission_id req,
            mri_block_hash = ep_block_hash (bmr_execution_payload response), mri_txs = []\<rparr>)) None
      | Inr submission \<Rightarrow>
          (let index = word_of_nat (bmr_base_payment_tx_index response);
               res =
                 (case d of
                    DispatchSsz to_send endpoint \<Rightarrow>
                      do_sim_request (env_decode env) (env_ssz_post env 0 to_send
                        (merged_request_ssz (env_merged_codec env)
                          \<lparr>sv_apply_blacklist = mv_apply_blacklist req,
                           sv_registered_gas_limit = mv_registered_gas_limit req,
                           sv_parent_beacon_block_root = mv_parent_beacon_block_root req,
                           sv_inclusion_list = mv_inclusion_list req, sv_decoder_params = None,
                           sv_signed_bid_submission = submission\<rparr> index) False)
                  | DispatchJson to_send method \<Rightarrow>
                      (case do_json_sim_request (env_merged_json_post env to_send method
                              (JsonValidationRequest_new (mv_registered_gas_limit req) submission
                                (default_preferences\<lparr>vp_filtering := (if mv_apply_blacklist req then Regional else Global)\<rparr>)
                                (mv_parent_beacon_block_root req) (mv_inclusion_list req)) index) of
                         Inl e \<Rightarrow> Inl e | Inr _ \<Rightarrow> Inr []))
           in TaskDone sid (case res of Inl e \<Rightarrow> Some e | Inr _ \<Rightarrow> None)
                (ValidateMerged sid (Some
                  \<lparr>mri_result = (case res of Inl e \<Rightarrow> Inl e | Inr _ \<Rightarrow> Inr ()),
                   mri_submission_id = mv_submission_id req,
                   mri_block_hash = ep_block_hash (sf_execution_payload submission),
                   mri_txs = (case res of Inl _ \<Rightarrow> [] | Inr txs \<Rightarrow> txs)\<rparr>)) (Some time)))"

fun run_task :: "externals \<Rightarrow> sim_env \<Rightarrow> nat \<Rightarrow> SimTask \<Rightarrow> SimulatorsEvent" where
  "run_task x env time (ValidateTask sid req d) = sim_task x env time sid req d"
| "run_task x env time (MergedTask sid req response d) = merge_sim_task env time sid req response d"

section \<open>What the pool owes\<close>

text \<open>A builder whose submission is not optimistic waits for its result.  The references of the
  submissions the pool still owes a result for: in the queues, waiting on the simulation of the
  same block, running, in the channel, or answered and not yet taken.\<close>

definition owed :: "ValidationRequest \<Rightarrow> SubmissionRef multiset" where
  "owed r = (if vr_is_optimistic r then {#} else {#vr_submission_ref r#})"

fun owed_result :: "SimResult \<Rightarrow> SubmissionRef multiset" where
  "owed_result (Validate _ (Some inner)) =
     (if sri_optimistic_version inner = NotOptimistic then {#sri_submission_ref inner#} else {#})"
| "owed_result _ = {#}"

fun owed_task :: "SimTask \<Rightarrow> SubmissionRef multiset" where
  "owed_task (ValidateTask _ req _) = owed req"
| "owed_task (MergedTask _ _ _ _) = {#}"

fun owed_event :: "SimulatorsEvent \<Rightarrow> SubmissionRef multiset" where
  "owed_event (TaskDone _ _ result _) = owed_result result"
| "owed_event (SyncStatus _ _) = {#}"

definition owed_reqs :: "PendingRequests \<Rightarrow> SubmissionRef multiset" where
  "owed_reqs q = sum_list (map (\<lambda>p. owed (fst p)) q)"

definition owed_list :: "ValidationRequest list \<Rightarrow> SubmissionRef multiset" where
  "owed_list rs = sum_list (map owed rs)"

definition owed_seen :: "(B256, SimSeen) FxHashMap \<Rightarrow> SubmissionRef multiset" where
  "owed_seen m = sum_list (map (\<lambda>(k, v). owed_list (waiting_on v)) m)"

definition owed_done :: "SimDone list \<Rightarrow> SubmissionRef multiset" where
  "owed_done ds = sum_list (map (\<lambda>d. owed_result (sdn_result d)) ds)"

definition in_progress :: "Simulators \<Rightarrow> SubmissionRef multiset" where
  "in_progress s = sum_list (map owed_task (sm_tasks s)) + sum_list (map owed_event (sm_rx s)) +
     owed_done (sm_answered s)"

definition outstanding :: "Simulators \<Rightarrow> SubmissionRef multiset" where
  "outstanding s = owed_reqs (sm_requests s) + owed_reqs (sm_priority_requests s) +
     owed_seen (sm_seen_blocks s) + in_progress s"

text \<open>The operations on the pool, with the references asked for and delivered so far.  A task ends by
  sending its event; the status poll sends one for each simulator.\<close>

datatype SimOp =
    DispatchOp nat ValidationRequest bool
  | DispatchMergedOp nat MergedValidationRequest BlockMergeResponse
  | NewSlotOp u64
  | FinishOp nat nat sim_env
  | SyncOp nat "bool option"
  | PollOp nat

type_synonym Ledger = "Simulators \<times> SubmissionRef multiset \<times> SubmissionRef multiset"

definition finish_task_at :: "externals \<Rightarrow> sim_env \<Rightarrow> nat \<Rightarrow> nat \<Rightarrow> Simulators \<Rightarrow> Simulators" where
  "finish_task_at x env time i s =
     (if i < length (sm_tasks s)
      then s\<lparr>sm_tasks := take i (sm_tasks s) @ drop (Suc i) (sm_tasks s),
             sm_rx := sm_rx s @ [run_task x env time (sm_tasks s ! i)]\<rparr>
      else s)"

fun pool_step :: "externals \<Rightarrow> SimOp \<Rightarrow> Ledger \<Rightarrow> Ledger option" where
  "pool_step x (DispatchOp now req fast_track) (s, asked, got) =
     map_option (\<lambda>(_, s'). (s', asked + owed req, got)) (dispatch x now req fast_track s)"
| "pool_step x (DispatchMergedOp now req response) (s, asked, got) =
     map_option (\<lambda>(_, s'). (s', asked, got)) (dispatch_merged now req response s)"
| "pool_step x (NewSlotOp slot) (s, asked, got) = Some (snd (sim_on_new_slot slot s), asked, got)"
| "pool_step x (FinishOp i time env) (s, asked, got) = Some (finish_task_at x env time i s, asked, got)"
| "pool_step x (SyncOp sid reported) (s, asked, got) =
     Some (if sid < length (sm_simulators s) then s\<lparr>sm_rx := sm_rx s @ [SyncStatus sid reported]\<rparr> else s,
       asked, got)"
| "pool_step x (PollOp now) (s, asked, got) =
     map_option (\<lambda>(_, d, s'). (s', asked,
         got + (case d of Some d \<Rightarrow> owed_result (sdn_result d) | None \<Rightarrow> {#})))
       (next_done x now s)"

fun asked_by :: "SimOp \<Rightarrow> SubmissionRef multiset" where
  "asked_by (DispatchOp _ req _) = owed req"
| "asked_by _ = {#}"

fun task_sid :: "SimTask \<Rightarrow> nat" where
  "task_sid (ValidateTask sid _ _) = sid"
| "task_sid (MergedTask sid _ _ _) = sid"

fun event_sid :: "SimulatorsEvent \<Rightarrow> nat" where
  "event_sid (TaskDone sid _ _ _) = sid"
| "event_sid (SyncStatus sid _) = sid"

fun is_task_done :: "SimulatorsEvent \<Rightarrow> bool" where
  "is_task_done (TaskDone _ _ _ _) = True"
| "is_task_done (SyncStatus _ _) = False"

text \<open>The tasks of one simulator that run or whose result is in the channel.\<close>

definition busy :: "nat \<Rightarrow> Simulators \<Rightarrow> nat" where
  "busy i s = length (filter (\<lambda>t. task_sid t = i) (sm_tasks s)) +
     length (filter (\<lambda>e. is_task_done e \<and> event_sid e = i) (sm_rx s))"

fun task_hash :: "SimTask \<Rightarrow> B256 option" where
  "task_hash (ValidateTask _ req _) = Some (req_hash req)"
| "task_hash (MergedTask _ _ _ _) = None"

fun event_hash :: "SimulatorsEvent \<Rightarrow> B256 option" where
  "event_hash (TaskDone _ _ (Validate _ (Some inner)) _) = Some (sri_block_hash inner)"
| "event_hash _ = None"

definition simulating :: "Simulators \<Rightarrow> B256 option set" where
  "simulating s = task_hash ` set (sm_tasks s) \<union> event_hash ` set (sm_rx s)"

text \<open>The invariants: the accounts balance; every simulator's pending count is the number of its
  tasks; and a block whose resubmissions wait is being simulated.\<close>

definition accounts_ok :: "Ledger \<Rightarrow> bool" where
  "accounts_ok L = (case L of (s, asked, got) \<Rightarrow> asked = got + outstanding s \<and>
     distinct (map fst (sm_seen_blocks s)) \<and> list_all vr_is_optimistic (sm_superseded s))"

definition sims_ok :: "Simulators \<Rightarrow> bool" where
  "sims_ok s \<longleftrightarrow> length (sm_slot_stats s) = length (sm_simulators s) \<and>
     (\<forall>i < length (sm_simulators s). entry_ok (sm_simulators s ! i) \<and>
        se_pending (sm_simulators s ! i) = busy i s) \<and>
     (\<forall>t \<in> set (sm_tasks s). task_sid t < length (sm_simulators s)) \<and>
     (\<forall>e \<in> set (sm_rx s). event_sid e < length (sm_simulators s))"

definition flight_within :: "B256 option set \<Rightarrow> Simulators \<Rightarrow> bool" where
  "flight_within X s \<longleftrightarrow> (\<forall>h w. map_of (sm_seen_blocks s) h = Some (InFlight w) \<longrightarrow> Some h \<in> simulating s \<union> X)"

abbreviation flight_ok :: "Simulators \<Rightarrow> bool" where
  "flight_ok s \<equiv> flight_within {} s"

definition pool_ok :: "Ledger \<Rightarrow> bool" where
  "pool_ok L \<longleftrightarrow> accounts_ok L \<and> sims_ok (fst L) \<and> flight_ok (fst L)"

text \<open>The counters of the intake, and what the queue holds for a key.\<close>

definition intake :: "LocalTelemetry \<Rightarrow> nat \<times> nat \<times> nat \<times> nat" where
  "intake t = (lt_sims_reqs t, lt_sims_sent_immediately t, lt_queued t, lt_duplicate_skipped t)"

definition intake_ok :: "Simulators \<Rightarrow> bool" where
  "intake_ok s \<longleftrightarrow> lt_sims_reqs (sm_telemetry s) =
     lt_sims_sent_immediately (sm_telemetry s) + lt_queued (sm_telemetry s) + lt_duplicate_skipped (sm_telemetry s)"

definition queued_for :: "PendingRequests \<Rightarrow> QueueKey \<Rightarrow> (ValidationRequest \<times> SubmissionVersion) option" where
  "queued_for q k = map_of (map (\<lambda>(r, k, v). (k, r, v)) q) k"

definition sample_request :: "B256 \<Rightarrow> bool \<Rightarrow> ValidationRequest" where
  "sample_request hash optimistic =
     \<lparr>vr_submission_id = 1, vr_priority = Low, vr_is_top_bid = False, vr_is_optimistic = optimistic,
      vr_apply_blacklist = False, vr_registered_gas_limit = 30, vr_parent_beacon_block_root = 6,
      vr_inclusion_list = [], vr_submission = SignedGloas
        \<lparr>gs_message = \<lparr>gt_trace = sample_trace\<lparr>bt_block_hash := hash\<rparr>, gt_parent_block_root = 6\<rparr>,
         gs_bytes = [], gs_blobs_offset = 0, gs_requests_offset = 0\<rparr>,
      vr_tx_root = None, vr_version = \<lparr>on_receive_ns = 1, sequence = None\<rparr>,
      vr_trace = \<lparr>st_receive_ns = 1, st_read_body_ns = 2, st_decoded_ns = 3, st_metadata = []\<rparr>,
      vr_receive_ns = 1, vr_submission_ref = SubmissionRef_http 1\<rparr>"

text \<open>The part of the pool that starting a simulation depends on.\<close>

definition same_view :: "Simulators \<Rightarrow> Simulators \<Rightarrow> bool" where
  "same_view s t \<longleftrightarrow> sm_simulators t = sm_simulators s \<and> sm_slot_stats t = sm_slot_stats s \<and>
     sm_tasks t = sm_tasks s \<and> sm_rx t = sm_rx s \<and> sm_seen_blocks t = sm_seen_blocks s \<and>
     intake (sm_telemetry t) = intake (sm_telemetry s)"

section \<open>Lemmas\<close>

lemma position_Some: "position P xs = Some i \<Longrightarrow> i < length xs \<and> P (xs ! i)"
  using nth_length_takeWhile [of "\<lambda>x. \<not> P x" xs] by (auto simp: position_def Let_def split: if_splits)

lemma position_None: "position P xs = None \<longleftrightarrow> (\<forall>x \<in> set xs. \<not> P x)"
proof -
  have "length (takeWhile (\<lambda>x. \<not> P x) xs) < length xs \<longleftrightarrow> \<not> (\<forall>x \<in> set xs. \<not> P x)"
    by (induction xs) auto
  then show ?thesis by (simp add: position_def Let_def)
qed

lemma queue_store_owed:
  assumes "queue_store req key v q tel = (d, q', tel')"
  shows "owed_reqs q' + (case d of Some r \<Rightarrow> owed r | None \<Rightarrow> {#}) = owed_reqs q + owed req"
proof (cases "position (\<lambda>p. fst (snd p) = key) q")
  case None
  then show ?thesis using assms by (auto simp: queue_store_def owed_reqs_def Let_def)
next
  case (Some i)
  then have "i < length q" by (simp add: position_Some)
  from sum_list_list_update [OF this, of "\<lambda>p. owed (fst p)" "(req, key, v)"]
  show ?thesis using assms Some
    by (auto simp: queue_store_def owed_reqs_def Let_def split: if_splits)
qed

lemma queue_next_req_owed: "queue_next_req q = Some (r, q') \<Longrightarrow> owed_reqs q = owed r + owed_reqs q'"
  using sum_list_swap_remove [of _ q "\<lambda>p. owed (fst p)"]
  by (auto simp: queue_next_req_def owed_reqs_def split: option.splits dest!: max_by_key_mem)

lemma owed_result_dropped: "SimDone_dropped r = Some d \<Longrightarrow> owed_result (sdn_result d) = owed r"
  by (auto simp: SimDone_dropped_def owed_def optimistic_version_def split: if_splits)

lemma owed_dropped_None: "SimDone_dropped r = None \<Longrightarrow> owed r = {#}"
  by (auto simp: SimDone_dropped_def owed_def split: if_splits)

text \<open>Answering a request moves it from what waits to what is answered.\<close>

lemma answer_dropped_owed [simp]: "owed_done (sm_answered (answer_dropped r s)) = owed_done (sm_answered s) + owed r"
  by (auto simp: answer_dropped_def owed_done_def owed_result_dropped owed_dropped_None split: option.splits)

lemma answer_cached_owed [simp]: "owed_done (sm_answered (answer_cached x r res s)) = owed_done (sm_answered s) + owed r"
  by (simp add: answer_cached_def owed_done_def owed_def optimistic_version_def)

lemma answer_frame [simp]:
  "sm_simulators (answer_dropped r s) = sm_simulators s" "sm_simulators (answer_cached x r res s) = sm_simulators s"
  "sm_requests (answer_dropped r s) = sm_requests s" "sm_requests (answer_cached x r res s) = sm_requests s"
  "sm_priority_requests (answer_dropped r s) = sm_priority_requests s"
  "sm_priority_requests (answer_cached x r res s) = sm_priority_requests s"
  "sm_superseded (answer_dropped r s) = sm_superseded s" "sm_superseded (answer_cached x r res s) = sm_superseded s"
  "sm_slot_stats (answer_dropped r s) = sm_slot_stats s" "sm_slot_stats (answer_cached x r res s) = sm_slot_stats s"
  "sm_rx (answer_dropped r s) = sm_rx s" "sm_rx (answer_cached x r res s) = sm_rx s"
  "sm_seen_blocks (answer_dropped r s) = sm_seen_blocks s" "sm_seen_blocks (answer_cached x r res s) = sm_seen_blocks s"
  "sm_tasks (answer_dropped r s) = sm_tasks s" "sm_tasks (answer_cached x r res s) = sm_tasks s"
  by (simp_all add: answer_dropped_def answer_cached_def split: option.splits)

lemma fold_answer_frame [simp]:
  "sm_simulators (fold answer_dropped rs s) = sm_simulators s"
  "sm_requests (fold answer_dropped rs s) = sm_requests s"
  "sm_priority_requests (fold answer_dropped rs s) = sm_priority_requests s"
  "sm_superseded (fold answer_dropped rs s) = sm_superseded s"
  "sm_slot_stats (fold answer_dropped rs s) = sm_slot_stats s"
  "sm_rx (fold answer_dropped rs s) = sm_rx s"
  "sm_seen_blocks (fold answer_dropped rs s) = sm_seen_blocks s"
  "sm_tasks (fold answer_dropped rs s) = sm_tasks s"
  "sm_simulators (fold (\<lambda>r. answer_cached x r res) rs s) = sm_simulators s"
  "sm_requests (fold (\<lambda>r. answer_cached x r res) rs s) = sm_requests s"
  "sm_priority_requests (fold (\<lambda>r. answer_cached x r res) rs s) = sm_priority_requests s"
  "sm_superseded (fold (\<lambda>r. answer_cached x r res) rs s) = sm_superseded s"
  "sm_slot_stats (fold (\<lambda>r. answer_cached x r res) rs s) = sm_slot_stats s"
  "sm_rx (fold (\<lambda>r. answer_cached x r res) rs s) = sm_rx s"
  "sm_seen_blocks (fold (\<lambda>r. answer_cached x r res) rs s) = sm_seen_blocks s"
  "sm_tasks (fold (\<lambda>r. answer_cached x r res) rs s) = sm_tasks s"
  by (rule fold_frame, simp)+

lemma fold_answer_owed [simp]:
  "owed_done (sm_answered (fold answer_dropped rs s)) = owed_done (sm_answered s) + owed_list rs"
  "owed_done (sm_answered (fold (\<lambda>r. answer_cached x r res) rs s)) = owed_done (sm_answered s) + owed_list rs"
  by (induction rs arbitrary: s) (simp_all add: owed_list_def ac_simps)

lemma seen_update_owed:
  "owed_seen (AList.update h v m) + (case map_of m h of Some w \<Rightarrow> owed_list (waiting_on w) | None \<Rightarrow> {#}) =
   owed_seen m + owed_list (waiting_on v)"
  unfolding owed_seen_def by (rule sum_list_update_add)

lemma seen_delete_owed:
  "distinct (map fst m) \<Longrightarrow>
   owed_seen (AList.delete h m) + (case map_of m h of Some w \<Rightarrow> owed_list (waiting_on w) | None \<Rightarrow> {#}) = owed_seen m"
  unfolding owed_seen_def by (rule sum_list_delete_add)

lemma owed_list_simps [simp]:
  "owed_list [] = {#}" "owed_list (r # rs) = owed r + owed_list rs" "owed_list (rs @ ss) = owed_list rs + owed_list ss"
  by (simp_all add: owed_list_def)

lemma owed_priority [simp]: "owed (r\<lparr>vr_priority := p\<rparr>) = owed r"
  by (simp add: owed_def)

lemma unsupported_owed [simp]: "owed_result (unsupported_result sid r) = owed r"
  by (simp add: unsupported_result_def owed_def optimistic_version_def)

lemma mark_in_flight_owed [simp]: "owed_seen (sm_seen_blocks (mark_in_flight h s)) = owed_seen (sm_seen_blocks s)"
  using seen_update_owed [of h "InFlight []" "sm_seen_blocks s"]
  by (simp add: mark_in_flight_def split: option.splits)

lemma mark_in_flight_frame [simp]:
  "sm_simulators (mark_in_flight h s) = sm_simulators s" "sm_requests (mark_in_flight h s) = sm_requests s"
  "sm_priority_requests (mark_in_flight h s) = sm_priority_requests s" "sm_superseded (mark_in_flight h s) = sm_superseded s"
  "sm_slot_stats (mark_in_flight h s) = sm_slot_stats s" "sm_rx (mark_in_flight h s) = sm_rx s"
  "sm_answered (mark_in_flight h s) = sm_answered s" "sm_tasks (mark_in_flight h s) = sm_tasks s"
  by (simp_all add: mark_in_flight_def split: option.splits)

lemma mark_in_flight_seen:
  "distinct (map fst (sm_seen_blocks s)) \<Longrightarrow> distinct (map fst (sm_seen_blocks (mark_in_flight h s)))"
  "map_of (sm_seen_blocks (mark_in_flight h s)) k =
     (if k = h \<and> map_of (sm_seen_blocks s) h = None then Some (InFlight []) else map_of (sm_seen_blocks s) k)"
  by (auto simp: mark_in_flight_def map_of_update_other distinct_update split: option.splits)

text \<open>Starting a simulation: the request becomes a running task, or at once an event.\<close>

lemma spawn_sim_accounts:
  assumes "spawn_sim sid req s = Some (st, s')"
  shows "outstanding s' = outstanding s + owed req \<and> sm_superseded s' = sm_superseded s \<and>
    (distinct (map fst (sm_seen_blocks s)) \<longrightarrow> distinct (map fst (sm_seen_blocks s')))"
  using assms
  by (auto simp: spawn_sim_def Let_def outstanding_def in_progress_def add_pending_def track_max_in_flight_def
      mark_in_flight_seen(1) ac_simps split: option.splits if_splits)

lemma spawn_merge_accounts:
  assumes "spawn_merge_sim sid req response s = Some (st, s')"
  shows "outstanding s' = outstanding s \<and> sm_superseded s' = sm_superseded s \<and>
    sm_seen_blocks s' = sm_seen_blocks s"
  using assms
  by (auto simp: spawn_merge_sim_def Let_def outstanding_def in_progress_def add_pending_def
      track_max_in_flight_def split: if_splits)

text \<open>An optimistic request that is replaced owes nothing, so keeping it aside balances.\<close>

lemma settle_dropped_accounts:
  "outstanding (settle_dropped d s) = outstanding s + owed d \<and>
   sm_seen_blocks (settle_dropped d s) = sm_seen_blocks s \<and>
   (list_all vr_is_optimistic (sm_superseded s) \<longrightarrow> list_all vr_is_optimistic (sm_superseded (settle_dropped d s)))"
  by (simp add: settle_dropped_def outstanding_def in_progress_def ac_simps) (simp add: owed_def)

lemma enqueue_accounts:
  "outstanding (enqueue req ft s) = outstanding s + owed req \<and>
   sm_seen_blocks (enqueue req ft s) = sm_seen_blocks s \<and>
   (list_all vr_is_optimistic (sm_superseded s) \<longrightarrow> list_all vr_is_optimistic (sm_superseded (enqueue req ft s)))"
proof -
  let ?key = "\<lparr>qk_parent_hash = bt_parent_hash (req_trace req), qk_builder_pubkey = bt_builder_pubkey (req_trace req)\<rparr>"
  obtain d q tel where q: "queue_store req ?key (vr_version req)
      (if ft then sm_priority_requests s else sm_requests s) (sm_telemetry s) = (d, q, tel)"
    by (metis prod_cases3)
  define s1 where "s1 = (if ft then s\<lparr>sm_priority_requests := q, sm_telemetry := tel\<rparr>
      else s\<lparr>sm_requests := q, sm_telemetry := tel\<rparr>)"
  have s1: "outstanding s1 + (case d of Some r \<Rightarrow> owed r | None \<Rightarrow> {#}) = outstanding s + owed req"
      "sm_seen_blocks s1 = sm_seen_blocks s" "sm_superseded s1 = sm_superseded s"
    using queue_store_owed [OF q] by (auto simp: s1_def outstanding_def in_progress_def ac_simps)
  have e: "enqueue req ft s = (case d of None \<Rightarrow> s1 | Some d \<Rightarrow> settle_dropped d s1)"
    unfolding enqueue_def Let_def q s1_def by (cases ft) simp_all
  show ?thesis using s1 settle_dropped_accounts [of _ s1] unfolding e by (cases d) auto
qed

lemma take_sample_frame:
  assumes "take_sample b s = (taken, s')"
  shows "s' = s\<lparr>sm_sample_state := sm_sample_state s'\<rparr>"
  using assms by (auto simp: take_sample_def Let_def split: if_splits)

lemma outstanding_frame [simp]:
  "outstanding (s\<lparr>sm_telemetry := tel\<rparr>) = outstanding s" "outstanding (s\<lparr>sm_sample_state := m\<rparr>) = outstanding s"
  "outstanding (s\<lparr>sm_simulators := es\<rparr>) = outstanding s" "outstanding (s\<lparr>sm_slot_stats := st\<rparr>) = outstanding s"
  "outstanding (refresh_accept_optimistic now s) = outstanding s"
  "outstanding (s\<lparr>sm_merge_requests := ms\<rparr>) = outstanding s" "outstanding (s\<lparr>sm_superseded := rs\<rparr>) = outstanding s"
  by (simp_all add: outstanding_def in_progress_def refresh_accept_optimistic_def)

lemma sampled_frame:
  assumes "sampled req s = (req1, s1)"
  shows "owed req1 = owed req \<and> req_trace req1 = req_trace req \<and> outstanding s1 = outstanding s \<and>
    sm_superseded s1 = sm_superseded s \<and> sm_seen_blocks s1 = sm_seen_blocks s \<and>
    sm_simulators s1 = sm_simulators s \<and> sm_slot_stats s1 = sm_slot_stats s \<and> sm_tasks s1 = sm_tasks s \<and> sm_rx s1 = sm_rx s"
proof -
  obtain taken s' where t: "take_sample (bt_builder_pubkey (req_trace req)) s = (taken, s')" by force
  obtain m where m: "s' = s\<lparr>sm_sample_state := m\<rparr>" using take_sample_frame [OF t] by blast
  show ?thesis using assms
    by (auto simp: sampled_def t [unfolded req_trace_def] m req_trace_def outstanding_def in_progress_def split: if_splits)
qed

lemma dispatch_accounts:
  assumes "dispatch x now req ft s = Some (st, s')" "distinct (map fst (sm_seen_blocks s))"
    "list_all vr_is_optimistic (sm_superseded s)"
  shows "outstanding s' = outstanding s + owed req \<and> distinct (map fst (sm_seen_blocks s')) \<and>
    list_all vr_is_optimistic (sm_superseded s')"
proof (cases "map_of (sm_seen_blocks s) (req_hash req)")
  case (Some seen)
  show ?thesis
  proof (cases seen)
    case (InFlight waiting)
    show ?thesis
      using assms Some InFlight seen_update_owed [of "req_hash req" "InFlight (waiting @ [req])" "sm_seen_blocks s"]
      by (auto simp: dispatch_def Let_def outstanding_def in_progress_def distinct_update owed_def ac_simps)
  next
    case (Done result)
    then show ?thesis using assms Some
      by (auto simp: dispatch_def Let_def outstanding_def in_progress_def ac_simps)
  qed
next
  case None
  let ?s0 = "tally (\<lambda>t. t\<lparr>lt_sims_reqs := lt_sims_reqs t + 1\<rparr>) s"
  obtain req1 s1 where smp: "sampled req ?s0 = (req1, s1)" by force
  note f = sampled_frame [OF smp]
  show ?thesis
  proof (cases "select_simulator_at now s1")
    case (Some sid)
    then have "spawn_sim sid req1 (tally (\<lambda>t. t\<lparr>lt_sims_sent_immediately := lt_sims_sent_immediately t + 1\<rparr>) s1) = Some (st, s')"
      using assms(1) None smp by (simp add: dispatch_def Let_def)
    from spawn_sim_accounts [OF this] show ?thesis using f assms(2,3) by simp
  next
    case Nosim: None
    then have "s' = enqueue req1 ft (tally (\<lambda>t. t\<lparr>lt_queued := lt_queued t + 1\<rparr>) s1)"
      using assms(1) None smp by (simp add: dispatch_def Let_def)
    then show ?thesis using f assms(2,3) enqueue_accounts [of req1 ft] by simp
  qed
qed

lemma pop_unseen_subset: "pop_unseen seen rs = (r, rest) \<Longrightarrow> set rest \<subseteq> set rs \<and> (\<forall>q. r = Some q \<longrightarrow> q \<in> set rs)"
  by (induction rs) (auto split: if_splits)

lemma send_next_accounts:
  assumes "send_next sid s = Some (st, s')" "distinct (map fst (sm_seen_blocks s))"
    "list_all vr_is_optimistic (sm_superseded s)"
  shows "outstanding s' = outstanding s \<and> distinct (map fst (sm_seen_blocks s')) \<and>
    list_all vr_is_optimistic (sm_superseded s')"
proof -
  consider (prio) req q where "queue_next_req (sm_priority_requests s) = Some (req, q)"
    | (queue) req q where "queue_next_req (sm_priority_requests s) = None" "queue_next_req (sm_requests s) = Some (req, q)"
    | (merge) req response q where "queue_next_req (sm_priority_requests s) = None" "queue_next_req (sm_requests s) = None"
        "merge_next_req (sm_merge_requests s) = Some ((req, response), q)"
    | (idle) r rest where "queue_next_req (sm_priority_requests s) = None" "queue_next_req (sm_requests s) = None"
        "merge_next_req (sm_merge_requests s) = None" "pop_unseen (sm_seen_blocks s) (rev (sm_superseded s)) = (r, rest)"
    by (metis option.exhaust prod.exhaust)
  then show ?thesis
  proof cases
    case prio
    obtain st1 where "spawn_sim sid req (tally (\<lambda>t. t\<lparr>lt_sims_sent_from_queue := lt_sims_sent_from_queue t + 1\<rparr>)
        (s\<lparr>sm_priority_requests := q\<rparr>)) = Some (st1, s')"
      using assms(1) prio by (auto simp: send_next_def Let_def)
    from spawn_sim_accounts [OF this] queue_next_req_owed [OF prio] show ?thesis
      using assms(2,3) by (simp add: outstanding_def in_progress_def ac_simps)
  next
    case queue
    obtain st1 where "spawn_sim sid req (tally (\<lambda>t. t\<lparr>lt_sims_sent_from_queue := lt_sims_sent_from_queue t + 1\<rparr>)
        (s\<lparr>sm_requests := q\<rparr>)) = Some (st1, s')"
      using assms(1) queue by (auto simp: send_next_def Let_def)
    from spawn_sim_accounts [OF this] queue_next_req_owed [OF queue(2)] show ?thesis
      using assms(2,3) by (simp add: outstanding_def in_progress_def ac_simps)
  next
    case merge
    obtain st1 where "spawn_merge_sim sid req response (s\<lparr>sm_merge_requests := q\<rparr>) = Some (st1, s')"
      using assms(1) merge by (auto simp: send_next_def Let_def)
    from spawn_merge_accounts [OF this] show ?thesis using assms(2,3) by simp
  next
    case idle
    have sub: "list_all vr_is_optimistic (rev rest)" "\<forall>q. r = Some q \<longrightarrow> owed q = {#}"
      using pop_unseen_subset [OF idle(4)] assms(3) by (auto simp: list_all_iff owed_def)
    show ?thesis
    proof (cases r)
      case None
      then show ?thesis using assms idle sub by (auto simp: send_next_def Let_def)
    next
      case (Some req)
      obtain st1 where "spawn_sim sid req (tally (\<lambda>t. t\<lparr>lt_superseded_sent := lt_superseded_sent t + 1\<rparr>)
          (s\<lparr>sm_superseded := rev rest\<rparr>)) = Some (st1, s')"
        using assms(1) idle Some by (auto simp: send_next_def Let_def)
      from spawn_sim_accounts [OF this] show ?thesis using assms(2) sub Some by simp
    qed
  qed
qed

lemma settle_task_frame [simp]:
  "outstanding (settle_task now sid err t s) = outstanding s"
  "sm_seen_blocks (settle_task now sid err t s) = sm_seen_blocks s"
  "sm_superseded (settle_task now sid err t s) = sm_superseded s"
  "sm_tasks (settle_task now sid err t s) = sm_tasks s" "sm_rx (settle_task now sid err t s) = sm_rx s"
  by (simp_all add: settle_task_def refresh_accept_optimistic_def outstanding_def in_progress_def)

lemma on_task_response_accounts:
  assumes "on_task_response now sid err t s = Some (st, s')" "distinct (map fst (sm_seen_blocks s))"
    "list_all vr_is_optimistic (sm_superseded s)"
  shows "outstanding s' = outstanding s \<and> distinct (map fst (sm_seen_blocks s')) \<and>
    list_all vr_is_optimistic (sm_superseded s')"
  using assms send_next_accounts [of _ "settle_task now sid err t s" st s']
  by (auto simp: on_task_response_def Let_def split: if_splits option.splits)

lemma on_block_simulated_accounts:
  assumes "distinct (map fst (sm_seen_blocks s))"
  shows "outstanding (on_block_simulated x h res s) = outstanding s \<and>
    distinct (map fst (sm_seen_blocks (on_block_simulated x h res s))) \<and>
    sm_superseded (on_block_simulated x h res s) = sm_superseded s"
proof (cases "map_of (sm_seen_blocks s) h")
  case None
  then show ?thesis
    using assms seen_update_owed [of h _ "sm_seen_blocks s"] seen_delete_owed [OF assms, of h]
    by (simp add: on_block_simulated_def Let_def outstanding_def in_progress_def distinct_update distinct_delete split: sum.splits)
next
  case (Some seen)
  then show ?thesis
    using assms seen_update_owed [of h _ "sm_seen_blocks s"] seen_delete_owed [OF assms, of h]
    by (cases seen) (simp_all add: on_block_simulated_def Let_def outstanding_def in_progress_def distinct_update
        distinct_delete ac_simps split: sum.splits)
qed

lemma outstanding_rx:
  assumes "sm_rx s = e # es"
  shows "outstanding s = outstanding (s\<lparr>sm_rx := es\<rparr>) + owed_event e"
  using assms by (simp add: outstanding_def in_progress_def ac_simps)

lemma handle_sync_accounts:
  assumes "handle_sync_status now sid rep s = Some s'"
  shows "outstanding s' = outstanding s \<and> sm_seen_blocks s' = sm_seen_blocks s \<and> sm_superseded s' = sm_superseded s"
  using assms by (auto simp: handle_sync_status_def refresh_accept_optimistic_def outstanding_def in_progress_def
      split: if_splits)

lemma next_done_from_accounts:
  assumes "next_done_from x now es s = Some (st, d, s')" "sm_rx s = es" "distinct (map fst (sm_seen_blocks s))"
    "list_all vr_is_optimistic (sm_superseded s)"
  shows "outstanding s = outstanding s' + (case d of Some d \<Rightarrow> owed_result (sdn_result d) | None \<Rightarrow> {#}) \<and>
    distinct (map fst (sm_seen_blocks s')) \<and> list_all vr_is_optimistic (sm_superseded s')"
  using assms
proof (induction x now es s arbitrary: st d s' rule: next_done_from.induct)
  case (1 x now s)
  then show ?case
    by (cases "sm_answered s" rule: rev_cases) (auto simp: outstanding_def in_progress_def owed_done_def ac_simps)
next
  case (2 x now sid reported events s)
  obtain s1 where s1: "handle_sync_status now sid reported (s\<lparr>sm_rx := events\<rparr>) = Some s1"
    using 2(2) by (auto split: option.splits)
  note h = handle_sync_accounts [OF s1]
  have "sm_rx s1 = events" using s1 by (auto simp: handle_sync_status_def refresh_accept_optimistic_def split: if_splits)
  then show ?case using 2(1) [OF s1, of st d s'] 2(2-5) s1 h outstanding_rx [OF 2(3)] by simp
next
  case (3 x now sid err result t events s)
  obtain s1 where s1: "on_task_response now sid err t (s\<lparr>sm_rx := events\<rparr>) = Some (st, s1)" and
    d: "d = Some \<lparr>sdn_result = result, sdn_elapsed = (case t of Some t \<Rightarrow> t | None \<Rightarrow> 0)\<rparr>" and
    s': "s' = (case result of Validate _ (Some inner) \<Rightarrow> on_block_simulated x (sri_block_hash inner) (sri_result inner) s1
            | _ \<Rightarrow> s1)"
    using 3(1) by (auto split: option.splits prod.splits)
  have a: "outstanding s1 = outstanding (s\<lparr>sm_rx := events\<rparr>) \<and> distinct (map fst (sm_seen_blocks s1)) \<and>
      list_all vr_is_optimistic (sm_superseded s1)"
    using on_task_response_accounts [OF s1] 3(3,4) by simp
  have "outstanding s' = outstanding s1 \<and> distinct (map fst (sm_seen_blocks s')) \<and> sm_superseded s' = sm_superseded s1"
    using a on_block_simulated_accounts [of s1 x] unfolding s' by (auto split: SimResult.splits option.splits)
  then show ?case using a d outstanding_rx [OF 3(2)] by simp
qed

lemma owed_reqs_split:
  "owed_reqs q = owed_reqs (filter (\<lambda>p. P (fst p)) q) + owed_list (map fst (filter (\<lambda>p. \<not> P (fst p)) q))"
  by (induction q) (auto simp: owed_reqs_def ac_simps)

lemma owed_kept: "owed_reqs (map (\<lambda>(r, y). (r\<lparr>vr_priority := p\<rparr>, y)) (filter (\<lambda>p. kept_for_idle (fst p)) q)) = {#}"
  by (induction q) (auto simp: owed_reqs_def kept_for_idle_def owed_def)

lemma owed_kept_filter: "owed_reqs (filter (\<lambda>p. kept_for_idle (fst p)) q) = {#}"
  by (induction q) (auto simp: owed_reqs_def kept_for_idle_def owed_def)

lemma owed_seen_waiting: "owed_list (concat (map (\<lambda>p. waiting_on (snd p)) m)) = owed_seen m"
  by (induction m) (auto simp: owed_seen_def)

lemma owed_list_fst: "owed_list (map fst q) = owed_reqs q"
  by (induction q) (auto simp: owed_reqs_def)

lemma fold_fst: "fold (\<lambda>p. answer_dropped (fst p)) q s = fold answer_dropped (map fst q) s"
  by (induction q arbitrary: s) simp_all

text \<open>A new slot answers everything that was queued or waiting for a builder that waits.\<close>

lemma new_slot_accounts:
  assumes "s' = snd (sim_on_new_slot n s)"
  shows "outstanding s' = outstanding s \<and> outstanding s' = in_progress s' \<and> sm_seen_blocks s' = [] \<and>
    (list_all vr_is_optimistic (sm_superseded s) \<longrightarrow> list_all vr_is_optimistic (sm_superseded s')) \<and>
    sm_simulators s' = sm_simulators s \<and> length (sm_slot_stats s') = length (sm_slot_stats s) \<and>
    sm_tasks s' = sm_tasks s \<and> sm_rx s' = sm_rx s"
  unfolding assms
  using owed_reqs_split [of "sm_requests s" kept_for_idle]
  by (cases "sm_last_bid_slot s > 0")
    (simp_all add: sim_on_new_slot_def Let_def sim_report_def outstanding_def in_progress_def fold_fst owed_kept
      owed_kept_filter owed_seen_waiting owed_list_fst owed_seen_def [of "[]"] owed_reqs_def [of "[]"] list_all_iff ac_simps)

lemma owed_run_task [simp]: "owed_event (run_task x env time t) = owed_task t"
  by (cases t) (auto simp: sim_task_def merge_sim_task_def Let_def owed_def optimistic_version_def
      split: prod.splits sum.splits)

lemma finish_task_accounts:
  "outstanding (finish_task_at x env time i s) = outstanding s \<and>
   sm_seen_blocks (finish_task_at x env time i s) = sm_seen_blocks s \<and>
   sm_superseded (finish_task_at x env time i s) = sm_superseded s"
proof (cases "i < length (sm_tasks s)")
  case True
  have "sum_list (map owed_task (sm_tasks s)) =
      sum_list (map owed_task (take i (sm_tasks s))) + owed_task (sm_tasks s ! i) +
      sum_list (map owed_task (drop (Suc i) (sm_tasks s)))"
    using arg_cong [OF id_take_nth_drop [OF True], of "\<lambda>ts. sum_list (map owed_task ts)"] by (simp add: ac_simps)
  then show ?thesis using True
    by (simp add: finish_task_at_def outstanding_def in_progress_def ac_simps)
next
  case False
  then show ?thesis by (simp add: finish_task_at_def)
qed

lemma dispatch_merged_accounts:
  assumes "dispatch_merged now req response s = Some (st, s')"
  shows "outstanding s' = outstanding s \<and> sm_seen_blocks s' = sm_seen_blocks s \<and> sm_superseded s' = sm_superseded s"
  using assms spawn_merge_accounts [of _ req response _ st s']
  by (auto simp: dispatch_merged_def Let_def split: option.splits)

lemma pool_step_accounts:
  assumes "accounts_ok L" "pool_step x op L = Some L'"
  shows "accounts_ok L'"
proof -
  obtain s asked got where L: "L = (s, asked, got)" by (metis prod_cases3)
  have ok: "asked = got + outstanding s" "distinct (map fst (sm_seen_blocks s))"
      "list_all vr_is_optimistic (sm_superseded s)" using assms(1) by (simp_all add: accounts_ok_def L)
  show ?thesis
  proof (cases op)
    case (DispatchOp now req ft)
    then obtain st s' where d: "dispatch x now req ft s = Some (st, s')" "L' = (s', asked + owed req, got)"
      using assms(2) L by auto
    show ?thesis using dispatch_accounts [OF d(1) ok(2,3)] ok(1) d(2) by (simp add: accounts_ok_def)
  next
    case (DispatchMergedOp now req response)
    then obtain st s' where d: "dispatch_merged now req response s = Some (st, s')" "L' = (s', asked, got)"
      using assms(2) L by auto
    show ?thesis using dispatch_merged_accounts [OF d(1)] ok d(2) by (simp add: accounts_ok_def)
  next
    case (NewSlotOp n)
    then show ?thesis using assms(2) L new_slot_accounts [OF refl, of n s] ok by (auto simp: accounts_ok_def)
  next
    case (FinishOp i time env)
    then show ?thesis using assms(2) L finish_task_accounts [of x env time i s] ok by (auto simp: accounts_ok_def)
  next
    case (SyncOp sid rep)
    then show ?thesis using assms(2) L ok by (auto simp: accounts_ok_def outstanding_def in_progress_def)
  next
    case (PollOp now)
    then obtain st d s' where d: "next_done x now s = Some (st, d, s')"
        "L' = (s', asked, got + (case d of Some d \<Rightarrow> owed_result (sdn_result d) | None \<Rightarrow> {#}))"
      using assms(2) L by auto
    show ?thesis using next_done_from_accounts [OF d(1) [unfolded next_done_def] refl ok(2,3)] ok(1) d(2)
      by (simp add: accounts_ok_def ac_simps)
  qed
qed

section \<open>Simulators stay consistent with their tasks\<close>

lemma next_client_Some:
  "next_client now s = Some i \<Longrightarrow> i < length (sm_simulators s) \<and> can_simulate_at now (sm_simulators s ! i)"
  unfolding next_client_def by (drule min_by_key_mem) simp

lemma select_simulator_Some:
  "select_simulator_at now s = Some i \<Longrightarrow> i < length (sm_simulators s) \<and> can_simulate_at now (sm_simulators s ! i)"
  by (auto simp: select_simulator_at_def ssz_sim_indices_def next_client_Some split: option.splits
      dest!: min_by_key_mem next_client_Some)

lemma sims_ok_cong:
  "sm_simulators s' = sm_simulators s \<Longrightarrow> length (sm_slot_stats s') = length (sm_slot_stats s) \<Longrightarrow>
   sm_tasks s' = sm_tasks s \<Longrightarrow> sm_rx s' = sm_rx s \<Longrightarrow> sims_ok s' = sims_ok s"
  by (simp add: sims_ok_def busy_def)

text \<open>A simulator that may simulate takes one more task.\<close>

lemma sims_ok_take:
  assumes "sims_ok s" "sid < length (sm_simulators s)" "can_simulate_at now (sm_simulators s ! sid)"
    and "sm_simulators s' = sm_simulators (add_pending sid s)" "length (sm_slot_stats s') = length (sm_slot_stats s)"
    and "(\<exists>t. sm_tasks s' = sm_tasks s @ [t] \<and> task_sid t = sid \<and> sm_rx s' = sm_rx s) \<or>
      (\<exists>e. sm_rx s' = sm_rx s @ [e] \<and> is_task_done e \<and> event_sid e = sid \<and> sm_tasks s' = sm_tasks s)"
  shows "sims_ok s'"
proof -
  have busy: "busy i s' = busy i s + (if i = sid then 1 else 0)" for i using assms(6) by (auto simp: busy_def)
  have "entry_ok ((sm_simulators s ! sid)\<lparr>se_pending := se_pending (sm_simulators s ! sid) + 1\<rparr>)"
    using assms(1-3) by (intro entry_ok_start) (auto simp: sims_ok_def)
  then show ?thesis using assms busy by (auto simp: sims_ok_def add_pending_def nth_list_update)
qed

lemma spawn_sim_ok:
  assumes "sims_ok s" "sid < length (sm_simulators s)" "can_simulate_at now (sm_simulators s ! sid)"
  shows "\<exists>st s'. spawn_sim sid req s = Some (st, s') \<and> sims_ok s' \<and>
    simulating s' = insert (Some (req_hash req)) (simulating s) \<and>
    sm_seen_blocks s' = sm_seen_blocks (mark_in_flight (req_hash req) s)"
proof -
  have "spawn_sim sid req s \<noteq> None" using assms(2) by (simp add: spawn_sim_def Let_def split: option.split)
  then obtain st s' where s': "spawn_sim sid req s = Some (st, s')" by auto
  have frame: "sm_simulators s' = sm_simulators (add_pending sid s)" "sm_slot_stats s' = sm_slot_stats s"
      "(\<exists>t. sm_tasks s' = sm_tasks s @ [t] \<and> task_sid t = sid \<and> task_hash t = Some (req_hash req) \<and> sm_rx s' = sm_rx s) \<or>
       (\<exists>e. sm_rx s' = sm_rx s @ [e] \<and> is_task_done e \<and> event_sid e = sid \<and> event_hash e = Some (req_hash req) \<and> sm_tasks s' = sm_tasks s)"
      "sm_seen_blocks s' = sm_seen_blocks (mark_in_flight (req_hash req) s)"
    using s' by (auto simp: spawn_sim_def Let_def add_pending_def track_max_in_flight_def unsupported_result_def
        split: option.splits if_splits)
  have "sims_ok s'" using assms frame by (intro sims_ok_take [OF assms, of s']) auto
  moreover have "simulating s' = insert (Some (req_hash req)) (simulating s)"
    using frame(3) by (auto simp: simulating_def)
  ultimately show ?thesis using s' frame(4) by blast
qed

lemma spawn_merge_ok:
  assumes "sims_ok s" "sid < length (sm_simulators s)" "can_simulate_at now (sm_simulators s ! sid)"
  shows "\<exists>st s'. spawn_merge_sim sid req response s = Some (st, s') \<and> sims_ok s' \<and>
    simulating s \<subseteq> simulating s' \<and> sm_seen_blocks s' = sm_seen_blocks s"
proof -
  obtain st s' where s': "spawn_merge_sim sid req response s = Some (st, s')"
    using assms(2) by (auto simp: spawn_merge_sim_def Let_def)
  have frame: "sm_simulators s' = sm_simulators (add_pending sid s)" "sm_slot_stats s' = sm_slot_stats s"
      "\<exists>t. sm_tasks s' = sm_tasks s @ [t] \<and> task_sid t = sid \<and> sm_rx s' = sm_rx s" "sm_seen_blocks s' = sm_seen_blocks s"
    using s' assms(2) by (auto simp: spawn_merge_sim_def Let_def add_pending_def track_max_in_flight_def)
  have "sims_ok s'" using assms frame by (intro sims_ok_take [OF assms, of s']) auto
  moreover have "simulating s \<subseteq> simulating s'" using frame(3) by (auto simp: simulating_def)
  ultimately show ?thesis using s' frame(4) by blast
qed

text \<open>What a step may do to the blocks in flight: start more simulations, and mark only blocks that
  are being simulated.\<close>

lemma flight_spawn:
  assumes "flight_within X s" "simulating s' = insert (Some h) (simulating s)"
    "sm_seen_blocks s' = sm_seen_blocks (mark_in_flight h s)"
  shows "flight_within X s'"
  using assms by (auto simp: flight_within_def mark_in_flight_seen split: if_splits)

lemma flight_mono:
  assumes "flight_within X s" "simulating s \<subseteq> simulating s'" "sm_seen_blocks s' = sm_seen_blocks s"
  shows "flight_within X s'"
  using assms by (auto simp: flight_within_def)

lemma dispatch_ok:
  assumes "sims_ok s" "flight_ok s"
  shows "\<exists>st s'. dispatch x now req ft s = Some (st, s') \<and> sims_ok s' \<and> flight_ok s'"
proof (cases "map_of (sm_seen_blocks s) (req_hash req)")
  case (Some seen)
  show ?thesis
  proof (cases seen)
    case (InFlight waiting)
    then show ?thesis using assms Some
      by (auto simp: dispatch_def Let_def sims_ok_def busy_def flight_within_def simulating_def map_of_update_other)
  next
    case (Done result)
    then show ?thesis using assms Some
      by (simp add: dispatch_def Let_def sims_ok_def busy_def flight_within_def simulating_def)
  qed
next
  case None
  let ?s0 = "tally (\<lambda>t. t\<lparr>lt_sims_reqs := lt_sims_reqs t + 1\<rparr>) s"
  obtain req1 s1 where smp: "sampled req ?s0 = (req1, s1)" by force
  note f = sampled_frame [OF smp]
  have ok1: "sims_ok s1" "flight_ok s1"
    using assms f by (simp_all add: sims_ok_def busy_def flight_within_def simulating_def)
  show ?thesis
  proof (cases "select_simulator_at now s1")
    case (Some sid)
    let ?s2 = "tally (\<lambda>t. t\<lparr>lt_sims_sent_immediately := lt_sims_sent_immediately t + 1\<rparr>) s1"
    have ok2: "sims_ok ?s2" "flight_ok ?s2"
      using ok1 by (simp_all add: sims_ok_def busy_def flight_within_def simulating_def)
    have "sid < length (sm_simulators ?s2)" "can_simulate_at now (sm_simulators ?s2 ! sid)"
      using select_simulator_Some [OF Some] by simp_all
    from spawn_sim_ok [OF ok2(1) this, of req1] obtain st s' where s': "spawn_sim sid req1 ?s2 = Some (st, s')"
        "sims_ok s'" "simulating s' = insert (Some (req_hash req1)) (simulating ?s2)"
        "sm_seen_blocks s' = sm_seen_blocks (mark_in_flight (req_hash req1) ?s2)" by blast
    then show ?thesis using flight_spawn [OF ok2(2) s'(3,4)] None smp Some by (simp add: dispatch_def Let_def)
  next
    case Nosim: None
    have frame: "sm_simulators (enqueue req1 ft t) = sm_simulators t \<and> sm_slot_stats (enqueue req1 ft t) = sm_slot_stats t \<and>
        sm_tasks (enqueue req1 ft t) = sm_tasks t \<and> sm_rx (enqueue req1 ft t) = sm_rx t" for t
      by (simp add: enqueue_def settle_dropped_def Let_def case_prod_beta split: option.split)
    show ?thesis using ok1 frame enqueue_accounts [of req1 ft] None smp Nosim
      by (simp add: dispatch_def Let_def sims_ok_def busy_def flight_within_def simulating_def)
  qed
qed

lemma intake_tally [simp]:
  "intake (t\<lparr>lt_max_in_flight := n\<rparr>) = intake t" "intake (t\<lparr>lt_superseded := n\<rparr>) = intake t"
  "intake (t\<lparr>lt_superseded_sent := n\<rparr>) = intake t" "intake (t\<lparr>lt_sims_sent_from_queue := n\<rparr>) = intake t"
  "intake (t\<lparr>lt_sample_skipped := n\<rparr>) = intake t" "intake (t\<lparr>lt_sims_reqs_dropped := n\<rparr>) = intake t"
  "intake (t\<lparr>lt_max_pending := n\<rparr>) = intake t"
  by (simp_all add: intake_def)

lemma same_view_ok:
  "same_view s t \<Longrightarrow> sims_ok t = sims_ok s" "same_view s t \<Longrightarrow> flight_within X t = flight_within X s"
  by (simp_all add: same_view_def sims_ok_def busy_def flight_within_def simulating_def)

lemma send_next_cases:
  obtains (sim) req t where "same_view s t" "map_option snd (send_next sid s) = map_option snd (spawn_sim sid req t)"
  | (merged) req resp t where "same_view s t" "map_option snd (send_next sid s) = map_option snd (spawn_merge_sim sid req resp t)"
  | (idle) t where "same_view s t" "map_option snd (send_next sid s) = Some t"
proof (cases "queue_next_req (sm_priority_requests s)")
  case (Some p)
  show ?thesis
    by (rule sim [of "tally (\<lambda>t. t\<lparr>lt_sims_sent_from_queue := lt_sims_sent_from_queue t + 1\<rparr>)
        (s\<lparr>sm_priority_requests := snd p\<rparr>)" "fst p"])
      (simp_all add: Some send_next_def Let_def same_view_def option.map_comp comp_def case_prod_beta)
next
  case prio: None
  show ?thesis
  proof (cases "queue_next_req (sm_requests s)")
    case (Some p)
    show ?thesis
      by (rule sim [of "tally (\<lambda>t. t\<lparr>lt_sims_sent_from_queue := lt_sims_sent_from_queue t + 1\<rparr>)
          (s\<lparr>sm_requests := snd p\<rparr>)" "fst p"])
        (simp_all add: prio Some send_next_def Let_def same_view_def option.map_comp comp_def case_prod_beta)
  next
    case queue: None
    show ?thesis
    proof (cases "merge_next_req (sm_merge_requests s)")
      case (Some p)
      show ?thesis
        by (rule merged [of "s\<lparr>sm_merge_requests := snd p\<rparr>" "fst (fst p)" "snd (fst p)"])
          (simp_all add: prio queue Some send_next_def Let_def same_view_def option.map_comp comp_def case_prod_beta)
    next
      case none: None
      obtain r rest where pop: "pop_unseen (sm_seen_blocks s) (rev (sm_superseded s)) = (r, rest)" by force
      show ?thesis
      proof (cases r)
        case None
        show ?thesis
          by (rule idle [of "s\<lparr>sm_superseded := rev rest\<rparr>"])
            (simp_all add: prio queue none pop None send_next_def Let_def same_view_def)
      next
        case (Some req)
        show ?thesis
          by (rule sim [of "tally (\<lambda>t. t\<lparr>lt_superseded_sent := lt_superseded_sent t + 1\<rparr>)
              (s\<lparr>sm_superseded := rev rest\<rparr>)" req])
            (simp_all add: prio queue none pop Some send_next_def Let_def same_view_def option.map_comp comp_def case_prod_beta)
      qed
    qed
  qed
qed

lemma send_next_ok:
  assumes "sims_ok s" "flight_within X s" "sid < length (sm_simulators s)" "can_simulate_at now (sm_simulators s ! sid)"
  shows "\<exists>st s'. send_next sid s = Some (st, s') \<and> sims_ok s' \<and> flight_within X s'"
proof -
  have "\<exists>s'. map_option snd (send_next sid s) = Some s' \<and> sims_ok s' \<and> flight_within X s'"
  proof (cases rule: send_next_cases [of s sid])
    case (sim req t)
    have ok: "sims_ok t" "flight_within X t" using assms(1,2) same_view_ok [OF sim(1)] by simp_all
    have "sid < length (sm_simulators t)" "can_simulate_at now (sm_simulators t ! sid)"
      using assms(3,4) sim(1) by (simp_all add: same_view_def)
    from spawn_sim_ok [OF ok(1) this, of req] obtain st s' where s': "spawn_sim sid req t = Some (st, s')" "sims_ok s'"
        "simulating s' = insert (Some (req_hash req)) (simulating t)"
        "sm_seen_blocks s' = sm_seen_blocks (mark_in_flight (req_hash req) t)" by blast
    show ?thesis using flight_spawn [OF ok(2) s'(3,4)] s'(1,2) sim(2) by (intro exI [of _ s']) simp
  next
    case (merged req resp t)
    have ok: "sims_ok t" "flight_within X t" using assms(1,2) same_view_ok [OF merged(1)] by simp_all
    have "sid < length (sm_simulators t)" "can_simulate_at now (sm_simulators t ! sid)"
      using assms(3,4) merged(1) by (simp_all add: same_view_def)
    from spawn_merge_ok [OF ok(1) this, of req resp] obtain st s' where s':
        "spawn_merge_sim sid req resp t = Some (st, s')" "sims_ok s'" "simulating t \<subseteq> simulating s'"
        "sm_seen_blocks s' = sm_seen_blocks t" by blast
    show ?thesis using flight_mono [OF ok(2) s'(3,4)] s'(1,2) merged(2) by (intro exI [of _ s']) simp
  next
    case (idle t)
    then show ?thesis using assms(1,2) same_view_ok [OF idle(1)] by blast
  qed
  then show ?thesis by auto
qed

text \<open>A finished task is taken from the channel and settled with its simulator.\<close>

lemma settle_entry_ok:
  "entry_ok e \<Longrightarrow> entry_ok (settle_entry now err t e) \<and> se_pending (settle_entry now err t e) = se_pending e - 1"
  using entry_ok_finish [of e]
  by (auto simp: settle_entry_def Let_def entry_ok_success entry_ok_failure split: option.splits)

lemma settle_task_ok:
  assumes "sims_ok s" "sm_rx s = TaskDone sid err result t # es"
  shows "sims_ok (settle_task now sid err t (s\<lparr>sm_rx := es\<rparr>)) \<and> sid < length (sm_simulators s) \<and>
    length (sm_slot_stats s) = length (sm_simulators s)"
proof -
  have sid: "sid < length (sm_simulators s)" using assms by (simp add: sims_ok_def)
  have busy: "busy i s = busy i (settle_task now sid err t (s\<lparr>sm_rx := es\<rparr>)) + (if i = sid then 1 else 0)" for i
    using assms(2) by (simp add: busy_def)
  have e: "entry_ok (sm_simulators s ! sid)" using assms(1) sid by (simp add: sims_ok_def)
  have sims: "sm_simulators (settle_task now sid err t (s\<lparr>sm_rx := es\<rparr>)) =
      (sm_simulators s)[sid := settle_entry now err t (sm_simulators s ! sid)]"
      "length (sm_slot_stats (settle_task now sid err t (s\<lparr>sm_rx := es\<rparr>))) = length (sm_slot_stats s)"
    by (simp_all add: settle_task_def refresh_accept_optimistic_def split: option.split)
  show ?thesis
    using assms sid busy settle_entry_ok [OF e, of now err t] sims
    by (auto simp: sims_ok_def nth_list_update)
qed

lemma on_task_response_ok:
  assumes "sims_ok s" "sm_rx s = TaskDone sid err result t # es" "flight_ok s"
  shows "\<exists>st s'. on_task_response now sid err t (s\<lparr>sm_rx := es\<rparr>) = Some (st, s') \<and> sims_ok s' \<and>
    flight_within {event_hash (TaskDone sid err result t)} s'"
proof -
  let ?e = "TaskDone sid err result t"
  define s1 where "s1 = settle_task now sid err t (s\<lparr>sm_rx := es\<rparr>)"
  have ok: "sims_ok s1" "sid < length (sm_simulators s)" "length (sm_slot_stats s) = length (sm_simulators s)"
    using settle_task_ok [OF assms(1,2)] by (simp_all add: s1_def)
  have fl: "flight_within {event_hash ?e} s1"
    using assms(2,3) by (auto simp: flight_within_def simulating_def s1_def)
  show ?thesis
  proof (cases "next_client now s1")
    case None
    then show ?thesis using ok fl by (simp add: on_task_response_def Let_def s1_def [symmetric])
  next
    case (Some free)
    then show ?thesis
      using ok fl next_client_Some [OF Some] send_next_ok [OF ok(1) fl, of free now]
      by (simp add: on_task_response_def Let_def s1_def [symmetric])
  qed
qed

lemma on_block_simulated_ok:
  assumes "sims_ok s" "flight_within {Some h} s"
  shows "sims_ok (on_block_simulated x h res s) \<and> flight_ok (on_block_simulated x h res s)"
proof -
  have frame: "sm_simulators (on_block_simulated x h res s) = sm_simulators s"
      "sm_slot_stats (on_block_simulated x h res s) = sm_slot_stats s"
      "sm_tasks (on_block_simulated x h res s) = sm_tasks s" "sm_rx (on_block_simulated x h res s) = sm_rx s"
    by (simp_all add: on_block_simulated_def Let_def split: option.split SimSeen.split)
  have "map_of (sm_seen_blocks (on_block_simulated x h res s)) k = Some (InFlight w) \<Longrightarrow>
      k \<noteq> h \<and> map_of (sm_seen_blocks s) k = Some (InFlight w)" for k w
    by (auto simp: on_block_simulated_def Let_def map_of_update_other map_of_delete_other
        split: option.splits SimSeen.splits sum.splits if_splits)
  then show ?thesis using assms frame
    by (fastforce simp: sims_ok_def busy_def flight_within_def simulating_def)
qed

lemma sync_event_ok:
  assumes "sims_ok s" "sm_rx s = SyncStatus sid rep # es" "flight_ok s"
  shows "\<exists>s'. handle_sync_status now sid rep (s\<lparr>sm_rx := es\<rparr>) = Some s' \<and> sims_ok s' \<and> flight_ok s' \<and> sm_rx s' = es"
  using assms
  by (auto simp: handle_sync_status_def refresh_accept_optimistic_def sims_ok_def busy_def flight_within_def
      simulating_def nth_list_update entry_ok_sync)

lemma next_done_from_ok:
  assumes "sims_ok s" "flight_ok s" "sm_rx s = es"
  shows "\<exists>st d s'. next_done_from x now es s = Some (st, d, s') \<and> sims_ok s' \<and> flight_ok s'"
  using assms
proof (induction x now es s rule: next_done_from.induct)
  case (1 x now s)
  then show ?case by (simp add: sims_ok_def busy_def flight_within_def simulating_def)
next
  case (2 x now sid reported events s)
  obtain s1 where s1: "handle_sync_status now sid reported (s\<lparr>sm_rx := events\<rparr>) = Some s1"
      "sims_ok s1" "flight_ok s1" "sm_rx s1 = events"
    using sync_event_ok [OF 2(2,4,3)] by blast
  show ?case using 2(1) [OF s1] s1(1) by simp
next
  case (3 x now sid err result t events s)
  obtain st s1 where s1: "on_task_response now sid err t (s\<lparr>sm_rx := events\<rparr>) = Some (st, s1)" "sims_ok s1"
      "flight_within {event_hash (TaskDone sid err result t)} s1"
    using on_task_response_ok [OF 3(1,3,2)] by blast
  have "sims_ok (case result of Validate _ (Some inner) \<Rightarrow> on_block_simulated x (sri_block_hash inner) (sri_result inner) s1 | _ \<Rightarrow> s1) \<and>
      flight_ok (case result of Validate _ (Some inner) \<Rightarrow> on_block_simulated x (sri_block_hash inner) (sri_result inner) s1 | _ \<Rightarrow> s1)"
    using s1(2,3) on_block_simulated_ok [of s1] by (auto simp: flight_within_def split: SimResult.split option.split)
  then show ?case using s1(1) by simp
qed

lemma run_task_view [simp]:
  "event_sid (run_task x env time t) = task_sid t" "is_task_done (run_task x env time t)"
  "event_hash (run_task x env time t) = task_hash t"
  by (cases t; simp add: sim_task_def merge_sim_task_def Let_def split: prod.split sum.split)+

lemma finish_task_ok:
  assumes "sims_ok s" "flight_ok s"
  shows "sims_ok (finish_task_at x env time i s) \<and> flight_ok (finish_task_at x env time i s)"
proof (cases "i < length (sm_tasks s)")
  case True
  define ts1 ts2 t where ts: "ts1 = take i (sm_tasks s)" "ts2 = drop (Suc i) (sm_tasks s)" "t = sm_tasks s ! i"
  have split: "sm_tasks s = ts1 @ t # ts2" unfolding ts by (rule id_take_nth_drop [OF True])
  have f: "finish_task_at x env time i s = s\<lparr>sm_tasks := ts1 @ ts2, sm_rx := sm_rx s @ [run_task x env time t]\<rparr>"
    using True by (simp add: finish_task_at_def ts)
  show ?thesis using assms unfolding f
    by (auto simp: sims_ok_def busy_def flight_within_def simulating_def split)
next
  case False
  then show ?thesis using assms by (simp add: finish_task_at_def)
qed

lemma dispatch_merged_ok:
  assumes "sims_ok s" "flight_ok s"
  shows "\<exists>st s'. dispatch_merged now req response s = Some (st, s') \<and> sims_ok s' \<and> flight_ok s'"
proof -
  let ?s0 = "tally (\<lambda>t. t\<lparr>lt_sims_reqs := lt_sims_reqs t + 1\<rparr>) s"
  show ?thesis
  proof (cases "next_client now ?s0")
    case None
    then show ?thesis using assms
      by (simp add: dispatch_merged_def Let_def sims_ok_def busy_def flight_within_def simulating_def)
  next
    case (Some sid)
    let ?s1 = "tally (\<lambda>t. t\<lparr>lt_sims_sent_immediately := lt_sims_sent_immediately t + 1\<rparr>) ?s0"
    have ok: "sims_ok ?s1" "flight_ok ?s1"
      using assms by (simp_all add: sims_ok_def busy_def flight_within_def simulating_def)
    have "sid < length (sm_simulators ?s1)" "can_simulate_at now (sm_simulators ?s1 ! sid)"
      using next_client_Some [OF Some] by simp_all
    from spawn_merge_ok [OF ok(1) this, of req response] obtain st s' where s':
        "spawn_merge_sim sid req response ?s1 = Some (st, s')" "sims_ok s'" "simulating ?s1 \<subseteq> simulating s'"
        "sm_seen_blocks s' = sm_seen_blocks ?s1" by blast
    show ?thesis using flight_mono [OF ok(2) s'(3,4)] s'(1,2) Some by (simp add: dispatch_merged_def Let_def)
  qed
qed

lemma pool_step_ok:
  assumes "sims_ok s" "flight_ok s"
  shows "\<exists>s' asked' got'. pool_step x op (s, asked, got) = Some (s', asked', got') \<and> sims_ok s' \<and> flight_ok s'"
proof (cases op)
  case (DispatchOp now req ft)
  then show ?thesis using dispatch_ok [OF assms, of x now req ft] by auto
next
  case (DispatchMergedOp now req response)
  then show ?thesis using dispatch_merged_ok [OF assms, of now req response] by auto
next
  case (NewSlotOp n)
  then show ?thesis using new_slot_accounts [OF refl, of n s] assms
    by (simp add: sims_ok_def busy_def flight_within_def)
next
  case (FinishOp i time env)
  then show ?thesis using finish_task_ok [OF assms, of x env time i] by simp
next
  case (SyncOp sid rep)
  then show ?thesis using assms by (auto simp: sims_ok_def busy_def flight_within_def simulating_def)
next
  case (PollOp now)
  then show ?thesis using next_done_from_ok [OF assms refl, of x now] by (auto simp: next_done_def)
qed

interpretation pool: total_machine "pool_step x" "\<lambda>_. True" pool_ok for x
proof unfold_locales
  show "pool_ok L'" if ok: "pool_ok L" and st: "pool_step x op L = Some L'" for L op L'
  proof -
    obtain s asked got where L: "L = (s, asked, got)" by (metis prod_cases3)
    have "sims_ok (fst L') \<and> flight_ok (fst L')"
      using pool_step_ok [of s x op asked got] ok st L by (auto simp: pool_ok_def)
    then show ?thesis using pool_step_accounts [OF _ st] ok by (simp add: pool_ok_def)
  qed
  show "pool_step x op L \<noteq> None" if "pool_ok L" for L op
    using that pool_step_ok [of "fst L" x op "fst (snd L)" "snd (snd L)"] by (auto simp: pool_ok_def)
qed

lemma pending_new [simp]: "se_pending (SimEntry_new c) = 0"
  by (simp add: SimEntry_new_def)

lemma pool_ok_new: "pool_ok (Simulators_new configs, {#}, {#})"
  by (auto simp: pool_ok_def accounts_ok_def Simulators_new_def outstanding_def in_progress_def owed_reqs_def
      owed_seen_def owed_done_def sims_ok_def busy_def flight_within_def entry_ok_new)

lemma pool_asked: "run (pool_step x) ops (s, asked, got) = Some (s', asked', got') \<Longrightarrow>
    asked' = asked + sum_list (map asked_by ops)"
proof (induction ops arbitrary: s asked got)
  case Nil
  then show ?case by simp
next
  case (Cons op ops)
  obtain s1 asked1 got1 where st: "pool_step x op (s, asked, got) = Some (s1, asked1, got1)"
      "run (pool_step x) ops (s1, asked1, got1) = Some (s', asked', got')"
    using Cons.prems by (auto split: option.splits)
  have "asked1 = asked + asked_by op" using st(1) by (cases op) auto
  then show ?case using Cons.IH [OF st(2)] by (simp add: ac_simps)
qed

section \<open>Counters\<close>

lemma telemetry_frame [simp]:
  "sm_telemetry (answer_dropped r s) = sm_telemetry s" "sm_telemetry (answer_cached x r res s) = sm_telemetry s"
  "sm_telemetry (mark_in_flight h s) = sm_telemetry s" "sm_telemetry (add_pending sid s) = sm_telemetry s"
  "sm_telemetry (settle_task now sid err t s) = sm_telemetry s"
  "sm_telemetry (fold answer_dropped rs s) = sm_telemetry s"
  "sm_telemetry (fold (\<lambda>r. answer_cached x r res) rs s) = sm_telemetry s"
  by (simp_all add: answer_dropped_def answer_cached_def mark_in_flight_def add_pending_def settle_task_def
      refresh_accept_optimistic_def fold_frame split: option.splits)

lemma spawn_intake:
  "spawn_sim sid req s = Some (st, s') \<Longrightarrow> intake (sm_telemetry s') = intake (sm_telemetry s)"
  "spawn_merge_sim sid mreq resp s = Some (st, s') \<Longrightarrow> intake (sm_telemetry s') = intake (sm_telemetry s)"
  by (auto simp: spawn_sim_def spawn_merge_sim_def Let_def track_max_in_flight_def split: option.splits if_splits)

lemma enqueue_intake: "intake (sm_telemetry (enqueue req ft s)) = intake (sm_telemetry s)"
  by (auto simp: enqueue_def queue_store_def settle_dropped_def Let_def split: option.splits prod.splits)

lemma sampled_intake: "sampled req s = (req1, s1) \<Longrightarrow> intake (sm_telemetry s1) = intake (sm_telemetry s)"
  by (auto simp: sampled_def take_sample_def Let_def split: if_splits)

lemma intake_ok_def': "intake_ok s \<longleftrightarrow> (case intake (sm_telemetry s) of (r, i, q, d) \<Rightarrow> r = i + q + d)"
  by (simp add: intake_ok_def intake_def)

lemma dispatch_intake:
  assumes "dispatch x now req ft s = Some (st, s')" "intake_ok s"
  shows "intake_ok s'"
proof (cases "map_of (sm_seen_blocks s) (req_hash req)")
  case (Some seen)
  then show ?thesis using assms by (cases seen) (auto simp: dispatch_def Let_def intake_ok_def)
next
  case None
  obtain req1 s1 where smp: "sampled req (tally (\<lambda>t. t\<lparr>lt_sims_reqs := lt_sims_reqs t + 1\<rparr>) s) = (req1, s1)" by force
  note tel = sampled_intake [OF smp]
  have "intake (sm_telemetry s') = intake ((sm_telemetry s1)\<lparr>lt_sims_sent_immediately := lt_sims_sent_immediately (sm_telemetry s1) + 1\<rparr>) \<or>
      intake (sm_telemetry s') = intake ((sm_telemetry s1)\<lparr>lt_queued := lt_queued (sm_telemetry s1) + 1\<rparr>)"
  proof (cases "select_simulator_at now s1")
    case (Some sid)
    then have "spawn_sim sid req1 (tally (\<lambda>t. t\<lparr>lt_sims_sent_immediately := lt_sims_sent_immediately t + 1\<rparr>) s1) = Some (st, s')"
      using assms(1) None smp by (simp add: dispatch_def Let_def)
    from spawn_intake(1) [OF this] show ?thesis by simp
  next
    case Nosim: None
    then have "s' = enqueue req1 ft (tally (\<lambda>t. t\<lparr>lt_queued := lt_queued t + 1\<rparr>) s1)"
      using assms(1) None smp by (simp add: dispatch_def Let_def)
    then show ?thesis using enqueue_intake [of req1 ft "tally (\<lambda>t. t\<lparr>lt_queued := lt_queued t + 1\<rparr>) s1"] by simp
  qed
  then show ?thesis using assms(2) tel by (auto simp: intake_ok_def intake_def)
qed

lemma dispatch_merged_intake:
  assumes "dispatch_merged now req response s = Some (st, s')" "intake_ok s"
  shows "intake_ok s'"
proof (cases "next_client now (tally (\<lambda>t. t\<lparr>lt_sims_reqs := lt_sims_reqs t + 1\<rparr>) s)")
  case None
  then have "sm_telemetry s' = (sm_telemetry s)\<lparr>lt_sims_reqs := lt_sims_reqs (sm_telemetry s) + 1,
      lt_queued := lt_queued (sm_telemetry s) + 1\<rparr>"
    using assms(1) by (simp add: dispatch_merged_def Let_def) (elim conjE; hypsubst; simp)
  then show ?thesis using assms(2) by (simp add: intake_ok_def)
next
  case (Some sid)
  then have "spawn_merge_sim sid req response (tally (\<lambda>t. t\<lparr>lt_sims_sent_immediately := lt_sims_sent_immediately t + 1\<rparr>)
      (tally (\<lambda>t. t\<lparr>lt_sims_reqs := lt_sims_reqs t + 1\<rparr>) s)) = Some (st, s')"
    using assms(1) by (simp add: dispatch_merged_def Let_def)
  from spawn_intake(2) [OF this] show ?thesis using assms(2) by (simp add: intake_ok_def intake_def)
qed

lemma send_next_intake:
  assumes "send_next sid s = Some (st, s')"
  shows "intake (sm_telemetry s') = intake (sm_telemetry s)"
proof (cases rule: send_next_cases [of s sid])
  case (sim req t)
  then obtain st1 where "spawn_sim sid req t = Some (st1, s')"
    using assms by (cases "spawn_sim sid req t") auto
  from spawn_intake(1) [OF this] sim(1) show ?thesis by (simp add: same_view_def)
next
  case (merged req resp t)
  then obtain st1 where "spawn_merge_sim sid req resp t = Some (st1, s')"
    using assms by (cases "spawn_merge_sim sid req resp t") auto
  from spawn_intake(2) [OF this] merged(1) show ?thesis by (simp add: same_view_def)
next
  case (idle t)
  then show ?thesis using assms by (simp add: same_view_def)
qed

lemma next_done_from_intake:
  assumes "next_done_from x now es s = Some (st, d, s')"
  shows "intake (sm_telemetry s') = intake (sm_telemetry s)"
  using assms
proof (induction x now es s arbitrary: st d s' rule: next_done_from.induct)
  case (1 x now s)
  then show ?case by (auto split: if_splits)
next
  case (2 x now sid reported events s)
  obtain s1 where s1: "handle_sync_status now sid reported (s\<lparr>sm_rx := events\<rparr>) = Some s1"
      "next_done_from x now events s1 = Some (st, d, s')"
    using 2(2) by (auto split: option.splits)
  have "sm_telemetry s1 = sm_telemetry s"
    using s1(1) by (auto simp: handle_sync_status_def refresh_accept_optimistic_def split: if_splits)
  then show ?case using 2(1) [OF s1] by simp
next
  case (3 x now sid err result t events s)
  obtain s1 where s1: "on_task_response now sid err t (s\<lparr>sm_rx := events\<rparr>) = Some (st, s1)" and
    s': "s' = (case result of Validate _ (Some inner) \<Rightarrow> on_block_simulated x (sri_block_hash inner) (sri_result inner) s1
            | _ \<Rightarrow> s1)"
    using 3(1) by (auto split: option.splits prod.splits)
  have "intake (sm_telemetry s1) = intake (sm_telemetry s)"
    using s1 send_next_intake [of _ "settle_task now sid err t (s\<lparr>sm_rx := events\<rparr>)" st s1]
    by (auto simp: on_task_response_def Let_def split: if_splits option.splits)
  moreover have "sm_telemetry s' = sm_telemetry s1"
    unfolding s' by (auto simp: on_block_simulated_def Let_def split: SimResult.splits option.splits SimSeen.splits)
  ultimately show ?case by simp
qed

interpretation intake: invariant_machine "pool_step x" "\<lambda>_. True" "\<lambda>L. intake_ok (fst L)" for x
proof unfold_locales
  fix L :: Ledger and op L'
  assume ok: "intake_ok (fst L)" and st: "pool_step x op L = Some L'"
  obtain s asked got where L: "L = (s, asked, got)" by (metis prod_cases3)
  show "intake_ok (fst L')"
  proof (cases op)
    case (NewSlotOp n)
    have "sm_telemetry (snd (sim_on_new_slot n s)) = (if sm_last_bid_slot s > 0 then default_local_telemetry else sm_telemetry s)"
      by (simp add: sim_on_new_slot_def Let_def sim_report_def fold_fst)
    then show ?thesis using st ok L NewSlotOp by (auto simp: intake_ok_def default_local_telemetry_def)
  next
    case (PollOp now)
    then obtain r d s' where "next_done_from x now (sm_rx s) s = Some (r, d, s')" "fst L' = s'"
      using st L by (auto simp: next_done_def)
    then show ?thesis using next_done_from_intake ok L by (auto simp: intake_ok_def')
  next
    case (DispatchOp now req ft)
    then obtain r s' where "dispatch x now req ft s = Some (r, s')" "fst L' = s'" using st L by auto
    then show ?thesis using dispatch_intake ok L by simp
  next
    case (DispatchMergedOp now req response)
    then obtain r s' where "dispatch_merged now req response s = Some (r, s')" "fst L' = s'" using st L by auto
    then show ?thesis using dispatch_merged_intake ok L by simp
  next
    case (FinishOp i time env)
    then show ?thesis using st ok L by (auto simp: intake_ok_def finish_task_at_def)
  next
    case (SyncOp sid rep)
    then show ?thesis using st ok L by (auto simp: intake_ok_def)
  qed
qed

section \<open>Queues\<close>

lemma queue_next_req_best:
  assumes "queue_next_req q = Some (r, q')"
  shows "(\<exists>p \<in> set q. r = fst p) \<and> (\<forall>p \<in> set q. sort_key (fst p) \<le> sort_key r)"
proof -
  obtain i where i: "max_by_key (\<lambda>i. sort_key (fst (q ! i))) [0..<length q] = Some i" "r = fst (q ! i)"
    using assms by (auto simp: queue_next_req_def split: option.splits)
  have "i < length q" using max_by_key_mem [OF i(1)] by simp
  moreover have "sort_key (fst (q ! j)) \<le> sort_key r" if "j < length q" for j
    using max_by_key_greatest [OF i(1), of j] that i(2) by simp
  ultimately show ?thesis using i(2) by (metis in_set_conv_nth)
qed

lemma queue_store_keys:
  assumes "distinct (map (fst \<circ> snd) q)"
  shows "distinct (map (fst \<circ> snd) (fst (snd (queue_store req k v q tel))))"
proof (cases "position (\<lambda>p. fst (snd p) = k) q")
  case None
  then have "k \<notin> (fst \<circ> snd) ` set q" by (auto simp: position_None)
  then show ?thesis using assms None by (simp add: queue_store_def Let_def)
next
  case (Some i)
  then have "map (fst \<circ> snd) (q[i := (req, k, v)]) = map (fst \<circ> snd) q"
    using position_Some [OF Some] by (simp add: map_update list_update_same_conv)
  then show ?thesis using assms Some by (simp add: queue_store_def Let_def del: map_map)
qed

lemma queued_for_append: "queued_for (q @ [(r, k, v)]) k' = (case queued_for q k' of Some p \<Rightarrow> Some p
    | None \<Rightarrow> if k' = k then Some (r, v) else None)"
  by (simp add: queued_for_def map_add_def split: option.split)

lemma queued_for_nth:
  assumes "distinct (map (fst \<circ> snd) q)" "i < length q"
  shows "queued_for q (fst (snd (q ! i))) = Some (fst (q ! i), snd (snd (q ! i)))"
proof -
  have "distinct (map fst (map (\<lambda>(r, k, v). (k, r, v)) q))" using assms(1) by (simp add: comp_def case_prod_beta)
  moreover have "(fst (snd (q ! i)), fst (q ! i), snd (snd (q ! i))) \<in> set (map (\<lambda>(r, k, v). (k, r, v)) q)"
    using imageI [OF nth_mem [OF assms(2)], of "\<lambda>(r, k, v). (k, r, v)"] by (simp add: case_prod_beta)
  ultimately show ?thesis unfolding queued_for_def by (rule map_of_is_SomeI)
qed

lemma queued_for_update:
  assumes "distinct (map (fst \<circ> snd) q)" "i < length q" "fst (snd (q ! i)) = k"
  shows "queued_for (q[i := (r, k, v)]) k' = (if k' = k then Some (r, v) else queued_for q k')"
  using assms
proof (induction q arbitrary: i)
  case Nil
  then show ?case by simp
next
  case (Cons a q)
  obtain a1 a2 a3 where a: "a = (a1, a2, a3)" by (metis prod_cases3)
  show ?case
  proof (cases i)
    case 0
    then show ?thesis using Cons.prems by (simp add: a queued_for_def)
  next
    case (Suc j)
    then have j: "fst (snd (q ! j)) = k" "j < length q" using Cons.prems by simp_all
    then have "k \<in> (fst \<circ> snd) ` set q" by (metis comp_apply image_eqI nth_mem)
    then have "a2 \<noteq> k" using Cons.prems(1) by (auto simp: a)
    then show ?thesis using Cons.IH [OF _ j(2,1)] Cons.prems(1) Suc by (auto simp: a queued_for_def)
  qed
qed

lemma queued_for_None: "position (\<lambda>p. fst (snd p) = k) q = None \<longleftrightarrow> queued_for q k = None"
  by (simp add: position_None queued_for_def map_of_eq_None_iff image_iff case_prod_beta) metis

section \<open>Properties\<close>

text \<open>C6. No builder is left waiting.  Whatever is dispatched, however slots change, tasks end and results
  are taken, and whatever the simulators answer, no operation panics, and the submissions that were
  dispatched without an optimistic answer are exactly those a result was delivered for and those
  still owed one: none is lost and none is answered twice.  A resubmission that waits does so for
  a block whose simulation runs or is in the channel; and a new slot leaves nothing owed in the
  queues or waiting: all that remains is running, in the channel or answered.\<close>

theorem no_builder_left_waiting:
  "\<exists>s got. run (pool_step x) ops (Simulators_new configs, {#}, {#}) = Some (s, sum_list (map asked_by ops), got) \<and>
     sum_list (map asked_by ops) = got + outstanding s \<and>
     {Some h |h w. map_of (sm_seen_blocks s) h = Some (InFlight w)} \<subseteq> simulating s \<and>
     (\<forall>n. sum_list (map asked_by ops) = got + in_progress (snd (sim_on_new_slot n s)))"
proof -
  obtain s asked got where r: "run (pool_step x) ops (Simulators_new configs, {#}, {#}) = Some (s, asked, got)"
      "pool_ok (s, asked, got)"
    using pool.run_total [OF pool_ok_new, of ops x configs] by auto
  have asked: "asked = sum_list (map asked_by ops)" using pool_asked [OF r(1)] by simp
  have ok: "asked = got + outstanding s" "flight_ok s" using r(2) by (simp_all add: pool_ok_def accounts_ok_def)
  have idle: "in_progress (snd (sim_on_new_slot n s)) = outstanding s" for n
    by (rule trans [OF sym [OF new_slot_accounts [OF refl, THEN conjunct2, THEN conjunct1]]
        new_slot_accounts [OF refl, THEN conjunct1]])
  have fl: "{Some h |h w. map_of (sm_seen_blocks s) h = Some (InFlight w)} \<subseteq> simulating s"
    using ok(2) by (auto simp: flight_within_def)
  show ?thesis
    by (intro exI [of _ s] exI [of _ got] conjI allI)
      (use r(1) fl in \<open>simp_all only: asked [symmetric] idle ok(1) [symmetric]\<close>)
qed

text \<open>C26. A simulator's pending count is the number of its tasks that run or whose result is in the
  channel, and it never exceeds the configured concurrency.\<close>

theorem simulator_load_bounded:
  "\<exists>s asked got. run (pool_step x) ops (Simulators_new configs, {#}, {#}) = Some (s, asked, got) \<and>
     list_all (\<lambda>(i, e). se_pending e = busy i s \<and> se_pending e \<le> ceiling e) (List.enumerate 0 (sm_simulators s))"
proof -
  obtain s asked got where r: "run (pool_step x) ops (Simulators_new configs, {#}, {#}) = Some (s, asked, got)"
      "pool_ok (s, asked, got)"
    using pool.run_total [OF pool_ok_new, of ops x configs] by auto
  then show ?thesis
    by (auto simp: pool_ok_def sims_ok_def entry_ok_def list_all_iff in_set_enumerate_eq)
qed

text \<open>Every request counted at the intake was sent at once, queued, or skipped as a duplicate of a
  block already seen; so the requests counted exceed those sent and queued exactly by the skipped
  duplicates.\<close>

theorem intake_counters_add_up:
  assumes "run (pool_step x) ops (Simulators_new configs, {#}, {#}) = Some (s, asked, got)"
  shows "lt_sims_reqs (sm_telemetry s) =
    lt_sims_sent_immediately (sm_telemetry s) + lt_queued (sm_telemetry s) + lt_duplicate_skipped (sm_telemetry s)"
  using intake.run_inv [OF _ _ assms]
  by (simp add: intake_ok_def Simulators_new_def default_local_telemetry_def)

theorem intake_counters_add_up_witness:
  "\<exists>s asked got. run (pool_step sample_externals) [DispatchOp 0 (sample_request 100 False) False,
      DispatchOp 1 (sample_request 100 False) False] (Simulators_new [], {#}, {#}) = Some (s, asked, got) \<and>
    lt_sims_reqs (sm_telemetry s) = 2 \<and>
    lt_sims_sent_immediately (sm_telemetry s) + lt_queued (sm_telemetry s) + lt_duplicate_skipped (sm_telemetry s) = 2"
proof -
  let ?ops = "[DispatchOp 0 (sample_request 100 False) False, DispatchOp 1 (sample_request 100 False) False]"
  obtain s asked got where r: "run (pool_step sample_externals) ?ops (Simulators_new [], {#}, {#}) = Some (s, asked, got)"
      "lt_sims_reqs (sm_telemetry s) = 2"
    by (simp add: sample_request_def Simulators_new_def dispatch_def Let_def req_trace_def signed_bid_trace_def sampled_def
        select_simulator_at_def next_client_def ssz_sim_indices_def min_by_key_def enqueue_def queue_store_def position_def
        default_local_telemetry_def settle_dropped_def answer_dropped_def SimDone_dropped_def optimistic_version_def
        version_gt_def version_cmp_def word_cmp_def)
  then show ?thesis using intake_counters_add_up [OF r(1)] by auto
qed

text \<open>C27. The queue holds one request per parent hash and builder, the freshest of them: storing one
  returns the request that will not run, keeps the newer version for its key, and leaves every other
  key alone.  The parent root plays no part, so two forks on one parent hash share an entry.  What
  is taken next has the highest class, a top bid before others, the earliest received first.\<close>

theorem queue_keeps_freshest_serves_best:
  assumes "distinct (map (fst \<circ> snd) q)" "queue_store req k v q tel = (dropped, q', tel')"
  shows "distinct (map (fst \<circ> snd) q') \<and>
    (\<forall>k'. k' \<noteq> k \<longrightarrow> queued_for q' k' = queued_for q k') \<and>
    (case queued_for q k of
       None \<Rightarrow> queued_for q' k = Some (req, v) \<and> dropped = None
     | Some (old, w) \<Rightarrow> if version_gt v w then queued_for q' k = Some (req, v) \<and> dropped = Some old
                        else queued_for q' k = Some (old, w) \<and> dropped = Some req) \<and>
    (\<exists>r rest. queue_next_req q' = Some (r, rest) \<and> (\<forall>p \<in> set q'. sort_key (fst p) \<le> sort_key r))"
proof -
  have d: "distinct (map (fst \<circ> snd) q')" using queue_store_keys [OF assms(1), of req k v tel] assms(2) by simp
  have ne: "q' \<noteq> []" using assms(2)
    by (auto simp: queue_store_def Let_def split: option.splits if_splits dest: position_Some)
  then obtain r rest where "queue_next_req q' = Some (r, rest)"
    by (cases "[0..<length q']") (auto simp: queue_next_req_def max_by_key_def split: option.split)
  note best = this queue_next_req_best [OF this]
  show ?thesis
  proof (cases "position (\<lambda>p. fst (snd p) = k) q")
    case None
    then show ?thesis using assms(2) best d queued_for_None [of k q]
      by (auto simp: queue_store_def Let_def queued_for_append split: option.splits)
  next
    case (Some i)
    note i = position_Some [OF Some]
    have old: "queued_for q k = Some (fst (q ! i), snd (snd (q ! i)))"
      using queued_for_nth [OF assms(1), of i] i by simp
    show ?thesis using assms(2) best d Some old queued_for_update [OF assms(1), of i k req v] i
      by (auto simp: queue_store_def Let_def split: if_splits)
  qed
qed

theorem queue_keeps_freshest_serves_best_witness:
  "\<exists>q'. fst (snd (queue_store (sample_request 101 False) \<lparr>qk_parent_hash = 5, qk_builder_pubkey = 1\<rparr>
        \<lparr>on_receive_ns = 2, sequence = None\<rparr>
        [(sample_request 100 False, \<lparr>qk_parent_hash = 5, qk_builder_pubkey = 1\<rparr>, \<lparr>on_receive_ns = 1, sequence = None\<rparr>)]
        default_local_telemetry)) = q' \<and>
    queued_for q' \<lparr>qk_parent_hash = 5, qk_builder_pubkey = 1\<rparr> =
      Some (sample_request 101 False, \<lparr>on_receive_ns = 2, sequence = None\<rparr>)"
proof -
  let ?k = "\<lparr>qk_parent_hash = 5, qk_builder_pubkey = 1\<rparr>"
  let ?q = "[(sample_request 100 False, ?k, \<lparr>on_receive_ns = 1, sequence = None\<rparr>)]"
  have d: "distinct (map (fst \<circ> snd) ?q)" by simp
  obtain dr q' tel' where q': "queue_store (sample_request 101 False) ?k \<lparr>on_receive_ns = 2, sequence = None\<rparr> ?q
      default_local_telemetry = (dr, q', tel')" by (metis prod_cases3)
  show ?thesis using queue_keeps_freshest_serves_best [OF d q'] q'
    by (simp add: queued_for_def [of ?q] version_gt_def version_cmp_def word_cmp_def)
qed

end
