(* ===== verification/Bls_Batch.thy ===== *)
theory Bls_Batch
  imports Helix_Types
begin

text \<open>
  Signature checks (\<open>crates/types/src/gloas.rs\<close>): decoding of keys and signatures, the check of one
  signature, and \<open>BlsBatch\<close>, which checks many with one product of pairings weighted by random
  numbers and falls back to single checks when the product is not one.

  Curve points, hashing to the curve and the pairing belong to the external BLS library: the record
  \<open>bls_env\<close>, with the types of points as its parameters.  \<open>pairing_laws\<close> states that the pairing is
  bilinear into a group of large prime order.
\<close>

datatype SigError = InvalidBlsPubkeyBytes | InvalidBlsSignatureBytes | InvalidBlsSignature

record ('g1, 'g2) bls_env =
  uncompress_in_g1 :: "BlsPublicKeyBytes \<Rightarrow> 'g1 option"
  uncompress_in_g2 :: "BlsSignatureBytes \<Rightarrow> 'g2 option"
  is_infinity :: "'g1 \<Rightarrow> bool"
  hash_to_curve :: "B256 \<Rightarrow> 'g2"
  negative_generator :: 'g1
  weighted :: "'g1 \<Rightarrow> u64 \<Rightarrow> 'g1"
  weighted_sum :: "'g2 list \<Rightarrow> u64 list \<Rightarrow> 'g2"
  pairing_is_one :: "('g1 \<times> 'g2) list \<Rightarrow> bool"

section \<open>One signature\<close>

definition two_pairs_are_one :: "('g1, 'g2) bls_env \<Rightarrow> 'g1 \<times> 'g2 \<Rightarrow> 'g1 \<times> 'g2 \<Rightarrow> bool" where
  "two_pairs_are_one E p q = pairing_is_one E [p, q]"

definition decode_pubkeys :: "('g1, 'g2) bls_env \<Rightarrow> BlsPublicKeyBytes list \<Rightarrow> 'g1 option list" where
  "decode_pubkeys E pubkeys =
     map (\<lambda>key. case key of Some k \<Rightarrow> if is_infinity E k then None else Some k | None \<Rightarrow> None)
       (map (uncompress_in_g1 E) pubkeys)"

definition decode_pubkey :: "('g1, 'g2) bls_env \<Rightarrow> BlsPublicKeyBytes \<Rightarrow> (SigError, 'g1) Result" where
  "decode_pubkey E pubkey =
     (case hd (decode_pubkeys E [pubkey]) of Some k \<Rightarrow> Inr k | None \<Rightarrow> Inl InvalidBlsPubkeyBytes)"

definition decode_signature :: "('g1, 'g2) bls_env \<Rightarrow> BlsSignatureBytes \<Rightarrow> (SigError, 'g2) Result" where
  "decode_signature E signature =
     (case uncompress_in_g2 E signature of Some s \<Rightarrow> Inr s | None \<Rightarrow> Inl InvalidBlsSignatureBytes)"

definition bls_verify_point :: "('g1, 'g2) bls_env \<Rightarrow> 'g1 \<Rightarrow> 'g2 \<Rightarrow> B256 \<Rightarrow> (SigError, unit) Result" where
  "bls_verify_point E pubkey signature root =
     (let hash = hash_to_curve E root in
      ensure (two_pairs_are_one E (negative_generator E, signature) (pubkey, hash)) InvalidBlsSignature)"

definition bls_verify ::
  "('g1, 'g2) bls_env \<Rightarrow> BlsPublicKeyBytes \<Rightarrow> BlsSignatureBytes \<Rightarrow> B256 \<Rightarrow> (SigError, unit) Result" where
  "bls_verify E pubkey signature root =
     and_then (decode_signature E signature) (\<lambda>sig.
     and_then (decode_pubkey E pubkey) (\<lambda>pk. bls_verify_point E pk sig root))"

section \<open>A batch\<close>

record BlsBatch =
  bat_pubkeys :: "BlsPublicKeyBytes list"
  bat_signatures :: "BlsSignatureBytes list"
  bat_roots :: "B256 list"
  bat_verdicts :: "bool list"

definition default_batch :: BlsBatch where
  "default_batch = \<lparr>bat_pubkeys = [], bat_signatures = [], bat_roots = [], bat_verdicts = []\<rparr>"

definition batch_clear :: "BlsBatch \<Rightarrow> BlsBatch" where
  "batch_clear b = b\<lparr>bat_pubkeys := [], bat_signatures := [], bat_roots := []\<rparr>"

definition batch_push :: "BlsPublicKeyBytes \<Rightarrow> BlsSignatureBytes \<Rightarrow> B256 \<Rightarrow> BlsBatch \<Rightarrow> BlsBatch" where
  "batch_push pubkey signature root b =
     b\<lparr>bat_pubkeys := bat_pubkeys b @ [pubkey], bat_signatures := bat_signatures b @ [signature],
       bat_roots := bat_roots b @ [root]\<rparr>"

text \<open>An item is admitted when both points decode and the key is finite.\<close>

definition admit ::
  "('g1, 'g2) bls_env \<Rightarrow> 'g1 option \<times> 'g2 option \<times> B256 \<Rightarrow> ('g1 \<times> 'g2 \<times> 'g2) option" where
  "admit E item = (case item of
     (Some key, Some sig, root) \<Rightarrow> if is_infinity E key then None else Some (key, sig, hash_to_curve E root)
   | _ \<Rightarrow> None)"

text \<open>The verdicts that are set are replaced, in order, by the given ones.\<close>

fun replace_set :: "bool list \<Rightarrow> bool list \<Rightarrow> bool list" where
  "replace_set (True # vs) (r # rs) = r # replace_set vs rs"
| "replace_set (False # vs) rs = False # replace_set vs rs"
| "replace_set vs [] = vs"
| "replace_set [] rs = []"

text \<open>The random numbers of the batch: a zero would omit its item and is replaced by one.\<close>

definition weight :: "u64 \<Rightarrow> u64" where
  "weight raw = max raw 1"

definition batch_pairs ::
  "('g1, 'g2) bls_env \<Rightarrow> u64 list \<Rightarrow> ('g1 \<times> 'g2 \<times> 'g2) list \<Rightarrow> ('g1 \<times> 'g2) list" where
  "batch_pairs E weights included =
     map (\<lambda>((key, sig, hash), w). (weighted E key w, hash)) (zip included weights) @
     [(negative_generator E, weighted_sum E (map (fst \<circ> snd) included) weights)]"

text \<open>\<open>rng\<close> is the sequence of random numbers the thread's generator returns.\<close>

definition batch_verify :: "('g1, 'g2) bls_env \<Rightarrow> (nat \<Rightarrow> u64) \<Rightarrow> BlsBatch \<Rightarrow> bool \<times> BlsBatch" where
  "batch_verify E rng b =
     (let keys = map (uncompress_in_g1 E) (bat_pubkeys b);
          sigs = map (uncompress_in_g2 E) (bat_signatures b);
          items = map (admit E) (zip keys (zip sigs (bat_roots b)));
          verdicts = map (\<lambda>i. i \<noteq> None) items;
          included = map the (filter (\<lambda>i. i \<noteq> None) items);
          batched = length included > 1;
          weights = map (\<lambda>i. weight (rng i)) [0..<length included]
      in if batched \<and> pairing_is_one E (batch_pairs E weights included)
         then (False, b\<lparr>bat_verdicts := verdicts\<rparr>)
         else (batched, b\<lparr>bat_verdicts := replace_set verdicts
                 (map (\<lambda>(key, sig, hash). two_pairs_are_one E (negative_generator E, sig) (key, hash)) included)\<rparr>))"

section \<open>The external pairing\<close>

text \<open>The pairing \<open>e\<close>, written by its discrete logarithm, is bilinear, and no nonzero value is killed by
  a factor below \<open>2^64\<close>, as in a group of larger prime order \<open>r\<close>.\<close>

definition pairing_laws :: "('g1, 'g2) bls_env \<Rightarrow> int \<Rightarrow> ('g1 \<Rightarrow> 'g2 \<Rightarrow> int) \<Rightarrow> bool" where
  "pairing_laws E r e \<longleftrightarrow>
     (\<forall>ps. pairing_is_one E ps \<longleftrightarrow> r dvd (\<Sum>(a, b)\<leftarrow>ps. e a b)) \<and>
     (\<forall>k w h. e (weighted E k w) h = uint w * e k h) \<and>
     (\<forall>ss ws. length ws = length ss \<longrightarrow>
        e (negative_generator E) (weighted_sum E ss ws) =
          (\<Sum>(s, w)\<leftarrow>zip ss ws. uint w * e (negative_generator E) s)) \<and>
     (\<forall>w d. 0 < w \<and> w < 2 ^ 64 \<and> r dvd w * d \<longrightarrow> r dvd d)"

text \<open>The items of a batch, and one filled with given items.\<close>

definition batch_items :: "BlsBatch \<Rightarrow> (BlsPublicKeyBytes \<times> BlsSignatureBytes \<times> B256) list" where
  "batch_items b = zip (bat_pubkeys b) (zip (bat_signatures b) (bat_roots b))"

definition batch_of :: "(BlsPublicKeyBytes \<times> BlsSignatureBytes \<times> B256) list \<Rightarrow> BlsBatch" where
  "batch_of items = fold (\<lambda>(pk, sig, root). batch_push pk sig root) items (batch_clear default_batch)"

definition valid_item :: "('g1, 'g2) bls_env \<Rightarrow> BlsPublicKeyBytes \<times> BlsSignatureBytes \<times> B256 \<Rightarrow> bool" where
  "valid_item E item = (case item of (pk, sig, root) \<Rightarrow> is_ok (bls_verify E pk sig root))"

definition admitted_item :: "('g1, 'g2) bls_env \<Rightarrow> BlsPublicKeyBytes \<times> BlsSignatureBytes \<times> B256 \<Rightarrow> bool" where
  "admitted_item E item = (case item of (pk, sig, root) \<Rightarrow>
     is_ok (decode_pubkey E pk) \<and> is_ok (decode_signature E sig))"

definition log_env :: "(int, int) bls_env" where
  "log_env = \<lparr>uncompress_in_g1 = (\<lambda>k. Some (uint k)), uncompress_in_g2 = (\<lambda>s. Some (uint s)),
     is_infinity = (\<lambda>k. k = 0), hash_to_curve = (\<lambda>root. uint root), negative_generator = - 1,
     weighted = (\<lambda>k w. uint w * k), weighted_sum = (\<lambda>ss ws. \<Sum>(s, w)\<leftarrow>zip ss ws. uint w * s),
     pairing_is_one = (\<lambda>ps. (\<Sum>(a, b)\<leftarrow>ps. a * b) = 0)\<rparr>"

section \<open>Lemmas\<close>

text \<open>The verdicts in terms of the items.\<close>

definition pre_items ::
  "('g1, 'g2) bls_env \<Rightarrow> (BlsPublicKeyBytes \<times> BlsSignatureBytes \<times> B256) list \<Rightarrow> ('g1 \<times> 'g2 \<times> 'g2) option list" where
  "pre_items E items =
     map (\<lambda>(pk, sig, root). admit E (uncompress_in_g1 E pk, uncompress_in_g2 E sig, root)) items"

definition included_items ::
  "('g1, 'g2) bls_env \<Rightarrow> (BlsPublicKeyBytes \<times> BlsSignatureBytes \<times> B256) list \<Rightarrow> ('g1 \<times> 'g2 \<times> 'g2) list" where
  "included_items E items = map the (filter (\<lambda>i. i \<noteq> None) (pre_items E items))"

text \<open>What one item adds to the product, per unit of weight.\<close>

definition item_log :: "('g1, 'g2) bls_env \<Rightarrow> ('g1 \<Rightarrow> 'g2 \<Rightarrow> int) \<Rightarrow> 'g1 \<times> 'g2 \<times> 'g2 \<Rightarrow> int" where
  "item_log E e p = (case p of (k, s, h) \<Rightarrow> e k h + e (negative_generator E) s)"

lemma pre_items_batch:
  "map (admit E) (zip (map (uncompress_in_g1 E) pks) (zip (map (uncompress_in_g2 E) sigs) roots)) =
     pre_items E (zip pks (zip sigs roots))"
  by (simp add: pre_items_def zip_map1 zip_map2 case_prod_beta comp_def)

lemma admit_Some_iff: "(admit E (uncompress_in_g1 E pk, uncompress_in_g2 E sig, root) \<noteq> None) =
    admitted_item E (pk, sig, root)"
  by (auto simp: admit_def admitted_item_def decode_pubkey_def decode_pubkeys_def decode_signature_def
      split: option.splits)

lemma valid_admitted: "valid_item E item \<Longrightarrow> admitted_item E item"
  by (auto simp: valid_item_def admitted_item_def bls_verify_def is_ok_def and_then_def
      split: prod.splits sum.splits)

lemma valid_item_single:
  assumes "admit E (uncompress_in_g1 E pk, uncompress_in_g2 E sig, root) = Some (k, s, h)"
  shows "valid_item E (pk, sig, root) = two_pairs_are_one E (negative_generator E, s) (k, h)"
  using assms by (auto simp: admit_def valid_item_def bls_verify_def decode_pubkey_def decode_pubkeys_def
      decode_signature_def bls_verify_point_def ensure_def is_ok_def split: option.splits if_splits)

lemma replace_set_singles:
  "replace_set (map (\<lambda>i. i \<noteq> None) (pre_items E items))
     (map (\<lambda>(key, sig, hash). two_pairs_are_one E (negative_generator E, sig) (key, hash))
       (map the (filter (\<lambda>i. i \<noteq> None) (pre_items E items)))) = map (valid_item E) items"
proof (induction items)
  case Nil
  then show ?case by (simp add: pre_items_def)
next
  case (Cons item items)
  obtain pk sig root where item: "item = (pk, sig, root)" by (cases item)
  show ?case
  proof (cases "admit E (uncompress_in_g1 E pk, uncompress_in_g2 E sig, root)")
    case None
    then have "\<not> valid_item E item" using valid_admitted [of E item] admit_Some_iff [of E pk sig root] item by auto
    then show ?thesis using Cons None item by (simp add: pre_items_def)
  next
    case (Some p)
    then show ?thesis using Cons item valid_item_single [of E pk sig root] by (cases p) (simp add: pre_items_def)
  qed
qed

lemma verdict_admitted: "map (\<lambda>i. i \<noteq> None) (pre_items E items) = map (admitted_item E) items"
  by (simp add: pre_items_def comp_def case_prod_beta admit_Some_iff del: not_None_eq)

lemma batch_verify_cases:
  "batch_verify E rng b =
     (let included = included_items E (batch_items b);
          weights = map (\<lambda>i. weight (rng i)) [0..<length included]
      in if length included > 1 \<and> pairing_is_one E (batch_pairs E weights included)
         then (False, b\<lparr>bat_verdicts := map (admitted_item E) (batch_items b)\<rparr>)
         else (length included > 1, b\<lparr>bat_verdicts := map (valid_item E) (batch_items b)\<rparr>))"
  unfolding batch_verify_def Let_def pre_items_batch batch_items_def [symmetric] included_items_def
    replace_set_singles
  unfolding verdict_admitted ..

lemma length_included: "length (included_items E items) = length (filter (admitted_item E) items)"
  by (induction items)
    (auto simp: included_items_def pre_items_def admit_Some_iff [symmetric])

lemma included_nth:
  assumes "i < length items" "admitted_item E (items ! i)"
  shows "included_items E items ! length (filter (admitted_item E) (take i items)) = the (pre_items E items ! i)"
    and "pre_items E items ! i \<noteq> None"
    and "length (filter (admitted_item E) (take i items)) < length (included_items E items)"
proof -
  have split: "items = take i items @ items ! i # drop (Suc i) items" using assms(1) by (rule id_take_nth_drop)
  have app: "included_items E (xs @ ys) = included_items E xs @ included_items E ys" for xs ys
    by (simp add: included_items_def pre_items_def)
  obtain pk sig root where it: "items ! i = (pk, sig, root)" by (cases "items ! i")
  have nth: "pre_items E items ! i = admit E (uncompress_in_g1 E pk, uncompress_in_g2 E sig, root)"
    using assms(1) it by (simp add: pre_items_def)
  then show some: "pre_items E items ! i \<noteq> None" using assms(2) it admit_Some_iff by metis
  have one: "included_items E [items ! i] = [the (pre_items E items ! i)]"
    using some nth it by (simp add: included_items_def pre_items_def)
  have incl: "included_items E items =
      included_items E (take i items) @ the (pre_items E items ! i) # included_items E (drop (Suc i) items)"
    using split app [of "take i items" "items ! i # drop (Suc i) items"]
      app [of "[items ! i]" "drop (Suc i) items"] one by simp
  show "included_items E items ! length (filter (admitted_item E) (take i items)) = the (pre_items E items ! i)"
    using incl by (simp add: nth_append flip: length_included)
  show "length (filter (admitted_item E) (take i items)) < length (included_items E items)"
    using incl by (simp flip: length_included)
qed

lemma push_all:
  "length (bat_signatures b) = length (bat_pubkeys b) \<Longrightarrow> length (bat_roots b) = length (bat_pubkeys b) \<Longrightarrow>
   batch_items (fold (\<lambda>(pk, sig, root). batch_push pk sig root) items b) = batch_items b @ items"
  by (induction items arbitrary: b) (auto simp: batch_items_def batch_push_def)

lemma batch_items_of [simp]: "batch_items (batch_of items) = items"
  by (simp add: batch_of_def push_all batch_clear_def default_batch_def) (simp add: batch_items_def)

section \<open>Soundness of the weighted product\<close>

lemma pairing_lawsD:
  assumes "pairing_laws E r e"
  shows "pairing_is_one E ps \<longleftrightarrow> r dvd (\<Sum>(a, b)\<leftarrow>ps. e a b)"
    and "e (weighted E k w) h = uint w * e k h"
    and "length ws = length ss \<Longrightarrow> e (negative_generator E) (weighted_sum E ss ws) =
      (\<Sum>(s, w)\<leftarrow>zip ss ws. uint w * e (negative_generator E) s)"
    and "0 < n \<Longrightarrow> n < 2 ^ 64 \<Longrightarrow> r dvd n * d \<Longrightarrow> r dvd d"
  using assms unfolding pairing_laws_def by blast+

lemma valid_item_log:
  assumes "pairing_laws E r e" "i < length items" "pre_items E items ! i = Some p"
  shows "valid_item E (items ! i) \<longleftrightarrow> r dvd item_log E e p"
proof -
  obtain pk sig root where it: "items ! i = (pk, sig, root)" by (cases "items ! i")
  obtain k s h where p: "p = (k, s, h)" by (cases p)
  have "admit E (uncompress_in_g1 E pk, uncompress_in_g2 E sig, root) = Some (k, s, h)"
    using assms it p by (simp add: pre_items_def)
  from valid_item_single [OF this] show ?thesis
    using pairing_lawsD(1) [OF assms(1)] it p by (simp add: two_pairs_are_one_def item_log_def add.commute)
qed

lemma batch_pairs_log:
  assumes "pairing_laws E r e" "length ws = length inc"
  shows "pairing_is_one E (batch_pairs E ws inc) \<longleftrightarrow>
    r dvd (\<Sum>i<length inc. uint (ws ! i) * item_log E e (inc ! i))"
proof -
  have neg: "e (negative_generator E) (weighted_sum E (map (fst \<circ> snd) inc) ws) =
      (\<Sum>(s, w)\<leftarrow>zip (map (fst \<circ> snd) inc) ws. uint w * e (negative_generator E) s)"
    using assms(2) by (intro pairing_lawsD(3) [OF assms(1)]) simp
  have sigs: "(\<Sum>(s, w)\<leftarrow>zip (map (fst \<circ> snd) inc) ws. uint w * e (negative_generator E) s) =
      (\<Sum>p\<leftarrow>zip inc ws. uint (snd p) * e (negative_generator E) (fst (snd (fst p))))"
    by (simp add: zip_map1 case_prod_beta comp_def)
  have "(\<Sum>(a, b)\<leftarrow>batch_pairs E ws inc. e a b) =
      (\<Sum>p\<leftarrow>zip inc ws. uint (snd p) * e (fst (fst p)) (snd (snd (fst p)))) +
      (\<Sum>p\<leftarrow>zip inc ws. uint (snd p) * e (negative_generator E) (fst (snd (fst p))))"
    using neg sigs by (simp add: batch_pairs_def case_prod_beta comp_def pairing_lawsD(2) [OF assms(1)])
  also have "\<dots> = (\<Sum>p\<leftarrow>zip inc ws. uint (snd p) * item_log E e (fst p))"
    by (simp add: item_log_def case_prod_beta distrib_left sum_list_addf)
  also have "\<dots> = (\<Sum>i<length inc. uint (ws ! i) * item_log E e (inc ! i))"
    using assms(2) by (simp add: sum_list_sum_nth case_prod_beta atLeast0LessThan)
  finally show ?thesis by (simp add: pairing_lawsD(1) [OF assms(1)])
qed

lemma weight_range: "0 < uint (weight raw)" "uint (weight raw) < 2 ^ 64"
proof -
  have "1 \<le> weight raw" by (simp add: weight_def)
  then show "0 < uint (weight raw)" by (simp add: word_le_def)
  show "uint (weight raw) < 2 ^ 64" using uint_lt2p [of "weight raw"] by simp
qed

lemma card_weight: "card {raw. weight raw = w} \<le> 2"
proof -
  have "{raw. weight raw = w} \<subseteq> {w, 0}"
    by (auto simp: weight_def max_def split: if_splits) (metis word_less_1 linorder_not_le order.not_eq_order_implies_strict)
  then have "card {raw. weight raw = w} \<le> card {w, 0}" by (intro card_mono) auto
  also have "\<dots> \<le> 2" by (simp add: card_insert_if)
  finally show ?thesis .
qed

lemma few_weights:
  assumes laws: "pairing_laws E r e" and bad: "\<not> r dvd d"
  shows "card {raw. r dvd uint (weight raw) * d + c} \<le> 2"
proof (cases "{raw. r dvd uint (weight raw) * d + c} = {}")
  case False
  then obtain raw0 where raw0: "r dvd uint (weight raw0) * d + c" by auto
  have "weight raw = weight raw0" if raw: "r dvd uint (weight raw) * d + c" for raw
  proof (rule ccontr)
    assume ne: "weight raw \<noteq> weight raw0"
    let ?a = "uint (weight raw)" and ?b = "uint (weight raw0)"
    have diff: "r dvd \<bar>?a - ?b\<bar> * d"
    proof -
      have "r dvd (?a * d + c) - (?b * d + c)" using raw raw0 by (rule dvd_diff)
      then have "r dvd (?a - ?b) * d" by (simp add: left_diff_distrib)
      then show ?thesis using dvd_diff_commute [of r "?a * d" "?b * d"] by (simp add: abs_if left_diff_distrib)
    qed
    have "0 < \<bar>?a - ?b\<bar>" "\<bar>?a - ?b\<bar> < 2 ^ 64"
      using ne weight_range [of raw] weight_range [of raw0] by (auto simp: word_uint_eq_iff)
    then show False using pairing_lawsD(4) [OF laws _ _ diff] bad by blast
  qed
  then have "{raw. r dvd uint (weight raw) * d + c} \<subseteq> {raw. weight raw = weight raw0}" by auto
  then have "card {raw. r dvd uint (weight raw) * d + c} \<le> card {raw. weight raw = weight raw0}"
    by (intro card_mono) auto
  then show ?thesis using card_weight le_trans by blast
qed simp

lemma log_env_laws: "pairing_laws log_env 0 (\<lambda>a b. a * b)"
proof -
  have "- (\<Sum>(s, w)\<leftarrow>zip ss ws. uint w * s) = (\<Sum>(s, w)\<leftarrow>zip ss ws. uint w * (- s))" for ss :: "int list" and ws :: "u64 list"
    by (induction ss ws rule: list_induct2') auto
  then show ?thesis by (auto simp: pairing_laws_def log_env_def)
qed

section \<open>Properties\<close>

text \<open>C32. A batch never rejects a signature that passes on its own, and its verdicts are those of the single
  checks whenever it fell back or had at most one item to check; when the weighted product is one,
  the verdicts are those of decoding.  The order of the verdicts is the order of the items, and
  filling a cleared batch keeps every item.\<close>

theorem batch_agrees_with_single_checks:
  "\<exists>fell_back b'. batch_verify E rng (batch_of items) = (fell_back, b') \<and>
     length (bat_verdicts b') = length items \<and>
     (\<forall>i < length items. valid_item E (items ! i) \<longrightarrow> bat_verdicts b' ! i) \<and>
     (fell_back \<or> length (filter (admitted_item E) items) \<le> 1 \<longrightarrow>
        bat_verdicts b' = map (valid_item E) items) \<and>
     (\<forall>i < length items. bat_verdicts b' ! i \<longrightarrow> admitted_item E (items ! i))"
proof (cases "length (included_items E items) > 1 \<and> pairing_is_one E (batch_pairs E
    (map (\<lambda>i. weight (rng i)) [0..<length (included_items E items)]) (included_items E items))")
  case True
  then have "batch_verify E rng (batch_of items) =
      (False, (batch_of items)\<lparr>bat_verdicts := map (admitted_item E) items\<rparr>)"
    by (simp add: batch_verify_cases Let_def)
  then show ?thesis using True by (auto simp: length_included valid_admitted)
next
  case False
  then have "batch_verify E rng (batch_of items) =
      (length (included_items E items) > 1, (batch_of items)\<lparr>bat_verdicts := map (valid_item E) items\<rparr>)"
    unfolding batch_verify_cases Let_def batch_items_of by (rule if_not_P)
  then show ?thesis by (simp add: valid_admitted)
qed

theorem batch_agrees_with_single_checks_witness:
  "bat_verdicts (snd (batch_verify log_env (\<lambda>i. 4) (batch_of [(2, 6, 3), (5, 1, 3)]))) ! 0"
proof -
  have "valid_item log_env ([(2, 6, 3), (5, 1, 3)] ! 0)"
    by (simp add: valid_item_def bls_verify_def decode_signature_def decode_pubkey_def decode_pubkeys_def
        bls_verify_point_def two_pairs_are_one_def log_env_def ensure_def is_ok_def)
  then show ?thesis
    using batch_agrees_with_single_checks [of log_env "\<lambda>i. 4" "[(2, 6, 3), (5, 1, 3)]"] by auto
qed



end
