(* ===== verification/Local_Cache.thy ===== *)
theory Local_Cache
  imports Auctioneer_Types Bls_Batch
begin

text \<open>
  The state the relay's parts share (\<open>crates/common/src/local_cache.rs\<close>): builders with their
  collateral and optimistic status, the pool view written by the operator task, the proposer
  schedule, validator registrations, merged blocks and submission versions.  The concurrent maps
  are association lists and the atomics plain fields: each definition is one call, and the
  interleaving of calls is the order in which they are made.

  The API provider's admission of a registration (\<open>ApiProvider::admit_registration\<close>, a trait the
  relay is built with) is the argument \<open>admit_registration\<close>; points of the proposers' keys come from
  \<^const>\<open>decode_pubkeys\<close>.
\<close>

section \<open>Builders and pools\<close>

record BuilderInfo =
  bi_collateral :: U256
  bi_is_optimistic :: bool
  bi_is_optimistic_for_regional_filtering :: bool
  bi_builder_id :: "string option"
  bi_builder_ids :: "string list option"
  bi_api_key :: "string option"
  bi_skip_sigverify :: bool
  bi_tcp_submissions :: bool
  bi_top_bid_feed :: bool

definition default_builder_info :: BuilderInfo where
  "default_builder_info = \<lparr>bi_collateral = 0, bi_is_optimistic = False,
     bi_is_optimistic_for_regional_filtering = False, bi_builder_id = None, bi_builder_ids = None,
     bi_api_key = None, bi_skip_sigverify = False, bi_tcp_submissions = False, bi_top_bid_feed = False\<rparr>"

definition can_process_regional_slot_optimistically :: "BuilderInfo \<Rightarrow> bool" where
  "can_process_regional_slot_optimistically i \<longleftrightarrow>
     bi_is_optimistic i \<and> bi_is_optimistic_for_regional_filtering i"

record BuilderConfig =
  bc_pub_key :: BlsPublicKeyBytes
  bc_builder_info :: BuilderInfo

datatype PromotionMode = Observe | Follow | Share

definition applies :: "PromotionMode \<Rightarrow> bool" where
  "applies m = (case m of Observe \<Rightarrow> False | Follow \<Rightarrow> True | Share \<Rightarrow> True)"

record PoolBinding =
  pbi_pool :: u32
  pbi_reported :: bool

record PoolView =
  pv_collateral_id :: bytes
  pv_available :: U256
  pv_promoted :: bool

record PoolStatus =
  pst_collateral_id :: bytes
  pst_available :: U256
  pst_is_optimistic :: bool

section \<open>Proposers and merged blocks\<close>

record ProposerDuty =
  pd_pubkey :: BlsPublicKeyBytes
  pd_validator_index :: u64
  pd_slot :: Slot

record SignedValidatorRegistrationEntry =
  sre_registration_info :: ValidatorRegistrationInfo
  sre_inserted_at :: u64
  sre_pool_name :: "string option"
  sre_user_agent :: "string option"

record MergedBlock =
  mb_slot :: u64
  mb_block_number :: u64
  mb_original_block_hash :: B256
  mb_block_hash :: B256
  mb_original_value :: U256
  mb_proposer_value :: U256
  mb_total_merged_value :: U256
  mb_base_builder_revenue :: U256
  mb_relay_revenue :: U256
  mb_original_tx_count :: nat
  mb_merged_tx_count :: nat
  mb_original_blob_count :: nat
  mb_merged_blob_count :: nat
  mb_original_gas_used :: u64
  mb_merged_gas_used :: u64
  mb_builder_inclusions :: "(Address, BuilderInclusionResult) FxHashMap"
  mb_trace :: MergedBlockTrace
  mb_unmerged_txs :: "(B256 \<times> UnmergedReason) list"
  mb_tx_builders :: "(B256 \<times> BlsPublicKeyBytes) list"

type_synonym SlotCoordinate = "u64 \<times> BlsPublicKeyBytes \<times> B256"
type_synonym G1Point = bytes

section \<open>The cache\<close>

record LocalCache =
  lc_inclusion_list :: "(SlotCoordinate \<times> InclusionList) option"
  lc_builder_info_cache :: "(BlsPublicKeyBytes, BuilderInfo) FxHashMap"
  lc_api_key_cache :: "(string, BuilderConfig list) FxHashMap"
  lc_pool_binding :: "(BlsPublicKeyBytes, PoolBinding) FxHashMap"
  lc_pool_view :: "(u32, PoolView) FxHashMap"
  lc_promotion_mode :: PromotionMode
  lc_primev_proposers :: "BlsPublicKeyBytes set"
  lc_kill_switch :: bool
  lc_serve_merged_headers :: bool
  lc_proposer_duties :: "BuilderGetValidatorsResponseEntry list"
  lc_proposer_schedule :: "(ProposerDuty \<times> G1Point option) list"
  lc_merged_blocks :: "(B256, MergedBlock) FxHashMap"
  lc_validator_registration_cache :: "(BlsPublicKeyBytes, SignedValidatorRegistrationEntry) FxHashMap"
  lc_pending_validator_registrations :: "BlsPublicKeyBytes set"
  lc_known_validators_cache :: "BlsPublicKeyBytes set"
  lc_adjustments_enabled :: bool
  lc_adjustments_failsafe_trigger :: bool
  lc_submission_versions :: "(BlsPublicKeyBytes, u64 \<times> SubmissionVersion) FxHashMap"

definition LocalCache_new :: LocalCache where
  "LocalCache_new = \<lparr>lc_inclusion_list = None, lc_builder_info_cache = [], lc_api_key_cache = [],
     lc_pool_binding = [], lc_pool_view = [], lc_promotion_mode = Observe, lc_primev_proposers = {},
     lc_kill_switch = False, lc_serve_merged_headers = True, lc_proposer_duties = [],
     lc_proposer_schedule = [], lc_merged_blocks = [], lc_validator_registration_cache = [],
     lc_pending_validator_registrations = {}, lc_known_validators_cache = {},
     lc_adjustments_enabled = False, lc_adjustments_failsafe_trigger = False,
     lc_submission_versions = []\<rparr>"

definition check_submission_version ::
  "LocalCache \<Rightarrow> BlsPublicKeyBytes \<Rightarrow> u64 \<Rightarrow> SubmissionVersion \<Rightarrow> (BlockValidationError, unit) Result" where
  "check_submission_version c builder slot this =
     (case map_of (lc_submission_versions c) builder of
        Some seen \<Rightarrow>
          if fst seen = slot \<and> version_ge (snd seen) this then Inl (OutOfSequence (snd seen) this) else Inr ()
      | None \<Rightarrow> Inr ())"

definition insert_submission_version ::
  "BlsPublicKeyBytes \<Rightarrow> u64 \<Rightarrow> SubmissionVersion \<Rightarrow> LocalCache \<Rightarrow> LocalCache" where
  "insert_submission_version builder slot v c =
     c\<lparr>lc_submission_versions := AList.update builder (slot, v) (lc_submission_versions c)\<rparr>"

definition get_builder_info :: "LocalCache \<Rightarrow> BlsPublicKeyBytes \<Rightarrow> BuilderInfo option" where
  "get_builder_info c k =
     (case map_of (lc_builder_info_cache c) k of
        None \<Rightarrow> None
      | Some info \<Rightarrow>
          if \<not> applies (lc_promotion_mode c) then Some info
          else (case Option.bind (map_of (lc_pool_binding c) k)
                       (\<lambda>b. map_option (\<lambda>v. (b, v)) (map_of (lc_pool_view c) (pbi_pool b))) of
                  Some (binding, view) \<Rightarrow>
                    Some (info\<lparr>bi_collateral := pv_available view,
                               bi_is_optimistic := pv_promoted view \<and> \<not> pbi_reported binding\<rparr>)
                | None \<Rightarrow> Some (info\<lparr>bi_collateral := 0, bi_is_optimistic := False\<rparr>)))"

definition set_promotion_mode :: "PromotionMode \<Rightarrow> LocalCache \<Rightarrow> LocalCache" where
  "set_promotion_mode m c = c\<lparr>lc_promotion_mode := m\<rparr>"

definition update_pool_state ::
  "(u32 \<times> bytes \<times> U256 \<times> bool) list \<Rightarrow> (BlsPublicKeyBytes \<times> u32 \<times> bool) list \<Rightarrow> LocalCache \<Rightarrow> LocalCache" where
  "update_pool_state views bindings c =
     (let c1 = fold (\<lambda>(pool, cid, available, promoted) c.
                 c\<lparr>lc_pool_view := AList.update pool
                     \<lparr>pv_collateral_id = cid, pv_available = available, pv_promoted = promoted\<rparr>
                     (lc_pool_view c)\<rparr>) views c
      in fold (\<lambda>(pubkey, pool, reported) c.
           c\<lparr>lc_pool_binding := AList.update pubkey \<lparr>pbi_pool = pool, pbi_reported = reported\<rparr>
               (lc_pool_binding c)\<rparr>) bindings c1)"

definition get_builder_info_local_collateral_only :: "LocalCache \<Rightarrow> BlsPublicKeyBytes \<Rightarrow> BuilderInfo option" where
  "get_builder_info_local_collateral_only c k = map_of (lc_builder_info_cache c) k"

text \<open>One row of the loop over the builders.\<close>

definition add_local_collateral ::
  "BlsPublicKeyBytes \<times> BuilderInfo \<Rightarrow> (string, BlsPublicKeyBytes list \<times> U256) FxHashMap \<Rightarrow>
   (string, BlsPublicKeyBytes list \<times> U256) FxHashMap" where
  "add_local_collateral row builders =
     (case bi_builder_id (snd row) of
        None \<Rightarrow> builders
      | Some i \<Rightarrow>
          (case map_of builders i of
             Some (keys, wei) \<Rightarrow>
               AList.update i (keys @ [fst row], max wei (bi_collateral (snd row))) builders
           | None \<Rightarrow> AList.update i ([fst row], bi_collateral (snd row)) builders))"

definition all_builder_local_collateral ::
  "LocalCache \<Rightarrow> (string, BlsPublicKeyBytes list \<times> U256) FxHashMap" where
  "all_builder_local_collateral c = fold add_local_collateral (lc_builder_info_cache c) []"

definition has_top_bid_feed :: "LocalCache \<Rightarrow> string \<Rightarrow> bool" where
  "has_top_bid_feed c api_key =
     (case map_of (lc_api_key_cache c) api_key of
        Some b \<Rightarrow> list_ex (\<lambda>b. bi_top_bid_feed (bc_builder_info b)) b | None \<Rightarrow> False)"

definition can_skip_sigverify :: "LocalCache \<Rightarrow> string \<Rightarrow> BlsPublicKeyBytes \<Rightarrow> bool" where
  "can_skip_sigverify c api_key pubkey =
     (case map_of (lc_api_key_cache c) api_key of
        Some b \<Rightarrow> list_ex (\<lambda>b. bc_pub_key b = pubkey \<and> bi_skip_sigverify (bc_builder_info b)) b
      | None \<Rightarrow> False)"

definition demote_builder :: "BlsPublicKeyBytes \<Rightarrow> LocalCache \<Rightarrow> bool \<times> LocalCache" where
  "demote_builder k c =
     (case map_of (lc_builder_info_cache c) k of
        None \<Rightarrow> (False, c)
      | Some info \<Rightarrow>
          if \<not> bi_is_optimistic info then (False, c)
          else (True, c\<lparr>lc_builder_info_cache :=
                  AList.update k (info\<lparr>bi_is_optimistic := False\<rparr>) (lc_builder_info_cache c)\<rparr>))"

definition promote_builder :: "BlsPublicKeyBytes \<Rightarrow> LocalCache \<Rightarrow> bool \<times> LocalCache" where
  "promote_builder k c =
     (case map_of (lc_builder_info_cache c) k of
        None \<Rightarrow> (False, c)
      | Some info \<Rightarrow>
          if bi_is_optimistic info then (False, c)
          else (True, c\<lparr>lc_builder_info_cache :=
                  AList.update k (info\<lparr>bi_is_optimistic := True\<rparr>) (lc_builder_info_cache c)\<rparr>))"

definition pool_status :: "LocalCache \<Rightarrow> BlsPublicKeyBytes \<Rightarrow> PoolStatus option" where
  "pool_status c k =
     Option.bind (map_of (lc_pool_binding c) k) (\<lambda>binding.
     Option.bind (map_of (lc_pool_view c) (pbi_pool binding)) (\<lambda>view.
     Some \<lparr>pst_collateral_id = pv_collateral_id view, pst_available = pv_available view,
           pst_is_optimistic = pv_promoted view \<and> \<not> pbi_reported binding\<rparr>))"

definition update_builder_info :: "BuilderConfig \<Rightarrow> LocalCache \<Rightarrow> LocalCache" where
  "update_builder_info b c =
     (let c1 = (case bi_api_key (bc_builder_info b) of
                  Some api_key \<Rightarrow>
                    c\<lparr>lc_api_key_cache := AList.update api_key
                        ((case map_of (lc_api_key_cache c) api_key of Some bs \<Rightarrow> bs | None \<Rightarrow> []) @ [b])
                        (lc_api_key_cache c)\<rparr>
                | None \<Rightarrow> c)
      in c1\<lparr>lc_builder_info_cache := AList.update (bc_pub_key b) (bc_builder_info b) (lc_builder_info_cache c1)\<rparr>)"

definition update_builder_infos :: "BuilderConfig list \<Rightarrow> bool \<Rightarrow> LocalCache \<Rightarrow> LocalCache" where
  "update_builder_infos infos clear_api_cache c =
     fold update_builder_info infos (if clear_api_cache then c\<lparr>lc_api_key_cache := []\<rparr> else c)"

definition update_primev_proposers :: "BlsPublicKeyBytes list \<Rightarrow> LocalCache \<Rightarrow> LocalCache" where
  "update_primev_proposers ps c = c\<lparr>lc_primev_proposers := fold insert ps {}\<rparr>"

definition is_primev_proposer :: "LocalCache \<Rightarrow> BlsPublicKeyBytes \<Rightarrow> bool" where
  "is_primev_proposer c k = (k \<in> lc_primev_proposers c)"

definition set_kill_switch :: "bool \<Rightarrow> LocalCache \<Rightarrow> LocalCache" where
  "set_kill_switch on c = c\<lparr>lc_kill_switch := on\<rparr>"

definition set_merged_headers :: "bool \<Rightarrow> LocalCache \<Rightarrow> LocalCache" where
  "set_merged_headers on c = c\<lparr>lc_serve_merged_headers := on\<rparr>"

definition update_current_inclusion_list :: "InclusionList \<Rightarrow> SlotCoordinate \<Rightarrow> LocalCache \<Rightarrow> LocalCache" where
  "update_current_inclusion_list il key c = c\<lparr>lc_inclusion_list := Some (key, il)\<rparr>"

definition update_proposer_duties :: "BuilderGetValidatorsResponseEntry list \<Rightarrow> LocalCache \<Rightarrow> LocalCache" where
  "update_proposer_duties duties c = c\<lparr>lc_proposer_duties := duties\<rparr>"

definition update_proposer_schedule ::
  "(G1Point, bytes) bls_env \<Rightarrow> ProposerDuty list \<Rightarrow> LocalCache \<Rightarrow> LocalCache" where
  "update_proposer_schedule E duties c =
     c\<lparr>lc_proposer_schedule := zip duties (decode_pubkeys E (map pd_pubkey duties))\<rparr>"

definition scheduled_pubkey :: "LocalCache \<Rightarrow> Slot \<Rightarrow> BlsPublicKeyBytes option" where
  "scheduled_pubkey c slot =
     map_option (\<lambda>p. pd_pubkey (fst p)) (find (\<lambda>p. pd_slot (fst p) = slot) (lc_proposer_schedule c))"

definition proposer_key ::
  "(G1Point, bytes) bls_env \<Rightarrow> LocalCache \<Rightarrow> Slot \<Rightarrow> BlsPublicKeyBytes \<Rightarrow> (SigError, G1Point) Result" where
  "proposer_key E c slot pubkey =
     (case find (\<lambda>p. pd_slot (fst p) = slot \<and> pd_pubkey (fst p) = pubkey) (lc_proposer_schedule c) of
        Some (_, key) \<Rightarrow> (case key of Some k \<Rightarrow> Inr k | None \<Rightarrow> Inl InvalidBlsPubkeyBytes)
      | None \<Rightarrow> decode_pubkey E pubkey)"

definition save_merged_block :: "MergedBlock \<Rightarrow> LocalCache \<Rightarrow> LocalCache" where
  "save_merged_block m c = c\<lparr>lc_merged_blocks := AList.update (mb_block_hash m) m (lc_merged_blocks c)\<rparr>"

definition set_merged_block_header_served :: "B256 \<Rightarrow> u64 \<Rightarrow> bool \<Rightarrow> LocalCache \<Rightarrow> LocalCache" where
  "set_merged_block_header_served hash time_ns was_top c =
     (case map_of (lc_merged_blocks c) hash of
        Some b \<Rightarrow> c\<lparr>lc_merged_blocks := AList.update hash
            (b\<lparr>mb_trace := (mb_trace b)\<lparr>mbt_header_served_time_ns := Some time_ns,
                                       mbt_was_top_builder := Some was_top\<rparr>\<rparr>) (lc_merged_blocks c)\<rparr>
      | None \<Rightarrow> c)"

definition set_merged_block_top_bid :: "B256 \<Rightarrow> U256 \<Rightarrow> LocalCache \<Rightarrow> LocalCache" where
  "set_merged_block_top_bid hash top_bid c =
     (case map_of (lc_merged_blocks c) hash of
        Some b \<Rightarrow> c\<lparr>lc_merged_blocks := AList.update hash
            (b\<lparr>mb_trace := (mb_trace b)\<lparr>mbt_top_bid := Some top_bid\<rparr>\<rparr>) (lc_merged_blocks c)\<rparr>
      | None \<Rightarrow> c)"

definition get_merged_block :: "LocalCache \<Rightarrow> B256 \<Rightarrow> MergedBlock option" where
  "get_merged_block c hash = map_of (lc_merged_blocks c) hash"

definition get_merged_blocks :: "LocalCache \<Rightarrow> MergedBlock list" where
  "get_merged_blocks c = map snd (lc_merged_blocks c)"

definition clear_merged_blocks :: "LocalCache \<Rightarrow> LocalCache" where
  "clear_merged_blocks c = c\<lparr>lc_merged_blocks := []\<rparr>"

section \<open>Registrations\<close>

datatype RegistrationUpdate = Required | Unchanged | Rejected

definition VALIDATOR_REGISTRATION_UPDATE_INTERVAL :: u64 where
  "VALIDATOR_REGISTRATION_UPDATE_INTERVAL = 60 * 60"

abbreviation entry_message :: "SignedValidatorRegistrationEntry \<Rightarrow> ValidatorRegistrationData" where
  "entry_message e \<equiv> svr_message (ri_registration (sre_registration_info e))"

definition registration_update ::
  "(bool \<Rightarrow> SignedValidatorRegistrationEntry \<Rightarrow> bool) \<Rightarrow> LocalCache \<Rightarrow> SignedValidatorRegistration \<Rightarrow>
   Uuid option \<Rightarrow> RegistrationUpdate" where
  "registration_update admit_registration c registration api_key =
     (case map_of (lc_validator_registration_cache c) (vr_pubkey (svr_message registration)) of
        None \<Rightarrow> Required
      | Some existing_entry \<Rightarrow>
          (let existing = entry_message existing_entry;
               new = svr_message registration;
               fee_recipient_changed = (vr_fee_recipient existing \<noteq> vr_fee_recipient new);
               gas_limit_changed = (vr_gas_limit existing \<noteq> vr_gas_limit new)
           in if vr_timestamp new < vr_timestamp existing \<or>
                 (vr_timestamp new = vr_timestamp existing \<and> (fee_recipient_changed \<or> gas_limit_changed))
              then Unchanged
              else if \<not> (vr_timestamp existing <
                           saturating_sub (vr_timestamp new) VALIDATOR_REGISTRATION_UPDATE_INTERVAL \<or>
                         fee_recipient_changed \<or> gas_limit_changed \<or>
                         vp_api_key (ri_preferences (sre_registration_info existing_entry)) \<noteq> api_key)
              then Unchanged
              else if admit_registration (vr_timestamp new > vr_timestamp existing) existing_entry then Required
              else Rejected))"

definition SignedValidatorRegistrationEntry_new ::
  "u64 \<Rightarrow> ValidatorRegistrationInfo \<Rightarrow> string option \<Rightarrow> SignedValidatorRegistrationEntry" where
  "SignedValidatorRegistrationEntry_new now_ms info user_agent =
     \<lparr>sre_registration_info = info, sre_inserted_at = now_ms, sre_pool_name = None,
      sre_user_agent = user_agent\<rparr>"

definition save_validator_registration ::
  "u64 \<Rightarrow> string option \<Rightarrow> ValidatorRegistrationInfo \<Rightarrow> LocalCache \<Rightarrow> LocalCache" where
  "save_validator_registration now_ms user_agent entry c =
     (let k = vr_pubkey (svr_message (ri_registration entry)) in
      c\<lparr>lc_pending_validator_registrations := insert k (lc_pending_validator_registrations c),
        lc_validator_registration_cache := AList.update k
          (SignedValidatorRegistrationEntry_new now_ms entry user_agent) (lc_validator_registration_cache c)\<rparr>)"

definition save_validator_registrations ::
  "u64 \<Rightarrow> ValidatorRegistrationInfo list \<Rightarrow> string option \<Rightarrow> LocalCache \<Rightarrow> LocalCache" where
  "save_validator_registrations now_ms entries user_agent c =
     fold (save_validator_registration now_ms user_agent) entries c"

definition get_validator_registrations_for_pub_keys ::
  "LocalCache \<Rightarrow> BlsPublicKeyBytes list \<Rightarrow> SignedValidatorRegistrationEntry list" where
  "get_validator_registrations_for_pub_keys c ks =
     List.map_filter (map_of (lc_validator_registration_cache c)) ks"

end
