(* ===== verification/Api_Errors.thy ===== *)
theory Api_Errors
  imports Hydration Sim_Request Gloas_Encoding Auctioneer_Types Bls_Batch
begin

text \<open>
  What builders and proposers are answered: the errors of the two APIs with their HTTP status
  (\<open>api/builder/error.rs\<close>, \<open>api/proposer/error.rs\<close>, \<open>local_cache.rs\<close>) and the result of a
  submission as it is sent back over HTTP or TCP (\<open>spine/messages.rs\<close>).  Errors of libraries stand
  for their message.
\<close>

section \<open>Status codes\<close>

datatype StatusCode =
    OK | NO_CONTENT | BAD_REQUEST | UNAUTHORIZED | REQUEST_TIMEOUT | PAYLOAD_TOO_LARGE
  | INTERNAL_SERVER_ERROR | SERVICE_UNAVAILABLE

fun status_u16 :: "StatusCode \<Rightarrow> u16" where
  "status_u16 OK = 200"
| "status_u16 NO_CONTENT = 204"
| "status_u16 BAD_REQUEST = 400"
| "status_u16 UNAUTHORIZED = 401"
| "status_u16 REQUEST_TIMEOUT = 408"
| "status_u16 PAYLOAD_TOO_LARGE = 413"
| "status_u16 INTERNAL_SERVER_ERROR = 500"
| "status_u16 SERVICE_UNAVAILABLE = 503"

definition status_from_u16 :: "u16 \<Rightarrow> StatusCode option" where
  "status_from_u16 n = find (\<lambda>c. status_u16 c = n)
     [OK, NO_CONTENT, BAD_REQUEST, UNAUTHORIZED, REQUEST_TIMEOUT, PAYLOAD_TOO_LARGE,
      INTERNAL_SERVER_ERROR, SERVICE_UNAVAILABLE]"

section \<open>Errors of the local cache\<close>

datatype AuctioneerError =
    UnexpectedValueType | CryptoError string | FromUtf8Error string | ParseIntError string
  | FromHexError string | PastSlotAlreadyDelivered | AnotherPayloadAlreadyDeliveredForSlot
  | SszDeserializeError string | SliceConversionError string | ExecutionPayloadNotFound
  | BuilderNotFound BlsPublicKeyBytes

definition auctioneer_error_status :: "AuctioneerError \<Rightarrow> StatusCode" where
  "auctioneer_error_status e = BAD_REQUEST"

section \<open>Builder API\<close>

datatype BuilderApiError =
    BuilderJsonDecode string
  | BuilderSszDecode string
  | IOError string
  | PayloadDecode string
  | BidValidation BlockValidationError
  | BuilderSigError SigError
  | BlockSimulation BlockSimError
  | BuilderHydrationError HydrationError
  | UntrustedBuilderOnDehydratedPayload
  | ProposerDutyNotFound
  | SimOnNextSlot
  | BuilderDeliveringPayload u64 u64
  | BuilderInvalidApiKey
  | RequestTimeout
  | BuilderAuctioneerError AuctioneerError
  | BuilderDatabaseError string
  | BuilderInternalError
  | InvalidBuilderPubkey BlsPublicKeyBytes BlsPublicKeyBytes

fun http_status :: "BuilderApiError \<Rightarrow> StatusCode" where
  "http_status (BuilderJsonDecode _) = BAD_REQUEST"
| "http_status (IOError _) = BAD_REQUEST"
| "http_status (BuilderSszDecode _) = BAD_REQUEST"
| "http_status (PayloadDecode _) = BAD_REQUEST"
| "http_status (BidValidation _) = BAD_REQUEST"
| "http_status ProposerDutyNotFound = BAD_REQUEST"
| "http_status (BuilderHydrationError _) = BAD_REQUEST"
| "http_status (BuilderSigError _) = BAD_REQUEST"
| "http_status SimOnNextSlot = BAD_REQUEST"
| "http_status (InvalidBuilderPubkey _ _) = BAD_REQUEST"
| "http_status (BuilderDeliveringPayload _ _) = BAD_REQUEST"
| "http_status BuilderInvalidApiKey = UNAUTHORIZED"
| "http_status UntrustedBuilderOnDehydratedPayload = UNAUTHORIZED"
| "http_status BuilderInternalError = INTERNAL_SERVER_ERROR"
| "http_status (BuilderAuctioneerError _) = INTERNAL_SERVER_ERROR"
| "http_status (BuilderDatabaseError _) = INTERNAL_SERVER_ERROR"
| "http_status (BlockSimulation err) = (case err of
     Timeout \<Rightarrow> REQUEST_TIMEOUT
   | SimulationDropped \<Rightarrow> REQUEST_TIMEOUT
   | RelayHydrationFailed \<Rightarrow> INTERNAL_SERVER_ERROR
   | PayloadTooLarge \<Rightarrow> PAYLOAD_TOO_LARGE
   | _ \<Rightarrow> BAD_REQUEST)"
| "http_status RequestTimeout = REQUEST_TIMEOUT"

fun should_report :: "BuilderApiError \<Rightarrow> bool" where
  "should_report (BuilderDeliveringPayload _ _) = False"
| "should_report ProposerDutyNotFound = False"
| "should_report (BidValidation e) = (case e of
     OutOfSequence _ _ \<Rightarrow> False
   | AlreadyProcessingNewerPayload \<Rightarrow> False
   | SubmissionForWrongSlot _ _ \<Rightarrow> False
   | PrevRandaoMismatch _ _ \<Rightarrow> False
   | _ \<Rightarrow> True)"
| "should_report SimOnNextSlot = False"
| "should_report _ = True"

section \<open>Results of submissions\<close>

datatype TcpStatus = Okay | InvalidRequest | TcpInternalError | ConnectionError

definition MSG_LEN :: nat where "MSG_LEN = 256"

text \<open>\<open>display\<close> is the text of an error (\<open>Display\<close>); the message is cut to the length of its array.\<close>

record SubmissionResultWithRef =
  rr_sub_ref :: SubmissionRef
  rr_submission_id :: Uuid
  rr_tcp_status :: TcpStatus
  rr_http_status_code :: u16
  rr_error_msg :: string
  rr_should_report :: bool

definition SubmissionResultWithRef_new ::
  "(BuilderApiError \<Rightarrow> string) \<Rightarrow> Uuid \<Rightarrow> SubmissionRef \<Rightarrow> (BuilderApiError, unit) Result \<Rightarrow>
   SubmissionResultWithRef" where
  "SubmissionResultWithRef_new display submission_id sub_ref result =
     (case result of
        Inr _ \<Rightarrow>
          \<lparr>rr_sub_ref = sub_ref, rr_submission_id = submission_id, rr_tcp_status = Okay,
           rr_http_status_code = status_u16 OK, rr_error_msg = [], rr_should_report = False\<rparr>
      | Inl e \<Rightarrow>
          \<lparr>rr_sub_ref = sub_ref, rr_submission_id = submission_id,
           rr_tcp_status = (case e of
               BuilderDatabaseError _ \<Rightarrow> TcpInternalError
             | BuilderInternalError \<Rightarrow> TcpInternalError
             | _ \<Rightarrow> InvalidRequest),
           rr_http_status_code = status_u16 (http_status e),
           rr_error_msg = take MSG_LEN (display e), rr_should_report = should_report e\<rparr>)"

definition result_http_status :: "SubmissionResultWithRef \<Rightarrow> StatusCode" where
  "result_http_status r =
     (case status_from_u16 (rr_http_status_code r) of Some c \<Rightarrow> c | None \<Rightarrow> INTERNAL_SERVER_ERROR)"

section \<open>Proposer API\<close>

datatype ProposerApiError =
    HyperError string
  | AxumError string
  | ToStrError string
  | NoBidPrepared
  | UnexpectedProposerIndex u64 u64
  | BidRequestSlotMismatch u64 u64
  | UnexpectedProposerPubkey BlsPublicKeyBytes BlsPublicKeyBytes
  | NoValidatorsCouldBeRegistered
  | InvalidFork
  | SerdeDecodeError string
  | InvalidApiKey
  | StreamNotAdmitted
  | ProposerNotRegistered
  | TimestampTooEarly u64 u64
  | TimestampTooFarInTheFuture u64 u64
  | RequestWrongSlot u64 u64
  | SlotTooNew
  | GetHeaderRequestTooLate u64 u64
  | GetPayloadRequestTooLate u64 u64
  | NoExecutionPayloadFound
  | BlindedBlockAndPayloadHeaderMismatch
  | UnsupportedBeaconChainVersion
  | BeaconClientError string
  | DatabaseError string
  | ProposerAuctioneerError AuctioneerError
  | EmptyRequest
  | InternalServerError
  | PrimaryRequestFailed StatusCode string
  | ServiceUnavailableError
  | BlindedBlobsBundleLengthMismatch
  | InternalSlotMismatchesWithSlotDuty Slot Slot
  | InvalidBlindedBlockSlot Slot Slot
  | BlobKzgCommitmentsMismatch
  | ProposerSszError string
  | ProposerSigError SigError
  | DeliveringPayload
  | GetPayloadAlreadyReceived
  | RequestForPastSlot Slot Slot
  | InvalidGetHeader string
  | SszDecodeError string
  | InvalidRequestAuthSignature
  | RequestAuthSlotMismatch u64 u64
  | MissingTimingHeaders
  | InvalidProposerSignature

definition should_report_gossiped :: "ProposerApiError \<Rightarrow> bool" where
  "should_report_gossiped e = (case e of
     RequestForPastSlot _ _ \<Rightarrow> False
   | NoExecutionPayloadFound \<Rightarrow> False
   | ProposerNotRegistered \<Rightarrow> False
   | GetPayloadRequestTooLate _ _ \<Rightarrow> False
   | GetPayloadAlreadyReceived \<Rightarrow> False
   | DeliveringPayload \<Rightarrow> False
   | _ \<Rightarrow> True)"

definition status_code :: "ProposerApiError \<Rightarrow> StatusCode" where
  "status_code e = (case e of
     NoBidPrepared \<Rightarrow> NO_CONTENT
   | GetHeaderRequestTooLate _ _ \<Rightarrow> NO_CONTENT
   | InvalidApiKey \<Rightarrow> UNAUTHORIZED
   | StreamNotAdmitted \<Rightarrow> UNAUTHORIZED
   | InvalidRequestAuthSignature \<Rightarrow> UNAUTHORIZED
   | InternalServerError \<Rightarrow> INTERNAL_SERVER_ERROR
   | NoExecutionPayloadFound \<Rightarrow> INTERNAL_SERVER_ERROR
   | ServiceUnavailableError \<Rightarrow> SERVICE_UNAVAILABLE
   | PrimaryRequestFailed status _ \<Rightarrow> status
   | InvalidGetHeader _ \<Rightarrow> UNAUTHORIZED
   | _ \<Rightarrow> BAD_REQUEST)"

text \<open>A 204 has no body.\<close>

definition into_response :: "(ProposerApiError \<Rightarrow> string) \<Rightarrow> ProposerApiError \<Rightarrow> StatusCode \<times> string option" where
  "into_response display e =
     (let code = status_code e in
      if code = NO_CONTENT then (code, None) else (code, Some (display e)))"

section \<open>Lemmas\<close>

lemma status_from_u16_inverse [simp]: "status_from_u16 (status_u16 c) = Some c"
  by (cases c) (simp_all add: status_from_u16_def)

lemma http_status_error: "http_status e \<noteq> OK"
  by (cases e) (auto split: BlockSimError.splits)

end
