(* ===== verification/Registration.thy ===== *)
theory Registration
  imports Local_Cache Api_Errors
begin

text \<open>
  Validator registrations: the workers that check timestamps and signatures
  (\<open>crates/relay/src/registration/tile.rs\<close>) and the proposer API's handler that filters a posted
  batch against the cache, has it checked, and saves what passed
  (\<open>crates/relay/src/api/proposer/register.rs\<close>).

  \<open>now\<close> stands for \<open>utcnow_sec()\<close>.  The signing root of a message and the curve are external: the
  record \<open>reg_env\<close>.  A worker's answer to a job is a parameter of the handler, instantiated by the
  worker in the properties.
\<close>

section \<open>The workers\<close>

record ('g1, 'g2) reg_env =
  re_bls :: "('g1, 'g2) bls_env"
  re_signing_root :: "ValidatorRegistrationData \<Rightarrow> B256"
  re_genesis_time :: u64

record RegStats =
  rs_valid :: u32
  rs_invalid :: u32
  rs_completed :: u32
  rs_aborted :: u32

definition default_reg_stats :: RegStats where
  "default_reg_stats = \<lparr>rs_valid = 0, rs_invalid = 0, rs_completed = 0, rs_aborted = 0\<rparr>"

record RegistrationTile =
  rt_bid_slot :: u64
  rt_stats :: RegStats
  rt_batch :: BlsBatch

definition RegistrationTile_new :: RegistrationTile where
  "RegistrationTile_new = \<lparr>rt_bid_slot = 0, rt_stats = default_reg_stats, rt_batch = default_batch\<rparr>"

definition report_slot_stats :: "RegistrationTile \<Rightarrow> RegistrationTile" where
  "report_slot_stats t = (if rt_bid_slot t = 0 then t else t\<lparr>rt_stats := default_reg_stats\<rparr>)"

definition on_slot_msg :: "u64 \<Rightarrow> RegistrationTile \<Rightarrow> RegistrationTile" where
  "on_slot_msg bid_slot t =
     (if bid_slot \<le> rt_bid_slot t then t else (report_slot_stats t)\<lparr>rt_bid_slot := bid_slot\<rparr>)"

definition validate_timestamp ::
  "u64 \<Rightarrow> u64 \<Rightarrow> SignedValidatorRegistration \<Rightarrow> (ProposerApiError, unit) Result" where
  "validate_timestamp genesis_time now registration =
     (let ts = vr_timestamp (svr_message registration) in
      and_then (ensure (\<not> ts < genesis_time) (TimestampTooEarly ts genesis_time)) (\<lambda>_.
      ensure (\<not> ts > now + 10) (TimestampTooFarInTheFuture ts (now + 10))))"

text \<open>The loop of \<open>process_reg_task\<close>: candidates are pushed to the batch.\<close>

definition check_candidate ::
  "('g1, 'g2) reg_env \<Rightarrow> u64 \<Rightarrow> SignedValidatorRegistration list \<Rightarrow> nat \<Rightarrow>
   (nat \<times> bool) list \<times> BlsBatch \<Rightarrow> (nat \<times> bool) list \<times> BlsBatch" where
  "check_candidate env now regs i acc =
     (let (res, batch) = acc;
          reg = regs ! i;
          candidate = is_ok (validate_timestamp (re_genesis_time env) now reg)
      in (res @ [(i, candidate)],
          if candidate
          then batch_push (vr_pubkey (svr_message reg)) (svr_signature reg)
                 (re_signing_root env (svr_message reg)) batch
          else batch))"

definition process_reg_task ::
  "('g1, 'g2) reg_env \<Rightarrow> u64 \<Rightarrow> (nat \<Rightarrow> u64) \<Rightarrow> bool \<times> bool \<Rightarrow> SignedValidatorRegistration list \<Rightarrow> nat list \<Rightarrow>
   RegistrationTile \<Rightarrow> (bool option \<times> (nat \<times> bool) list option \<times> RegistrationTile) option" where
  "process_reg_task env now rng closed regs idxs t =
     (if fst closed then Some (None, None, t)
      else if \<not> list_all (\<lambda>i. i < length regs) idxs then None
      else
        (let (res, batch) = fold (check_candidate env now regs) idxs ([], batch_clear (rt_batch t))
         in if snd closed then Some (None, None, t\<lparr>rt_batch := batch\<rparr>)
            else
              (let (fell_back, batch1) = batch_verify (re_bls env) rng batch;
                   checked = replace_set (map snd res) (bat_verdicts batch1);
                   res1 = zip (map fst res) checked;
                   n_valid = word_of_nat (length (filter snd res1));
                   stats = rt_stats t
               in Some (Some fell_back, Some res1,
                    t\<lparr>rt_batch := batch1,
                      rt_stats := stats\<lparr>rs_valid := rs_valid stats + n_valid,
                        rs_invalid := rs_invalid stats + (word_of_nat (length res1) - n_valid)\<rparr>\<rparr>))))"

definition handle_reg_task ::
  "('g1, 'g2) reg_env \<Rightarrow> u64 \<Rightarrow> (nat \<Rightarrow> u64) \<Rightarrow> bool \<times> bool \<Rightarrow> SignedValidatorRegistration list \<Rightarrow> nat list \<Rightarrow>
   RegistrationTile \<Rightarrow> ((nat \<times> bool) list option \<times> RegistrationTile) option" where
  "handle_reg_task env now rng closed regs idxs t =
     map_option (\<lambda>(outcome, sent, t1).
       (sent, t1\<lparr>rt_stats := (case outcome of
          Some _ \<Rightarrow> (rt_stats t1)\<lparr>rs_completed := rs_completed (rt_stats t1) + 1\<rparr>
        | None \<Rightarrow> (rt_stats t1)\<lparr>rs_aborted := rs_aborted (rt_stats t1) + 1\<rparr>)\<rparr>))
       (process_reg_task env now rng closed regs idxs t)"

section \<open>The handler\<close>

text \<open>A job is a range of the registrations to check; its answer is lost when the worker's channel is
  full or closed.\<close>

type_synonym reg_job = "SignedValidatorRegistration list \<Rightarrow> nat list \<Rightarrow> (nat \<times> bool) list option"

definition registrations_to_check ::
  "(bool \<Rightarrow> SignedValidatorRegistrationEntry \<Rightarrow> bool) \<Rightarrow> LocalCache \<Rightarrow> Uuid option \<Rightarrow>
   SignedValidatorRegistration list \<Rightarrow> SignedValidatorRegistration list" where
  "registrations_to_check admit_registration c api_key registrations =
     filter (\<lambda>reg. registration_update admit_registration c reg api_key = Required)
       (filter (\<lambda>reg. vr_pubkey (svr_message reg) \<in> lc_known_validators_cache c) registrations)"

definition batch_ranges :: "nat \<Rightarrow> nat \<Rightarrow> nat list list" where
  "batch_ranges batch_size n =
     map (\<lambda>i. [i * batch_size ..< min n (i * batch_size + batch_size)])
       [0..<(n + batch_size - 1) div batch_size]"

definition set_verdicts :: "(nat \<times> bool) list \<Rightarrow> bool list \<Rightarrow> bool list" where
  "set_verdicts res to_process = fold (\<lambda>(i, is_valid) bs. bs[i := is_valid]) res to_process"

definition register_validators ::
  "(bool \<Rightarrow> SignedValidatorRegistrationEntry \<Rightarrow> bool) \<Rightarrow> reg_job \<Rightarrow> nat \<Rightarrow> bool \<Rightarrow> u64 \<Rightarrow> ValidatorPreferences \<Rightarrow>
   string option \<Rightarrow> SignedValidatorRegistration list \<Rightarrow> LocalCache \<Rightarrow>
   ((ProposerApiError, StatusCode) Result \<times> LocalCache) option" where
  "register_validators admit_registration job n_workers known_validators_loaded now_ms preferences user_agent
     registrations c =
     (if registrations = [] then Some (Inl EmptyRequest, c)
      else if \<not> known_validators_loaded then Some (Inl ServiceUnavailableError, c)
      else
        (let to_check = registrations_to_check admit_registration c (vp_api_key preferences) registrations in
         if to_check = [] then Some (Inr OK, c)
         else if n_workers = 0 then None
         else
           (let batch_size = max 1 (length to_check div n_workers div 8);
                answers = map (job to_check) (batch_ranges batch_size (length to_check))
            in if None \<in> set answers then Some (Inl InternalServerError, c)
               else
                 (let to_process = fold (\<lambda>a. set_verdicts (the a)) answers (replicate (length to_check) False);
                      successful = length (filter (\<lambda>(_, is_valid). is_valid) (concat (map the answers)))
                  in if successful = 0 then Some (Inl NoValidatorsCouldBeRegistered, c)
                     else Some (Inr OK, save_validator_registrations now_ms
                            (map (\<lambda>(reg, _). \<lparr>ri_registration = reg, ri_preferences = preferences\<rparr>)
                              (filter snd (zip to_check to_process))) user_agent c)))))"

section \<open>Requests\<close>

text \<open>A worker's answer, and the requests the handler serves one after the other.\<close>

definition worker_job ::
  "('g1, 'g2) reg_env \<Rightarrow> u64 \<Rightarrow> (nat list \<Rightarrow> nat \<Rightarrow> u64) \<Rightarrow> (nat list \<Rightarrow> RegistrationTile) \<Rightarrow> reg_job" where
  "worker_job env now rng tile regs idxs =
     Option.bind (handle_reg_task env now (rng idxs) (False, False) regs idxs (tile idxs)) fst"

record reg_request =
  rq_now :: u64
  rq_rng :: "nat list \<Rightarrow> nat \<Rightarrow> u64"
  rq_tile :: "nat list \<Rightarrow> RegistrationTile"
  rq_workers :: nat
  rq_loaded :: bool
  rq_now_ms :: u64
  rq_preferences :: ValidatorPreferences
  rq_user_agent :: "string option"
  rq_registrations :: "SignedValidatorRegistration list"

definition reg_step ::
  "('g1, 'g2) reg_env \<Rightarrow> (bool \<Rightarrow> SignedValidatorRegistrationEntry \<Rightarrow> bool) \<Rightarrow> reg_request \<Rightarrow> LocalCache \<Rightarrow> LocalCache option" where
  "reg_step env admit_registration q c =
     map_option snd (register_validators admit_registration
       (worker_job env (rq_now q) (rq_rng q) (rq_tile q)) (rq_workers q) (rq_loaded q) (rq_now_ms q)
       (rq_preferences q) (rq_user_agent q) (rq_registrations q) c)"

text \<open>An entry that may replace another: signed later, or the same message.\<close>

definition supersedes :: "SignedValidatorRegistrationEntry \<Rightarrow> SignedValidatorRegistrationEntry \<Rightarrow> bool" where
  "supersedes e' e \<longleftrightarrow>
     vr_timestamp (entry_message e) < vr_timestamp (entry_message e') \<or>
     vr_timestamp (entry_message e) = vr_timestamp (entry_message e') \<and>
     vr_fee_recipient (entry_message e) = vr_fee_recipient (entry_message e') \<and>
     vr_gas_limit (entry_message e) = vr_gas_limit (entry_message e')"

definition reg_item ::
  "('g1, 'g2) reg_env \<Rightarrow> SignedValidatorRegistration \<Rightarrow> BlsPublicKeyBytes \<times> BlsSignatureBytes \<times> B256" where
  "reg_item env reg = (vr_pubkey (svr_message reg), svr_signature reg, re_signing_root env (svr_message reg))"

definition timely :: "('g1, 'g2) reg_env \<Rightarrow> u64 \<Rightarrow> SignedValidatorRegistration \<Rightarrow> bool" where
  "timely env now reg = is_ok (validate_timestamp (re_genesis_time env) now reg)"

definition sample_registration :: "u64 \<Rightarrow> Address \<Rightarrow> SignedValidatorRegistration" where
  "sample_registration ts fee =
     \<lparr>svr_message = \<lparr>vr_fee_recipient = fee, vr_gas_limit = 30, vr_timestamp = ts, vr_pubkey = 2\<rparr>,
      svr_signature = 6\<rparr>"

definition cache_with :: "SignedValidatorRegistration \<Rightarrow> LocalCache" where
  "cache_with reg = save_validator_registrations 0
     [\<lparr>ri_registration = reg, ri_preferences = default_preferences\<rparr>] None
     (LocalCache_new\<lparr>lc_known_validators_cache := {2}\<rparr>)"

definition sample_entry :: "SignedValidatorRegistration \<Rightarrow> SignedValidatorRegistrationEntry" where
  "sample_entry reg = SignedValidatorRegistrationEntry_new 0
     \<lparr>ri_registration = reg, ri_preferences = default_preferences\<rparr> None"

definition sample_reg_env :: "(int, int) reg_env" where
  "sample_reg_env = \<lparr>re_bls = log_env, re_signing_root = (\<lambda>_. 3), re_genesis_time = 5\<rparr>"

definition sample_reg_request :: "SignedValidatorRegistration \<Rightarrow> reg_request" where
  "sample_reg_request reg = \<lparr>rq_now = 40, rq_rng = (\<lambda>_ _. 0), rq_tile = (\<lambda>_. RegistrationTile_new),
     rq_workers = 1, rq_loaded = True, rq_now_ms = 0, rq_preferences = default_preferences,
     rq_user_agent = None, rq_registrations = [reg]\<rparr>"

definition stored_timestamp :: "LocalCache \<Rightarrow> BlsPublicKeyBytes \<Rightarrow> u64 option" where
  "stored_timestamp c k = map_option (\<lambda>e. vr_timestamp (entry_message e)) (map_of (lc_validator_registration_cache c) k)"

section \<open>Lemmas\<close>

lemma replace_set_map:
  "replace_set (map P xs) (map V (filter P xs)) = map (\<lambda>x. P x \<and> V x) xs"
proof (induction xs)
  case (Cons a xs)
  then show ?case by (cases "P a") simp_all
qed simp

lemma fold_check_candidate:
  assumes "length (bat_signatures b) = length (bat_pubkeys b)" "length (bat_roots b) = length (bat_pubkeys b)"
  shows "\<exists>b'. fold (check_candidate env now regs) idxs (res, b) =
      (res @ map (\<lambda>i. (i, timely env now (regs ! i))) idxs, b') \<and>
    batch_items b' = batch_items b @ map (\<lambda>i. reg_item env (regs ! i)) (filter (\<lambda>i. timely env now (regs ! i)) idxs)"
  using assms
proof (induction idxs arbitrary: res b)
  case (Cons i idxs)
  let ?b = "if timely env now (regs ! i) then batch_push (vr_pubkey (svr_message (regs ! i)))
      (svr_signature (regs ! i)) (re_signing_root env (svr_message (regs ! i))) b else b"
  have len: "length (bat_signatures ?b) = length (bat_pubkeys ?b)" "length (bat_roots ?b) = length (bat_pubkeys ?b)"
    using Cons.prems by (auto simp: batch_push_def)
  have st: "check_candidate env now regs i (res, b) = (res @ [(i, timely env now (regs ! i))], ?b)"
    by (simp add: check_candidate_def timely_def Let_def)
  have items: "batch_items ?b = batch_items b @
      (if timely env now (regs ! i) then [reg_item env (regs ! i)] else [])"
    using Cons.prems by (simp add: batch_items_def batch_push_def reg_item_def)
  show ?case using Cons.IH [OF len, of "res @ [(i, timely env now (regs ! i))]"] items
    by (auto simp: st)
qed simp

lemma worker_answer:
  assumes "worker_job env now rng tile regs idxs = Some res"
  shows "\<exists>V. res = map (\<lambda>i. (i, timely env now (regs ! i) \<and> V (reg_item env (regs ! i)))) idxs \<and>
    (\<forall>it. valid_item (re_bls env) it \<longrightarrow> V it) \<and> (\<forall>it. V it \<longrightarrow> admitted_item (re_bls env) it)"
proof -
  let ?t = "tile idxs" and ?timely = "\<lambda>i. timely env now (regs ! i)" and ?item = "\<lambda>i. reg_item env (regs ! i)"
  obtain b' where b': "fold (check_candidate env now regs) idxs ([], batch_clear (rt_batch ?t)) =
      (map (\<lambda>i. (i, ?timely i)) idxs, b')" "batch_items b' = map ?item (filter ?timely idxs)"
    using fold_check_candidate [of "batch_clear (rt_batch ?t)" env now regs idxs "[]"]
    by (auto simp: batch_clear_def batch_items_def)
  obtain fb b1 where v: "batch_verify (re_bls env) (rng idxs) b' = (fb, b1)" by force
  have "\<exists>V. bat_verdicts b1 = map V (batch_items b') \<and> (\<forall>it. valid_item (re_bls env) it \<longrightarrow> V it) \<and>
      (\<forall>it. V it \<longrightarrow> admitted_item (re_bls env) it)"
    using v valid_admitted [of "re_bls env"] unfolding batch_verify_cases Let_def
    by (auto split: if_splits)
  then obtain V where V: "bat_verdicts b1 = map (\<lambda>i. V (?item i)) (filter ?timely idxs)"
      "\<forall>it. valid_item (re_bls env) it \<longrightarrow> V it" "\<forall>it. V it \<longrightarrow> admitted_item (re_bls env) it"
    using b'(2) by (auto simp: comp_def)
  have "res = zip idxs (replace_set (map ?timely idxs) (bat_verdicts b1))"
    using assms b'(1) v by (auto simp: worker_job_def handle_reg_task_def process_reg_task_def Let_def
        comp_def bind_eq_Some_conv split: if_splits)
  then have "res = map (\<lambda>i. (i, ?timely i \<and> V (?item i))) idxs"
    by (simp add: V(1) replace_set_map zip_map2 zip_same_conv_map)
  then show ?thesis using V by blast
qed

lemma concat_ranges:
  "0 < bs \<Longrightarrow> concat (map (\<lambda>i. [i * bs ..< min n (i * bs + bs)]) [0..<k]) = [0 ..< min n (k * bs)]"
proof (induction k)
  case (Suc k)
  show ?case
  proof (cases "k * bs \<le> n")
    case True
    then have "[0 ..< min n (k * bs)] @ [k * bs ..< min n (k * bs + bs)] = [0 ..< min n (k * bs + bs)]"
      using upt_add_eq_append [of 0 "k * bs" "min n (k * bs + bs) - k * bs"] Suc.prems
      by (simp add: min_absorb2 min_def)
    then show ?thesis using Suc by (simp add: add.commute)
  next
    case False
    then show ?thesis using Suc by (simp add: min_def)
  qed
qed simp

lemma batch_ranges_cover: "0 < bs \<Longrightarrow> concat (batch_ranges bs n) = [0..<n]"
proof -
  assume bs: "0 < bs"
  have "n \<le> (n + bs - 1) div bs * bs"
    using bs div_mult_mod_eq [of "n + bs - 1" bs] mod_less_divisor [OF bs, of "n + bs - 1"] by linarith
  then show ?thesis unfolding batch_ranges_def concat_ranges [OF bs] by (simp add: min_absorb1)
qed

lemma set_verdicts_block:
  "map fst res = [m ..< m + length res] \<Longrightarrow> m + length res \<le> length xs \<Longrightarrow>
   set_verdicts res xs = take m xs @ map snd res @ drop (m + length res) xs"
proof (induction res arbitrary: m xs)
  case (Cons r res)
  have r: "r = (m, snd r)" using Cons.prems(1) by (cases r) (simp add: upt_rec)
  have "map fst res = [Suc m ..< Suc m + length res]" using Cons.prems(1) by (simp add: upt_rec)
  from Cons.IH [OF this, of "xs[m := snd r]"] have
    "set_verdicts res (xs[m := snd r]) = take (Suc m) (xs[m := snd r]) @ map snd res @ drop (Suc m + length res) (xs[m := snd r])"
    using Cons.prems(2) by simp
  moreover have "set_verdicts (r # res) xs = set_verdicts res (xs[m := snd r])"
    by (subst r) (simp add: set_verdicts_def)
  moreover have "take (Suc m) (xs[m := snd r]) = take m xs @ [snd r]"
    using Cons.prems(2) by (simp add: take_Suc_conv_app_nth)
  ultimately show ?case using Cons.prems(2) by simp
qed (simp add: set_verdicts_def)

lemma fold_set_verdicts: "fold (\<lambda>a. set_verdicts (the a)) as xs = set_verdicts (concat (map the as)) xs"
  by (induction as arbitrary: xs) (simp_all add: set_verdicts_def)

text \<open>The verdicts the handler collects from the workers.\<close>

lemma job_verdicts:
  assumes "None \<notin> set (map (worker_job env now rng tile regs) rngs)" "concat rngs = [0..<length regs]"
  shows "\<exists>vs. fold (\<lambda>a. set_verdicts (the a)) (map (worker_job env now rng tile regs) rngs)
      (replicate (length regs) False) = vs \<and> length vs = length regs \<and>
    map snd (concat (map the (map (worker_job env now rng tile regs) rngs))) = vs \<and>
    (\<forall>i < length regs. timely env now (regs ! i) \<and> valid_item (re_bls env) (reg_item env (regs ! i)) \<longrightarrow> vs ! i) \<and>
    (\<forall>i < length regs. vs ! i \<longrightarrow> timely env now (regs ! i) \<and> admitted_item (re_bls env) (reg_item env (regs ! i)))"
proof -
  let ?res = "concat (map the (map (worker_job env now rng tile regs) rngs))"
  let ?ok = "\<lambda>p. (timely env now (regs ! fst p) \<and> valid_item (re_bls env) (reg_item env (regs ! fst p)) \<longrightarrow> snd p) \<and>
    (snd p \<longrightarrow> timely env now (regs ! fst p) \<and> admitted_item (re_bls env) (reg_item env (regs ! fst p)))"
  have job: "map fst (the (worker_job env now rng tile regs r)) = r \<and> list_all ?ok (the (worker_job env now rng tile regs r))"
    if "r \<in> set rngs" for r
  proof -
    have "worker_job env now rng tile regs r \<noteq> None" using assms(1) that by (metis image_eqI set_map)
    then obtain res where "worker_job env now rng tile regs r = Some res" by auto
    from worker_answer [OF this] obtain V where
      V: "res = map (\<lambda>i. (i, timely env now (regs ! i) \<and> V (reg_item env (regs ! i)))) r"
        "\<And>it. valid_item (re_bls env) it \<Longrightarrow> V it" "\<And>it. V it \<Longrightarrow> admitted_item (re_bls env) it" by blast
    show ?thesis using V(2,3) \<open>worker_job env now rng tile regs r = Some res\<close>
      by (simp add: V(1) list_all_iff comp_def)
  qed
  have fst: "map fst ?res = concat rngs"
    using job by (induction rngs) (auto simp: comp_def)
  have len: "length ?res = length regs" using fst assms(2) by (metis length_map length_upt diff_zero)
  have ok: "list_all ?ok ?res" using job by (auto simp: list_all_iff)
  have nth: "fst (?res ! i) = i" if "i < length regs" for i
    using fst assms(2) len that by (metis nth_map nth_upt add_0)
  have "set_verdicts ?res (replicate (length regs) False) = map snd ?res"
    using set_verdicts_block [of ?res 0 "replicate (length regs) False"] fst assms(2) len by simp
  moreover have "?ok (?res ! i)" if "i < length regs" for i using ok len that by (simp add: list_all_length)
  ultimately show ?thesis using len nth by (simp add: fold_set_verdicts)
qed

lemma save_no_registrations [simp]: "save_validator_registrations now_ms [] ua c = c"
  by (simp add: save_validator_registrations_def)

lemma save_registrations_frame [simp]:
  "lc_known_validators_cache (save_validator_registrations now_ms es ua c) = lc_known_validators_cache c"
  by (induction es arbitrary: c) (simp_all add: save_validator_registrations_def save_validator_registration_def Let_def)

lemma save_registrations_cache:
  "map_of (lc_validator_registration_cache (save_validator_registrations now_ms es ua c)) k =
     (if k \<in> (\<lambda>e. vr_pubkey (svr_message (ri_registration e))) ` set es
      then Some (SignedValidatorRegistrationEntry_new now_ms
             (last (filter (\<lambda>e. vr_pubkey (svr_message (ri_registration e)) = k) es)) ua)
      else map_of (lc_validator_registration_cache c) k)"
  unfolding save_validator_registrations_def
proof (induction es rule: rev_induct)
  case (snoc e es)
  then show ?case by (simp add: save_validator_registration_def Let_def map_of_update_other)
qed simp

lemma mem_chosen:
  "length vs = length xs \<Longrightarrow> x \<in> set (map fst (filter snd (zip xs vs))) \<longleftrightarrow> (\<exists>i < length xs. x = xs ! i \<and> vs ! i)"
  by (auto simp: set_zip image_iff Bex_def)

text \<open>What a served request does to the cache.\<close>

lemma register_validators_saves:
  assumes "register_validators ar (worker_job env now rng tile) n loaded now_ms prefs ua regs c = Some (r, c')"
  shows "\<exists>saved. c' = save_validator_registrations now_ms
      (map (\<lambda>reg. \<lparr>ri_registration = reg, ri_preferences = prefs\<rparr>) saved) ua c \<and>
    set saved \<subseteq> {reg \<in> set (registrations_to_check ar c (vp_api_key prefs) regs).
      timely env now reg \<and> admitted_item (re_bls env) (reg_item env reg)} \<and>
    (r = Inr OK \<longrightarrow> {reg \<in> set (registrations_to_check ar c (vp_api_key prefs) regs).
      timely env now reg \<and> valid_item (re_bls env) (reg_item env reg)} \<subseteq> set saved)"
proof -
  let ?chk = "registrations_to_check ar c (vp_api_key prefs) regs"
  let ?rs = "batch_ranges (max 1 (length ?chk div n div 8)) (length ?chk)"
  let ?ans = "map (worker_job env now rng tile ?chk) ?rs"
  show ?thesis
  proof (cases "regs = [] \<or> \<not> loaded \<or> ?chk = [] \<or> n = 0 \<or> None \<in> set ?ans")
    case True
    then consider "regs = []" | "regs \<noteq> []" "\<not> loaded" | "regs \<noteq> []" "loaded" "?chk = []"
      | "regs \<noteq> []" "loaded" "?chk \<noteq> []" "n = 0" | "regs \<noteq> []" "loaded" "?chk \<noteq> []" "n \<noteq> 0" "None \<in> set ?ans"
      by blast
    then have "c' = c \<and> (r = Inr OK \<longrightarrow> ?chk = [])"
      using assms unfolding register_validators_def Let_def by cases (simp_all, (elim conjE; hypsubst; simp)+)
    then show ?thesis by (intro exI [of _ "[]"]) auto
  next
    case False
    then have ans: "None \<notin> set ?ans" by blast
    have cover: "concat ?rs = [0..<length ?chk]" by (rule batch_ranges_cover) simp
    from job_verdicts [OF ans cover] obtain vs where
      vs: "fold (\<lambda>a. set_verdicts (the a)) ?ans (replicate (length ?chk) False) = vs"
        "length vs = length ?chk" "map snd (concat (map the ?ans)) = vs"
        "\<forall>i < length ?chk. timely env now (?chk ! i) \<and> valid_item (re_bls env) (reg_item env (?chk ! i)) \<longrightarrow> vs ! i"
        "\<forall>i < length ?chk. vs ! i \<longrightarrow> timely env now (?chk ! i) \<and> admitted_item (re_bls env) (reg_item env (?chk ! i))"
      by blast
    let ?saved = "map fst (filter snd (zip ?chk vs))"
    note mem = mem_chosen [OF vs(2)]
    have sub: "set ?saved \<subseteq> {reg \<in> set ?chk. timely env now reg \<and> admitted_item (re_bls env) (reg_item env reg)}"
    proof (rule subsetI)
      fix reg assume "reg \<in> set ?saved"
      then obtain i where "i < length ?chk" "reg = ?chk ! i" "vs ! i" using mem by blast
      then show "reg \<in> {reg \<in> set ?chk. timely env now reg \<and> admitted_item (re_bls env) (reg_item env reg)}"
        using vs(5) by simp
    qed
    have sup: "{reg \<in> set ?chk. timely env now reg \<and> valid_item (re_bls env) (reg_item env reg)} \<subseteq> set ?saved"
    proof (rule subsetI)
      fix reg assume "reg \<in> {reg \<in> set ?chk. timely env now reg \<and> valid_item (re_bls env) (reg_item env reg)}"
      then obtain i where "i < length ?chk" "reg = ?chk ! i" "vs ! i" using vs(4) by (auto simp: in_set_conv_nth)
      then show "reg \<in> set ?saved" using mem by blast
    qed
    have f: "(regs = []) = False" "(\<not> loaded) = False" "(?chk = []) = False" "(n = 0) = False"
        "(None \<in> set ?ans) = False" using False by blast+
    have eq: "Some (r, c') = (if length (filter (\<lambda>(_, is_valid). is_valid) (concat (map the ?ans))) = 0
        then Some (Inl NoValidatorsCouldBeRegistered, c)
        else Some (Inr OK, save_validator_registrations now_ms
          (map (\<lambda>(reg, _). \<lparr>ri_registration = reg, ri_preferences = prefs\<rparr>) (filter snd (zip ?chk vs))) ua c))"
      using assms unfolding register_validators_def Let_def f if_False vs(1) by (rule sym)
    show ?thesis
    proof (cases "length (filter (\<lambda>(_, is_valid). is_valid) (concat (map the ?ans))) = 0")
      case True
      then show ?thesis using eq by (intro exI [of _ "[]"]) auto
    next
      case ne: False
      have map_eq: "map (\<lambda>(reg, _). \<lparr>ri_registration = reg, ri_preferences = prefs\<rparr>) (filter snd (zip ?chk vs)) =
          map (\<lambda>reg. \<lparr>ri_registration = reg, ri_preferences = prefs\<rparr>) ?saved"
        by (simp add: comp_def case_prod_beta)
      have "Some (r, c') = Some (Inr OK, save_validator_registrations now_ms
          (map (\<lambda>reg. \<lparr>ri_registration = reg, ri_preferences = prefs\<rparr>) ?saved) ua c)"
        using eq unfolding if_not_P [OF ne] map_eq .
      then have "c' = save_validator_registrations now_ms
          (map (\<lambda>reg. \<lparr>ri_registration = reg, ri_preferences = prefs\<rparr>) ?saved) ua c"
        unfolding option.inject prod.inject by (rule conjunct2)
      with sub sup show ?thesis by (intro exI [of _ ?saved] conjI impI)
    qed
  qed
qed

lemma required_supersedes:
  assumes "registration_update ar c reg api_key = Required"
    "map_of (lc_validator_registration_cache c) (vr_pubkey (svr_message reg)) = Some e"
    "ri_registration (sre_registration_info e') = reg"
  shows "supersedes e' e"
  using assms by (auto simp: registration_update_def supersedes_def Let_def split: if_splits)

lemma supersedes_refl [simp]: "supersedes e e"
  by (simp add: supersedes_def)

lemma supersedes_trans: "supersedes e3 e2 \<Longrightarrow> supersedes e2 e1 \<Longrightarrow> supersedes e3 e1"
  by (auto simp: supersedes_def)

lemma reg_step_supersedes:
  assumes "reg_step env ar q c = Some c'" "map_of (lc_validator_registration_cache c) k = Some e"
  shows "\<exists>e'. map_of (lc_validator_registration_cache c') k = Some e' \<and> supersedes e' e"
proof -
  obtain r where r: "register_validators ar (worker_job env (rq_now q) (rq_rng q) (rq_tile q)) (rq_workers q)
      (rq_loaded q) (rq_now_ms q) (rq_preferences q) (rq_user_agent q) (rq_registrations q) c = Some (r, c')"
    using assms(1) by (auto simp: reg_step_def)
  from register_validators_saves [OF this] obtain saved where
    c': "c' = save_validator_registrations (rq_now_ms q)
      (map (\<lambda>reg. \<lparr>ri_registration = reg, ri_preferences = rq_preferences q\<rparr>) saved) (rq_user_agent q) c" and
    sub: "set saved \<subseteq> set (registrations_to_check ar c (vp_api_key (rq_preferences q)) (rq_registrations q))"
    by blast
  show ?thesis
  proof (cases "k \<in> (\<lambda>reg. vr_pubkey (svr_message reg)) ` set saved")
    case False
    then show ?thesis using assms(2) by (auto simp: c' save_registrations_cache image_image)
  next
    case True
    let ?mk = "\<lambda>reg. \<lparr>ri_registration = reg, ri_preferences = rq_preferences q\<rparr>"
    let ?es = "filter (\<lambda>e. vr_pubkey (svr_message (ri_registration e)) = k) (map ?mk saved)"
    have "?es \<noteq> []" using True by (auto simp: filter_empty_conv)
    then have "last ?es \<in> set ?es" by (rule last_in_set)
    then obtain reg where reg: "last ?es = ?mk reg" "reg \<in> set saved" "vr_pubkey (svr_message reg) = k" by auto
    let ?e' = "SignedValidatorRegistrationEntry_new (rq_now_ms q) (?mk reg) (rq_user_agent q)"
    have "map_of (lc_validator_registration_cache c') k = Some ?e'"
      using True reg(1) by (simp add: c' save_registrations_cache image_image)
    moreover have "registration_update ar c reg (vp_api_key (rq_preferences q)) = Required"
      using reg(2) sub by (auto simp: registrations_to_check_def)
    then have "supersedes ?e' e"
      using assms(2) reg(3) by (intro required_supersedes) (auto simp: SignedValidatorRegistrationEntry_new_def)
    ultimately show ?thesis by blast
  qed
qed

lemma register_validators_total:
  "n \<noteq> 0 \<Longrightarrow> register_validators ar job n loaded now_ms prefs ua regs c \<noteq> None"
  by (simp add: register_validators_def Let_def)

section \<open>Properties\<close>

text \<open>C34. Signed registrations are public, so anyone can replay one.  Through any sequence of requests, each
  served to its end before the next, no cached registration is rolled back: what is stored for a
  validator at the end was signed later than what was stored before, or is the same fee recipient
  and gas limit at the same timestamp.\<close>

theorem registrations_never_roll_back:
  assumes "run (reg_step env ar) qs c = Some c'"
    and "map_of (lc_validator_registration_cache c) k = Some e"
  shows "\<exists>e'. map_of (lc_validator_registration_cache c') k = Some e' \<and> supersedes e' e"
  using assms
proof (induction qs arbitrary: c e)
  case (Cons q qs)
  obtain c1 where c1: "reg_step env ar q c = Some c1" "run (reg_step env ar) qs c1 = Some c'"
    using Cons.prems(1) by (auto split: option.splits)
  from reg_step_supersedes [OF c1(1) Cons.prems(2)] obtain e1 where
    "map_of (lc_validator_registration_cache c1) k = Some e1" "supersedes e1 e" by blast
  with Cons.IH [OF c1(2)] show ?case using supersedes_trans by blast
qed simp

theorem registrations_never_roll_back_witness:
  "\<exists>c' e'. run (reg_step sample_reg_env (\<lambda>resigned _. resigned)) [sample_reg_request (sample_registration 30 9)]
      (cache_with (sample_registration 10 7)) = Some c' \<and>
    map_of (lc_validator_registration_cache c') 2 = Some e' \<and>
    supersedes e' (sample_entry (sample_registration 10 7))"
proof -
  let ?c = "cache_with (sample_registration 10 7)"
  have "reg_step sample_reg_env (\<lambda>resigned _. resigned) (sample_reg_request (sample_registration 30 9)) ?c \<noteq> None"
    unfolding reg_step_def option.map_disc_iff by (rule register_validators_total) (simp add: sample_reg_request_def)
  then obtain c' where c': "run (reg_step sample_reg_env (\<lambda>resigned _. resigned))
      [sample_reg_request (sample_registration 30 9)] ?c = Some c'" by auto
  have "map_of (lc_validator_registration_cache ?c) 2 = Some (sample_entry (sample_registration 10 7))"
    by (simp add: cache_with_def save_registrations_cache sample_registration_def sample_entry_def)
  from registrations_never_roll_back [OF c' this] show ?thesis using c' by blast
qed



text \<open>The race behind the handler: the batch is filtered against the cache before its signatures are
  checked and saved after.  A registration filtered before a newer one was saved replaces it.\<close>

lemma late_save_rolls_back:
  defines "old \<equiv> sample_registration 20 8" and "newer \<equiv> sample_registration 30 9"
  shows "registrations_to_check (\<lambda>resigned _. resigned) (cache_with (sample_registration 10 7)) None [old] = [old]"
    and "registrations_to_check (\<lambda>resigned _. resigned) (cache_with newer) None [old] = []"
    and "stored_timestamp (save_validator_registrations 0
      [\<lparr>ri_registration = old, ri_preferences = default_preferences\<rparr>] None (cache_with newer)) 2 = Some 20"
  by (simp_all add: old_def newer_def registrations_to_check_def registration_update_def cache_with_def
      sample_registration_def save_validator_registrations_def save_validator_registration_def
      LocalCache_new_def SignedValidatorRegistrationEntry_new_def default_preferences_def
      stored_timestamp_def VALIDATOR_REGISTRATION_UPDATE_INTERVAL_def saturating_sub_def Let_def)

end
