(* ===== verification/Effects.thy ===== *)
theory Effects
  imports Helix_Prelude
begin

text \<open>
  Handlers: code that reads and writes a state, sends messages out and may panic.  The handlers of the
  auctioneer are written with these combinators, and \<open>wp\<close> computes what holds after one: a handler
  establishes a postcondition when it does not panic and its result, new state and messages satisfy it.
\<close>

section \<open>Combinators\<close>

type_synonym ('s, 'o, 'a) handler = "'s \<Rightarrow> ('a \<times> 's \<times> 'o list) option"

definition hret :: "'a \<Rightarrow> ('s, 'o, 'a) handler" where
  "hret a = (\<lambda>s. Some (a, s, []))"

definition hbind :: "('s, 'o, 'a) handler \<Rightarrow> ('a \<Rightarrow> ('s, 'o, 'b) handler) \<Rightarrow> ('s, 'o, 'b) handler" where
  "hbind m f = (\<lambda>s. case m s of
     None \<Rightarrow> None
   | Some (a, s1, os1) \<Rightarrow>
       (case f a s1 of None \<Rightarrow> None | Some (b, s2, os2) \<Rightarrow> Some (b, s2, os1 @ os2)))"

abbreviation hseq :: "('s, 'o, 'a) handler \<Rightarrow> ('s, 'o, 'b) handler \<Rightarrow> ('s, 'o, 'b) handler" where
  "hseq m n \<equiv> hbind m (\<lambda>_. n)"

definition hget :: "('s \<Rightarrow> 'a) \<Rightarrow> ('s, 'o, 'a) handler" where
  "hget f = (\<lambda>s. Some (f s, s, []))"

definition hset :: "('s \<Rightarrow> 's) \<Rightarrow> ('s, 'o, unit) handler" where
  "hset f = (\<lambda>s. Some ((), f s, []))"

definition hsend :: "'o list \<Rightarrow> ('s, 'o, unit) handler" where
  "hsend os = (\<lambda>s. Some ((), s, os))"

definition hpanic :: "('s, 'o, 'a) handler" where
  "hpanic = (\<lambda>s. None)"

section \<open>What holds after a handler\<close>

definition wp :: "('s, 'o, 'a) handler \<Rightarrow> ('a \<Rightarrow> 's \<Rightarrow> 'o list \<Rightarrow> bool) \<Rightarrow> 's \<Rightarrow> bool" where
  "wp m Q s = (case m s of None \<Rightarrow> False | Some (a, s', os) \<Rightarrow> Q a s' os)"

lemma wp_hret [simp]: "wp (hret a) Q s = Q a s []"
  by (simp add: wp_def hret_def)

lemma wp_hget [simp]: "wp (hget f) Q s = Q (f s) s []"
  by (simp add: wp_def hget_def)

lemma wp_hset [simp]: "wp (hset f) Q s = Q () (f s) []"
  by (simp add: wp_def hset_def)

lemma wp_hsend [simp]: "wp (hsend os) Q s = Q () s os"
  by (simp add: wp_def hsend_def)

lemma wp_hpanic [simp]: "\<not> wp hpanic Q s"
  by (simp add: wp_def hpanic_def)

lemma wp_hbind [simp]: "wp (hbind m f) Q s = wp m (\<lambda>a s1 os1. wp (f a) (\<lambda>b s2 os2. Q b s2 (os1 @ os2)) s1) s"
  by (auto simp: wp_def hbind_def split: option.splits)

lemma wp_mono: "wp m Q s \<Longrightarrow> (\<And>a s' os. Q a s' os \<Longrightarrow> R a s' os) \<Longrightarrow> wp m R s"
  by (auto simp: wp_def split: option.splits)

lemma wp_conj: "wp m Q s \<Longrightarrow> wp m R s \<Longrightarrow> wp m (\<lambda>a s' os. Q a s' os \<and> R a s' os) s"
  by (auto simp: wp_def split: option.splits)

lemma wp_Some: "wp m Q s \<longleftrightarrow> (\<exists>a s' os. m s = Some (a, s', os) \<and> Q a s' os)"
  by (auto simp: wp_def split: option.splits)

lemma wp_if: "wp (if b then m else n) Q s = (if b then wp m Q s else wp n Q s)"
  by simp

lemma wp_option: "wp (case v of None \<Rightarrow> m | Some a \<Rightarrow> n a) Q s = (case v of None \<Rightarrow> wp m Q s | Some a \<Rightarrow> wp (n a) Q s)"
  by (simp split: option.splits)

end
