(* ===== verification/Block_Merger.thy ===== *)
theory Block_Merger
  imports Local_Cache
begin

text \<open>
  The store of merged blocks (\<open>crates/relay/src/auctioneer/block_merger.rs\<close>): a merged block is kept
  under the fee recipient of the block it was built from and served in place of that builder's bid
  while it is worth more and not too far behind.

  The local cache the merger shares with the other parts is passed explicitly.  \<open>now_ns\<close> stands for
  \<open>utcnow_ns()\<close>; metrics and log lines are left out.
\<close>

section \<open>Configuration\<close>

record MergingBuilderEndpoint =
  me_addr :: string
  me_api_key :: string

record MergingBuilderCollateral =
  mc_builder_coinbase :: Address
  mc_collateral_safe :: Address

record BlockMergingTcpConfig =
  mt_builder :: MergingBuilderEndpoint
  mt_relay_fee_recipient :: Address
  mt_multisend_contract :: Address
  mt_relay_bps :: u64
  mt_merged_builder_bps :: u64
  mt_winning_builder_bps :: u64
  mt_distribution_gas_limit :: u64
  mt_builder_collaterals :: "MergingBuilderCollateral list"

record BlockMergingConfig =
  bmc_is_enabled :: bool
  bmc_max_merged_bid_age_ms :: u64
  bmc_max_merged_bid_age_ms_by_builder :: "(string, u64) FxHashMap"
  bmc_mark_all_txs_mergeable :: bool
  bmc_serve_merged_headers :: bool
  bmc_serve_merged_headers_allowlist :: "BlsPublicKeyBytes set"
  bmc_merge_data_denylist :: "BlsPublicKeyBytes set"
  bmc_tcp :: "BlockMergingTcpConfig option"

text \<open>The configuration is refused when it both makes up merge data and serves merged headers.\<close>

definition merging_config_validate :: "BlockMergingConfig \<Rightarrow> (unit, unit) Result" where
  "merging_config_validate cfg =
     ensure (\<not> bmc_mark_all_txs_mergeable cfg \<or> \<not> bmc_serve_merged_headers cfg) ()"

definition is_merge_data_denied :: "BlockMergingConfig \<Rightarrow> BlsPublicKeyBytes \<Rightarrow> bool" where
  "is_merge_data_denied cfg builder = (builder \<in> bmc_merge_data_denylist cfg)"

definition is_builder_collateralized :: "BlockMergingConfig \<Rightarrow> Address \<Rightarrow> bool" where
  "is_builder_collateralized cfg coinbase =
     (case bmc_tcp cfg of
        Some tcp \<Rightarrow> list_ex (\<lambda>k. mc_builder_coinbase k = coinbase) (mt_builder_collaterals tcp)
      | None \<Rightarrow> False)"

definition treat_as_append_only :: "BlockMergingConfig \<Rightarrow> Address \<Rightarrow> bool" where
  "treat_as_append_only cfg coinbase = (\<not> bmc_serve_merged_headers cfg \<and> is_builder_collateralized cfg coinbase)"

definition max_merged_bid_age_ms_for :: "BlockMergingConfig \<Rightarrow> string option \<Rightarrow> u64" where
  "max_merged_bid_age_ms_for cfg builder_id =
     (case Option.bind builder_id (map_of (bmc_max_merged_bid_age_ms_by_builder cfg)) of
        Some ms \<Rightarrow> ms | None \<Rightarrow> bmc_max_merged_bid_age_ms cfg)"

section \<open>State\<close>

datatype PayloadMergingError = MergedPayloadNotValuable U256 U256

record BestMergedBlock =
  bmb_base_block_receive_ns :: u64
  bmb_max_merged_bid_age_ms :: u64
  bmb_bid :: PayloadEntry

record BlockMerger =
  bm_curr_bid_slot :: u64
  bm_best_merged_blocks :: "(Address, BestMergedBlock) FxHashMap"
  bm_flagged_payment_tx_only_blocks :: "B256 set"

definition BlockMerger_new :: "u64 \<Rightarrow> BlockMerger" where
  "BlockMerger_new slot = \<lparr>bm_curr_bid_slot = slot, bm_best_merged_blocks = [],
     bm_flagged_payment_tx_only_blocks = {}\<rparr>"

definition merger_on_new_slot :: "u64 \<Rightarrow> BlockMerger \<Rightarrow> BlockMerger" where
  "merger_on_new_slot slot m = m\<lparr>bm_curr_bid_slot := slot, bm_best_merged_blocks := [],
     bm_flagged_payment_tx_only_blocks := {}\<rparr>"

section \<open>Serving\<close>

definition merged_bid_higher :: "PayloadEntry \<Rightarrow> PayloadEntry \<Rightarrow> u64 \<Rightarrow> u64 \<Rightarrow> u64 \<Rightarrow> bool" where
  "merged_bid_higher merged_bid original_bid base_block_receive_ns original_bid_receive_ns max_age_ms =
     (let base_lag_ms = saturating_sub original_bid_receive_ns base_block_receive_ns div 1000000 in
      if entry_value merged_bid \<le> entry_value original_bid then False
      else if base_lag_ms > max_age_ms then False else True)"

text \<open>The transactions before the payment are the same and the payment is not.  The difference of the
  lengths that is logged is a subtraction of machine integers, a panic when negative.\<close>

definition only_payment_tx_changed :: "Transaction list \<Rightarrow> Transaction list \<Rightarrow> bool" where
  "only_payment_tx_changed original merged =
     (if original = [] then False
      else (let i = length original - 1 in
            if length merged \<le> i then False
            else take i original = take i merged \<and> original ! i \<noteq> merged ! i))"

definition appended_tx_count :: "Transaction list \<Rightarrow> Transaction list \<Rightarrow> nat option" where
  "appended_tx_count original merged =
     (if length original \<le> length merged then Some (length merged - length original) else None)"

definition log_if_only_payment_tx_changed :: "Transaction list \<Rightarrow> Transaction list \<Rightarrow> bool option" where
  "log_if_only_payment_tx_changed original merged =
     (if only_payment_tx_changed original merged
      then map_option (\<lambda>_. True) (appended_tx_count original merged) else Some False)"

definition overall_best_merged_block_hash :: "BlockMerger \<Rightarrow> B256 option" where
  "overall_best_merged_block_hash m =
     map_option (\<lambda>b. entry_block_hash (bmb_bid b))
       (max_by_key (\<lambda>b. entry_value (bmb_bid b)) (map snd (bm_best_merged_blocks m)))"

definition record_served :: "u64 \<Rightarrow> BlockMerger \<Rightarrow> BestMergedBlock \<Rightarrow> LocalCache \<Rightarrow> LocalCache" where
  "record_served now_ns m b c =
     (let hash = entry_block_hash (bmb_bid b);
          best = overall_best_merged_block_hash m;
          c1 = set_merged_block_header_served hash now_ns (best = Some hash) c
      in case best of
           Some h \<Rightarrow> if h \<noteq> hash then set_merged_block_header_served h now_ns False c1 else c1
         | None \<Rightarrow> c1)"

definition merger_get_header ::
  "BlockMergingConfig \<Rightarrow> u64 \<Rightarrow> PayloadEntry \<Rightarrow> bool \<Rightarrow> BlockMerger \<Rightarrow> LocalCache \<Rightarrow>
   (PayloadEntry option \<times> BlockMerger \<times> LocalCache) option" where
  "merger_get_header cfg now_ns original_bid is_mev_boost m c =
     (case map_of (bm_best_merged_blocks m) (ep_fee_recipient (execution_payload original_bid)) of
        None \<Rightarrow> Some (None, m, c)
      | Some b \<Rightarrow>
          (let c1 = (if is_mev_boost
                     then set_merged_block_top_bid (entry_block_hash (bmb_bid b)) (entry_value original_bid) c
                     else c)
           in case receive_ns original_bid of
                None \<Rightarrow> Some (None, m, c1)
              | Some original_ns \<Rightarrow>
                  if \<not> merged_bid_higher (bmb_bid b) original_bid (bmb_base_block_receive_ns b) original_ns
                         (bmb_max_merged_bid_age_ms b)
                  then map_option (\<lambda>flagged.
                         (None,
                          if flagged then m\<lparr>bm_flagged_payment_tx_only_blocks :=
                              insert (entry_block_hash original_bid) (bm_flagged_payment_tx_only_blocks m)\<rparr>
                          else m, c1))
                         (log_if_only_payment_tx_changed (ep_transactions (execution_payload original_bid))
                            (ep_transactions (execution_payload (bmb_bid b))))
                  else if entry_parent_hash (bmb_bid b) \<noteq> entry_parent_hash original_bid then Some (None, m, c1)
                  else
                    (let c2 = (if is_mev_boost then record_served now_ns m b c1 else c1);
                         pubkey = bd_builder_pubkey (bid_data_ref (bmb_bid b))
                     in if pubkey \<notin> bmc_serve_merged_headers_allowlist cfg \<and> \<not> lc_serve_merged_headers c2
                        then Some (None, m, c2)
                        else if ep_state_root (execution_payload (bmb_bid b)) = 0 then Some (None, m, c2)
                        else Some (Some (bmb_bid b), m, c2))))"

section \<open>Storing\<close>

definition merged_block_record ::
  "u64 \<Rightarrow> BlockMergeResponse \<Rightarrow> PayloadAndBlobs \<Rightarrow> U256 \<Rightarrow> u64 \<Rightarrow> MergedBlock" where
  "merged_block_record now_ns response original_payload original_value slot =
     (let ep = bmr_execution_payload response; op = pb_execution_payload original_payload in
      \<lparr>mb_slot = slot, mb_block_number = ep_block_number ep,
       mb_original_block_hash = bmr_base_block_hash response, mb_block_hash = ep_block_hash ep,
       mb_original_value = original_value, mb_proposer_value = bmr_proposer_value response,
       mb_total_merged_value =
         foldl (\<lambda>acc p. acc + bir_contribution (snd p)) 0 (bmr_builder_inclusions response),
       mb_base_builder_revenue = bmr_base_builder_revenue response,
       mb_relay_revenue = bmr_relay_revenue response,
       mb_original_tx_count = length (ep_transactions op), mb_merged_tx_count = length (ep_transactions ep),
       mb_original_blob_count = length (bb_blobs (pb_blobs_bundle original_payload)),
       mb_merged_blob_count = length (bb_blobs (bmr_blobs_bundle response)),
       mb_original_gas_used = ep_gas_used op, mb_merged_gas_used = ep_gas_used ep,
       mb_builder_inclusions = bmr_builder_inclusions response,
       mb_trace = (bmr_trace response)\<lparr>mbt_finalize_time_ns := now_ns\<rparr>,
       mb_unmerged_txs = bmr_unmerged_txs response, mb_tx_builders = bmr_tx_builders response\<rparr>)"

definition merged_entry :: "externals \<Rightarrow> BlockMergeResponse \<Rightarrow> BlsPublicKeyBytes \<Rightarrow> PayloadEntry" where
  "merged_entry x response builder_pubkey =
     new_gossip
       \<lparr>pb_execution_payload = bmr_execution_payload response, pb_blobs_bundle = bmr_blobs_bundle response\<rparr>
       \<lparr>bd_withdrawals_root = withdrawals_root x (ep_withdrawals (bmr_execution_payload response)),
        bd_tx_root = None, bd_execution_requests = bmr_execution_requests response,
        bd_value = bmr_proposer_value response, bd_builder_pubkey = builder_pubkey\<rparr>"

definition prepare_merged_payload_for_storage ::
  "externals \<Rightarrow> BlockMergingConfig \<Rightarrow> u64 \<Rightarrow> BlockMergeResponse \<Rightarrow> PayloadAndBlobs \<Rightarrow> U256 \<Rightarrow> BlsPublicKeyBytes \<Rightarrow>
   u64 \<Rightarrow> BlockMerger \<Rightarrow> LocalCache \<Rightarrow> (PayloadMergingError, PayloadEntry) Result \<times> BlockMerger \<times> LocalCache" where
  "prepare_merged_payload_for_storage x cfg now_ns response original_payload original_value builder_pubkey
     base_block_receive_ns m c =
     (if bmr_proposer_value response \<le> original_value
      then (Inl (MergedPayloadNotValuable original_value (bmr_proposer_value response)), m, c)
      else
        (let m1 = m\<lparr>bm_flagged_payment_tx_only_blocks :=
               bm_flagged_payment_tx_only_blocks m - {ep_block_hash (pb_execution_payload original_payload)}\<rparr>;
             c1 = save_merged_block
               (merged_block_record now_ns response original_payload original_value (bm_curr_bid_slot m)) c;
             new_bid = merged_entry x response builder_pubkey;
             coinbase = ep_fee_recipient (pb_execution_payload original_payload);
             builder_id = Option.bind (get_builder_info c1 builder_pubkey) bi_builder_id
         in (Inr new_bid,
             m1\<lparr>bm_best_merged_blocks := AList.update coinbase
                 \<lparr>bmb_base_block_receive_ns = base_block_receive_ns,
                  bmb_max_merged_bid_age_ms = max_merged_bid_age_ms_for cfg builder_id,
                  bmb_bid = new_bid\<rparr> (bm_best_merged_blocks m1)\<rparr>, c1)))"

section \<open>Histories\<close>

text \<open>The calls on the merger, each with the cache it runs against (other parts change the cache
  between the calls), and what they leave for a fee recipient: the last accepted merge of the slot.
  Where several stored blocks have the greatest value, \<open>overall_best_merged_block_hash\<close> takes the last
  of them in the order of the list that stands for the hash map.\<close>

record merge =
  mg_response :: BlockMergeResponse
  mg_original :: PayloadAndBlobs
  mg_value :: U256
  mg_builder :: BlsPublicKeyBytes
  mg_receive_ns :: u64

datatype MergerOp =
    StoreMergeOp u64 merge LocalCache
  | HeaderOp u64 PayloadEntry bool LocalCache
  | MergerSlotOp u64

fun merger_step :: "externals \<Rightarrow> BlockMergingConfig \<Rightarrow> MergerOp \<Rightarrow> BlockMerger \<Rightarrow> BlockMerger option" where
  "merger_step x cfg (StoreMergeOp now g c) m =
     Some (fst (snd (prepare_merged_payload_for_storage x cfg now (mg_response g) (mg_original g) (mg_value g)
       (mg_builder g) (mg_receive_ns g) m c)))"
| "merger_step x cfg (HeaderOp now original boost c) m =
     map_option (\<lambda>r. fst (snd r)) (merger_get_header cfg now original boost m c)"
| "merger_step x cfg (MergerSlotOp slot) m = Some (merger_on_new_slot slot m)"

fun merger_run :: "externals \<Rightarrow> BlockMergingConfig \<Rightarrow> MergerOp list \<Rightarrow> BlockMerger \<Rightarrow> BlockMerger option" where
  "merger_run x cfg [] m = Some m"
| "merger_run x cfg (op # ops) m = Option.bind (merger_step x cfg op m) (merger_run x cfg ops)"

definition profitable :: "merge \<Rightarrow> bool" where
  "profitable g \<longleftrightarrow> bmr_proposer_value (mg_response g) > mg_value g"

definition merge_coinbase :: "merge \<Rightarrow> Address" where
  "merge_coinbase g = ep_fee_recipient (pb_execution_payload (mg_original g))"

text \<open>The newest call comes first.\<close>

fun latest_merge :: "MergerOp list \<Rightarrow> Address \<Rightarrow> (merge \<times> LocalCache) option" where
  "latest_merge [] a = None"
| "latest_merge (StoreMergeOp now g c # earlier) a =
     (if profitable g \<and> merge_coinbase g = a then Some (g, c) else latest_merge earlier a)"
| "latest_merge (HeaderOp _ _ _ _ # earlier) a = latest_merge earlier a"
| "latest_merge (MergerSlotOp _ # earlier) a = None"

definition age_limit :: "BlockMergingConfig \<Rightarrow> LocalCache \<Rightarrow> BlsPublicKeyBytes \<Rightarrow> u64" where
  "age_limit cfg c builder =
     max_merged_bid_age_ms_for cfg (Option.bind (get_builder_info c builder) bi_builder_id)"

definition stored_merge :: "externals \<Rightarrow> BlockMergingConfig \<Rightarrow> merge \<times> LocalCache \<Rightarrow> BestMergedBlock" where
  "stored_merge x cfg gc =
     \<lparr>bmb_base_block_receive_ns = mg_receive_ns (fst gc),
      bmb_max_merged_bid_age_ms = age_limit cfg (snd gc) (mg_builder (fst gc)),
      bmb_bid = merged_entry x (mg_response (fst gc)) (mg_builder (fst gc))\<rparr>"

text \<open>What must hold for a merge to be served in place of a bid: \<open>c0\<close> is the cache when the merge was
  stored, \<open>c\<close> the cache when the header is asked for.\<close>

definition servable ::
  "BlockMergingConfig \<Rightarrow> LocalCache \<Rightarrow> PayloadEntry \<Rightarrow> merge \<Rightarrow> LocalCache \<Rightarrow> bool" where
  "servable cfg c original g c0 \<longleftrightarrow>
     (case receive_ns original of
        None \<Rightarrow> False
      | Some ns \<Rightarrow> saturating_sub ns (mg_receive_ns g) div 1000000 \<le> age_limit cfg c0 (mg_builder g)) \<and>
     bmr_proposer_value (mg_response g) > entry_value original \<and>
     ep_parent_hash (bmr_execution_payload (mg_response g)) = entry_parent_hash original \<and>
     (mg_builder g \<in> bmc_serve_merged_headers_allowlist cfg \<or> lc_serve_merged_headers c) \<and>
     ep_state_root (bmr_execution_payload (mg_response g)) \<noteq> 0"

section \<open>Lemmas\<close>

lemma log_total: "\<exists>b. log_if_only_payment_tx_changed original merged = Some b"
  by (auto simp: log_if_only_payment_tx_changed_def only_payment_tx_changed_def appended_tx_count_def Let_def
      split: if_splits)

lemma cache_trace_frame [simp]:
  "lc_serve_merged_headers (set_merged_block_top_bid h v c) = lc_serve_merged_headers c"
  "lc_serve_merged_headers (set_merged_block_header_served h t w c) = lc_serve_merged_headers c"
  "lc_serve_merged_headers (record_served now m b c) = lc_serve_merged_headers c"
  by (simp_all add: set_merged_block_top_bid_def set_merged_block_header_served_def record_served_def Let_def
      split: option.splits)

lemma get_builder_info_save_merged [simp]:
  "get_builder_info (save_merged_block b c) = get_builder_info c"
  by (simp add: fun_eq_iff get_builder_info_def save_merged_block_def cong: option.case_cong if_cong)

lemma merged_entry_fields [simp]:
  "entry_value (merged_entry x r p) = bmr_proposer_value r"
  "entry_parent_hash (merged_entry x r p) = ep_parent_hash (bmr_execution_payload r)"
  "execution_payload (merged_entry x r p) = bmr_execution_payload r"
  "bd_builder_pubkey (bid_data_ref (merged_entry x r p)) = p"
  by (simp_all add: merged_entry_def new_gossip_def entry_value_def entry_parent_hash_def
      execution_payload_def bid_data_ref_def)

text \<open>The answer of \<open>get_header\<close>, as a function of the stored block.\<close>

lemma merger_get_header_answer:
  "\<exists>m' c'. merger_get_header cfg now original boost m c =
     Some (case map_of (bm_best_merged_blocks m) (ep_fee_recipient (execution_payload original)) of
             None \<Rightarrow> None
           | Some b \<Rightarrow>
               if (case receive_ns original of None \<Rightarrow> False
                   | Some ns \<Rightarrow> merged_bid_higher (bmb_bid b) original (bmb_base_block_receive_ns b) ns
                       (bmb_max_merged_bid_age_ms b)) \<and>
                  entry_parent_hash (bmb_bid b) = entry_parent_hash original \<and>
                  (bd_builder_pubkey (bid_data_ref (bmb_bid b)) \<in> bmc_serve_merged_headers_allowlist cfg \<or>
                   lc_serve_merged_headers c) \<and>
                  ep_state_root (execution_payload (bmb_bid b)) \<noteq> 0
               then Some (bmb_bid b) else None, m', c') \<and>
     bm_best_merged_blocks m' = bm_best_merged_blocks m"
proof (cases "map_of (bm_best_merged_blocks m) (ep_fee_recipient (execution_payload original))")
  case None
  then show ?thesis by (simp add: merger_get_header_def)
next
  case (Some b)
  obtain f where f: "log_if_only_payment_tx_changed (ep_transactions (execution_payload original))
      (ep_transactions (execution_payload (bmb_bid b))) = Some f"
    using log_total by blast
  show ?thesis
    by (cases "receive_ns original") (simp_all add: merger_get_header_def Let_def Some f)
qed

lemma best_block_after_store:
  "map_of (bm_best_merged_blocks (fst (snd (prepare_merged_payload_for_storage x cfg now (mg_response g)
     (mg_original g) (mg_value g) (mg_builder g) (mg_receive_ns g) m c)))) a =
     (if profitable g \<and> merge_coinbase g = a then Some (stored_merge x cfg (g, c))
      else map_of (bm_best_merged_blocks m) a)"
  by (simp add: prepare_merged_payload_for_storage_def Let_def profitable_def merge_coinbase_def
      stored_merge_def age_limit_def not_le[symmetric] AList.update_conv')

lemma merger_run_append:
  "merger_run x cfg (xs @ ys) m = Option.bind (merger_run x cfg xs m) (merger_run x cfg ys)"
  by (induction xs arbitrary: m) (simp_all cong: Option.bind_cong)

lemma merger_step_latest:
  assumes "\<And>a. map_of (bm_best_merged_blocks m) a = map_option (stored_merge x cfg) (latest_merge earlier a)"
  shows "\<exists>m'. merger_step x cfg op m = Some m' \<and>
    (\<forall>a. map_of (bm_best_merged_blocks m') a = map_option (stored_merge x cfg) (latest_merge (op # earlier) a))"
proof (cases op)
  case (StoreMergeOp now g c)
  then show ?thesis by (simp add: best_block_after_store assms)
next
  case (HeaderOp now original boost c)
  obtain r m' c' where "merger_get_header cfg now original boost m c = Some (r, m', c')"
      "bm_best_merged_blocks m' = bm_best_merged_blocks m"
    using merger_get_header_answer by blast
  then show ?thesis using HeaderOp by (simp add: assms)
next
  case (MergerSlotOp slot)
  then show ?thesis by (simp add: merger_on_new_slot_def)
qed

lemma merger_run_latest:
  "\<exists>m. merger_run x cfg ops (BlockMerger_new slot) = Some m \<and>
     (\<forall>a. map_of (bm_best_merged_blocks m) a = map_option (stored_merge x cfg) (latest_merge (rev ops) a))"
proof (induction ops rule: rev_induct)
  case Nil
  then show ?case by (simp add: BlockMerger_new_def)
next
  case (snoc op ops)
  then obtain m where m: "merger_run x cfg ops (BlockMerger_new slot) = Some m"
      "\<And>a. map_of (bm_best_merged_blocks m) a = map_option (stored_merge x cfg) (latest_merge (rev ops) a)"
    by blast
  from merger_step_latest [OF m(2), of op] m(1) show ?case
    by (auto simp: merger_run_append)
qed

section \<open>The header that is served\<close>

text \<open>C7. Whatever the calls before it, a header request on the merger returns, and it answers with the
  last merge accepted this slot for a base block with the requested bid's fee recipient exactly when
  that merge is worth more than the bid, was built on a block not older than the limit resolved for its
  builder when it was stored, has the bid's parent, a state root, and may be served; otherwise with
  nothing.\<close>

theorem served_merged_header:
  "Option.bind (merger_run x cfg ops (BlockMerger_new slot))
     (\<lambda>m. map_option fst (merger_get_header cfg now original boost m c)) =
   Some (case latest_merge (rev ops) (ep_fee_recipient (execution_payload original)) of
           None \<Rightarrow> None
         | Some (g, c0) \<Rightarrow>
             if servable cfg c original g c0 then Some (merged_entry x (mg_response g) (mg_builder g)) else None)"
proof -
  obtain m where m: "merger_run x cfg ops (BlockMerger_new slot) = Some m"
      "\<And>a. map_of (bm_best_merged_blocks m) a = map_option (stored_merge x cfg) (latest_merge (rev ops) a)"
    using merger_run_latest by blast
  show ?thesis
    using merger_get_header_answer [of cfg now original boost m c] m
    by (auto simp: servable_def merged_bid_higher_def stored_merge_def Let_def not_le
        split: option.splits prod.splits)
qed

end
