(* ===== verification/Auction_Context.thy ===== *)
theory Auction_Context
  imports Effects Block_Merger Simulators Gloas_Reveal
    Api_Errors
begin

text \<open>
  The state of the auctioneer and the handlers every phase shares
  (\<open>crates/relay/src/auctioneer/context.rs\<close>): results sent to builders, demotions, late simulation
  results, merged blocks and the move to a new slot.

  The state is the record \<open>Context\<close>; the slot context is part of it, as the dereferences of the code make
  it.  What a handler sends (to builders, proposers, the database, the spine, the alert channel) is the
  list of its outputs.  The readings of the clock and of the random generator during one event are the
  record \<open>clock\<close>, with one value for the whole event.  The bid adjustor is a type parameter of the code,
  so its state is a type variable here and its two methods are functions of the record \<open>auction_env\<close>,
  with the chain's specification, the configuration and the text of the errors.  Metrics, logging,
  alert polling and the off-thread release of memory are left out.
\<close>

section \<open>Proposer requests\<close>

text \<open>The timestamps that are set before the auctioneer answers.\<close>

record GetPayloadTrace =
  gpt_receive :: u64
  gpt_read_body :: u64
  gpt_start_handler :: u64
  gpt_decode :: u64
  gpt_proposer_index_validated :: u64
  gpt_signature_validated :: u64
  gpt_payload_fetched :: u64
  gpt_slot_start_awaited :: u64
  gpt_gossiped :: u64
  gpt_validation_complete :: u64
  gpt_beacon_client_broadcast :: u64
  gpt_broadcaster_block_broadcast :: u64
  gpt_on_deliver_payload :: u64

record ExecutionPayloadHeader =
  eh_parent_hash :: B256
  eh_fee_recipient :: Address
  eh_state_root :: B256
  eh_receipts_root :: B256
  eh_logs_bloom :: "2048 word"
  eh_prev_randao :: B256
  eh_block_number :: u64
  eh_gas_limit :: u64
  eh_gas_used :: u64
  eh_timestamp :: u64
  eh_extra_data :: bytes
  eh_base_fee_per_gas :: U256
  eh_block_hash :: B256
  eh_transactions_root :: B256
  eh_withdrawals_root :: B256
  eh_blob_gas_used :: u64
  eh_excess_blob_gas :: u64

text \<open>A block of the consensus client's types with a payload or its header in the body; the other fields
  of the body are carried over unread.\<close>

record 'p SignedBlock =
  bk_fork :: ForkName
  bk_slot :: Slot
  bk_proposer_index :: u64
  bk_parent_root :: B256
  bk_state_root :: B256
  bk_body_rest :: bytes
  bk_execution_payload :: 'p
  bk_blob_kzg_commitments :: "KzgCommitment list"
  bk_signature :: bytes

type_synonym SignedBlindedBeaconBlock = "ExecutionPayloadHeader SignedBlock"

record VersionedSignedProposal =
  sp_signed_block :: "ExecutionPayload SignedBlock"
  sp_kzg_proofs :: "KzgProof list"
  sp_blobs :: "Blob list"

record GetPayloadResponse =
  gr_version :: ForkName
  gr_data :: PayloadAndBlobs

record GetPayloadResultData =
  gd_to_proposer :: GetPayloadResponse
  gd_to_publish :: VersionedSignedProposal
  gd_trace :: GetPayloadTrace
  gd_fork :: ForkName
  gd_bid :: PayloadBidData

text \<open>A one-shot reply channel is named by a number.\<close>

type_synonym res_tx = nat

record PendingPayload =
  pp_block_hash :: B256
  pp_blinded :: SignedBlindedBeaconBlock
  pp_trace :: GetPayloadTrace
  pp_res_tx :: res_tx

section \<open>Outputs\<close>

record Demotion =
  dm_slot :: u64
  dm_collateral_id :: string
  dm_builder_pubkey :: BlsPublicKeyBytes
  dm_block_hash :: B256
  dm_bid_value_wei :: U256
  dm_reason_msg :: string

record StoredSubmission =
  ds_submission :: SignedBidSubmission
  ds_trace :: SubmissionTrace
  ds_optimistic_version :: OptimisticVersion
  ds_is_adjusted :: bool
  ds_live_ts :: "u64 option"

datatype Output =
    FutureResult SubmissionResultWithRef
  | TcpResult SubmissionResultWithRef
  | HeaderReply res_tx "(ProposerApiError, PayloadEntry) Result"
  | PayloadReply res_tx "(ProposerApiError, GetPayloadResultData) Result"
  | BidReply res_tx "(ProposerApiError, bytes) Result"
  | PreferencesReply res_tx "(ProposerApiError, unit) Result"
  | TopBid TopBidUpdate
  | BidLive Uuid B256
  | SimStartedMsg SimStarted
  | SimTxIncludedMsg SimTxIncluded
  | SimFinishedMsg SimFinished
  | SimDropsMsg SimPreviousSlotDrops
  | DbStoreSubmission StoredSubmission
  | DbLiveTs u64 B256 u64
  | DbSaveMergedBlocks "MergedBlock list"
  | DbDisableAdjustments B256
  | DbDemoteBuilder Demotion
  | OperatorDemotion Demotion
  | DemotionAlert Demotion
  | MergingDisabledAlert B256 BlockSimError
  | RevealEnvelope bytes
  | ClearInflightPayloads
  | ClearDecoded

section \<open>Environment\<close>

record 'b auction_env =
  ae_x :: externals
  ae_signer :: signer
  ae_fork_at_slot :: "Slot \<Rightarrow> ForkName"
  ae_local_dev :: bool
  ae_merging :: BlockMergingConfig
  ae_operator :: bool
  ae_builder_msg :: "BuilderApiError \<Rightarrow> string"
  ae_sim_msg :: "BlockSimError \<Rightarrow> string"
  ae_ssz_msg :: "SszError \<Rightarrow> string"
  ae_try_adjust :: "'b \<Rightarrow> PayloadEntry \<Rightarrow> SlotData \<Rightarrow> bool \<Rightarrow> (PayloadEntry \<times> ValidationRequest \<times> bool) option"
  ae_adjust_new_slot :: "u64 \<Rightarrow> 'b \<Rightarrow> 'b"

record clock =
  ck_now :: nat
  ck_ns :: u64
  ck_elapsed :: nat
  ck_max_blobs :: nat
  ck_uuid :: Uuid

section \<open>State\<close>

record 'b Context =
  cx_cache :: LocalCache
  cx_unknown_builder_info :: BuilderInfo
  cx_bid_slot :: Slot
  cx_pending_payload :: "PendingPayload option"
  cx_bid_sorter :: BidSorter
  cx_hydration_cache :: HydrationCache
  cx_payloads :: "(B256, PayloadEntry) FxHashMap"
  cx_gloas_payloads :: "GloasPayload PayloadStore"
  cx_block_merger :: BlockMerger
  cx_bid_adjustor :: 'b
  cx_completed_dry_run :: bool
  cx_sims :: Simulators
  cx_block_merging_enabled :: bool
  cx_failsafe_triggered :: bool
  cx_builder_preferences :: BuilderPreferencesStore
  cx_gloas_builder_identity :: GloasBuilderIdentity
  cx_seen_blocks :: SeenBlocks

type_synonym ('b, 'a) act = "('b Context, Output, 'a) handler"

definition Context_new :: "bool \<Rightarrow> 'b \<Rightarrow> Simulators \<Rightarrow> LocalCache \<Rightarrow> bool \<Rightarrow> GloasBuilderIdentity \<Rightarrow> 'b Context" where
  "Context_new local_dev adjustor sims cache merging identity =
     \<lparr>cx_cache = cache,
      cx_unknown_builder_info = default_builder_info\<lparr>bi_collateral := (if local_dev then - 1 else 0),
        bi_is_optimistic := local_dev, bi_is_optimistic_for_regional_filtering := local_dev,
        bi_builder_id := None, bi_builder_ids := None\<rparr>,
      cx_bid_slot = 0, cx_pending_payload = None, cx_bid_sorter = BidSorter_new, cx_hydration_cache = [],
      cx_payloads = [], cx_gloas_payloads = store_with_capacity, cx_block_merger = BlockMerger_new 0,
      cx_bid_adjustor = adjustor, cx_completed_dry_run = False, cx_sims = sims,
      cx_block_merging_enabled = merging, cx_failsafe_triggered = False, cx_builder_preferences = [],
      cx_gloas_builder_identity = identity, cx_seen_blocks = default_seen\<rparr>"

definition builder_info :: "'b Context \<Rightarrow> BlsPublicKeyBytes \<Rightarrow> BuilderInfo" where
  "builder_info c builder = (case get_builder_info (cx_cache c) builder of
     Some info \<Rightarrow> info | None \<Rightarrow> cx_unknown_builder_info c)"

section \<open>Results for builders\<close>

definition send_submission_result ::
  "'b auction_env \<Rightarrow> Uuid \<Rightarrow> SubmissionRef \<Rightarrow> (BuilderApiError, unit) Result \<Rightarrow> ('b, unit) act" where
  "send_submission_result env submission_id sub_ref result =
     (let r = SubmissionResultWithRef_new (ae_builder_msg env) submission_id sub_ref result
      in hsend (case sr_kind sub_ref of Http \<Rightarrow> [FutureResult r] | Tcp \<Rightarrow> [TcpResult r] | Internal \<Rightarrow> []))"

section \<open>Demotions\<close>

definition handle_builder_demotion ::
  "'b auction_env \<Rightarrow> Slot \<Rightarrow> BlsPublicKeyBytes \<Rightarrow> B256 \<Rightarrow> U256 \<Rightarrow> string \<Rightarrow> ('b, unit) act" where
  "handle_builder_demotion env slot builder_pubkey block_hash bid_value_wei reason =
     hbind (hget (\<lambda>c. demote_builder builder_pubkey (cx_cache c))) (\<lambda>(demoted, cache).
     hseq (hset (\<lambda>c. c\<lparr>cx_cache := cache\<rparr>))
     (if demoted then
        (let builder_id = Option.bind (get_builder_info cache builder_pubkey) bi_builder_id;
             d = \<lparr>dm_slot = slot, dm_collateral_id = (case builder_id of Some i \<Rightarrow> i | None \<Rightarrow> []),
                  dm_builder_pubkey = builder_pubkey, dm_block_hash = block_hash,
                  dm_bid_value_wei = bid_value_wei, dm_reason_msg = reason\<rparr>
         in hsend ((if ae_operator env then [OperatorDemotion (d\<lparr>dm_bid_value_wei := min bid_value_wei (2 ^ 128 - 1)\<rparr>)] else []) @ [DbDemoteBuilder d, DemotionAlert d]))
      else hret ()))"

section \<open>Late simulation results\<close>

definition disable_adjustments :: "B256 \<Rightarrow> ('b, unit) act" where
  "disable_adjustments block_hash =
     hbind (hget (\<lambda>c. lc_adjustments_enabled (cx_cache c))) (\<lambda>enabled.
     if \<not> enabled then hret ()
     else hseq (hset (\<lambda>c. c\<lparr>cx_cache := (cx_cache c)\<lparr>lc_adjustments_enabled := False\<rparr>\<rparr>))
            (hsend [DbDisableAdjustments block_hash]))"

definition react_to_failure :: "'b auction_env \<Rightarrow> SimulationResultInner \<Rightarrow> ('b, unit) act" where
  "react_to_failure env r =
     (case (sri_bid r, sri_result r) of
        (Some bid, Inl err) \<Rightarrow>
          if is_demotable err then
            hbind (hget (\<lambda>c. case map_of (cx_payloads c) (bid_block_hash bid) of
                Some b \<Rightarrow> is_adjusted b | None \<Rightarrow> False)) (\<lambda>adjusted.
            if adjusted then disable_adjustments (bid_block_hash bid)
            else handle_builder_demotion env (bid_slot bid) (bid_builder_pubkey bid)
              (bid_block_hash bid) (bid_value bid) (ae_sim_msg env err))
          else hret ()
      | _ \<Rightarrow> hret ())"

definition handle_simulation_result ::
  "'b auction_env \<Rightarrow> SimulationResultInner option \<Rightarrow> bool \<Rightarrow> ('b, unit) act" where
  "handle_simulation_result env result already_sent =
     (case result of
        None \<Rightarrow> hret ()
      | Some r \<Rightarrow>
          hseq (react_to_failure env r)
            (if \<not> already_sent \<and> \<not> is_optimistic_version (sri_optimistic_version r)
             then send_submission_result env (sri_submission_id r) (sri_submission_ref r) (Inl SimOnNextSlot)
             else hret ()))"

section \<open>A new slot\<close>

definition context_on_new_slot :: "'b auction_env \<Rightarrow> Slot \<Rightarrow> ('b, unit) act" where
  "context_on_new_slot env slot =
     hseq (hset (\<lambda>c. c\<lparr>cx_bid_slot := slot\<rparr>))
     (hbind (hget cx_pending_payload) (\<lambda>pending.
      hseq (hset (\<lambda>c. c\<lparr>cx_pending_payload := None\<rparr>))
     (hseq (case pending of
              Some p \<Rightarrow> hsend [PayloadReply (pp_res_tx p) (Inl NoExecutionPayloadFound)]
            | None \<Rightarrow> hret ())
     (hseq (hset (\<lambda>c. c\<lparr>cx_completed_dry_run := False,
                         cx_bid_sorter := process_slot slot (cx_bid_sorter c),
                         cx_cache := (cx_cache c)\<lparr>lc_submission_versions := []\<rparr>,
                         cx_hydration_cache := hydration_clear (cx_hydration_cache c)\<rparr>))
     (hbind (hget (\<lambda>c. sim_on_new_slot slot (cx_sims c))) (\<lambda>(drops, sims).
      hseq (hset (\<lambda>c. c\<lparr>cx_sims := sims\<rparr>))
     (hseq (case drops of Some d \<Rightarrow> hsend [SimDropsMsg d] | None \<Rightarrow> hret ())
     (hbind (hget (\<lambda>c. get_merged_blocks (cx_cache c))) (\<lambda>merged.
      hseq (if merged \<noteq> []
            then hseq (hsend [DbSaveMergedBlocks merged])
                   (hset (\<lambda>c. c\<lparr>cx_cache := clear_merged_blocks (cx_cache c)\<rparr>))
            else hret ())
     (hseq (hset (\<lambda>c. c\<lparr>cx_block_merger := merger_on_new_slot slot (cx_block_merger c),
                         cx_bid_adjustor := ae_adjust_new_slot env slot (cx_bid_adjustor c),
                         cx_builder_preferences := prefs_on_new_slot slot (cx_builder_preferences c)\<rparr>))
     (hseq (hsend [ClearInflightPayloads, ClearDecoded])
     (hset (\<lambda>c. if cx_payloads c \<noteq> [] \<or> \<not> store_is_empty (cx_gloas_payloads c)
                then c\<lparr>cx_payloads := [], cx_gloas_payloads := fst (rotate (cx_gloas_payloads c))\<rparr>
                else c)))))))))))))"

section \<open>Merged blocks\<close>

definition on_merged_sim_result :: "MergedSimulationResultInner \<Rightarrow> ('b, unit) act" where
  "on_merged_sim_result inner =
     (case mri_result inner of
        Inr _ \<Rightarrow> hret ()
      | Inl err \<Rightarrow>
          if \<not> is_merge_builder_fault err then hret ()
          else hseq (hset (\<lambda>c. c\<lparr>cx_block_merging_enabled := False\<rparr>))
                 (hsend [MergingDisabledAlert (mri_block_hash inner) err]))"

definition handle_merge_response :: "'b auction_env \<Rightarrow> clock \<Rightarrow> BlockMergeResponse \<Rightarrow> ('b, unit) act" where
  "handle_merge_response env ck response =
     (let block_hash = ep_block_hash (bmr_execution_payload response) in
      hbind (hget (\<lambda>c. map_of (cx_payloads c) (bmr_base_block_hash response))) (\<lambda>original.
      case original of
        None \<Rightarrow> hret ()
      | Some entry \<Rightarrow>
          (case receive_ns entry of
             None \<Rightarrow> hret ()
           | Some base_block_receive_ns \<Rightarrow>
               hbind (hget (\<lambda>c. prepare_merged_payload_for_storage (ae_x env) (ae_merging env) (ck_ns ck) response
                   (payload_and_blobs entry) (entry_value entry) (bd_builder_pubkey (bid_data_ref entry))
                   base_block_receive_ns (cx_block_merger c) (cx_cache c))) (\<lambda>(res, merger, cache).
               hseq (hset (\<lambda>c. c\<lparr>cx_block_merger := merger, cx_cache := cache\<rparr>))
               (case res of
                  Inl _ \<Rightarrow> hret ()
                | Inr payload \<Rightarrow>
                    hset (\<lambda>c. c\<lparr>cx_payloads := AList.update block_hash payload (cx_payloads c)\<rparr>))))))"

definition merged_validation_request ::
  "clock \<Rightarrow> BlockMergeResponse \<Rightarrow> SlotData \<Rightarrow> MergedValidationRequest option" where
  "merged_validation_request ck response slot_data =
     (let ep = bmr_execution_payload response;
          entry = ve_entry (sl_registration_data slot_data);
          registration = svr_message (ri_registration entry)
      in map_option (\<lambda>attrs.
           \<lparr>mv_submission_id = ck_uuid ck, mv_base_block_hash = bmr_base_block_hash response,
            mv_slot = sl_bid_slot slot_data, mv_parent_beacon_block_root = parent_root attrs,
            mv_proposer_fee_recipient = vr_fee_recipient registration,
            mv_registered_gas_limit = vr_gas_limit registration,
            mv_apply_blacklist = is_regional (vp_filtering (ri_preferences entry)),
            mv_inclusion_list = (case sl_il slot_data of Some il \<Rightarrow> il | None \<Rightarrow> []),
            mv_receive_ns = ck_ns ck\<rparr>)
         (attrs_for_submission slot_data (ep_parent_hash ep) (ep_prev_randao ep)))"

end
