(* ===== verification/Validation.thy ===== *)
theory Validation
  imports Auction_Context
begin

text \<open>
  The checks a submission passes before it enters the auction
  (\<open>crates/relay/src/auctioneer/validation.rs\<close>).
\<close>

section \<open>Definitions\<close>

definition check_submission_fork :: "ForkName \<Rightarrow> ForkName \<Rightarrow> (BlockValidationError, unit) Result" where
  "check_submission_fork decoded slot_fork =
     (if decoded \<noteq> slot_fork then Inl (InvalidPayloadType slot_fork) else Inr ())"

definition builder_ids_of :: "BuilderInfo \<Rightarrow> string list" where
  "builder_ids_of info = (case bi_builder_id info of Some i \<Rightarrow> [i] | None \<Rightarrow> []) @
     (case bi_builder_ids info of Some ids \<Rightarrow> ids | None \<Rightarrow> [])"

definition check_if_trusted_builder :: "BuilderInfo \<Rightarrow> SlotData \<Rightarrow> (BlockValidationError, unit) Result" where
  "check_if_trusted_builder info slot_data =
     (case vp_trusted_builders (ri_preferences (ve_entry (sl_registration_data slot_data))) of
        None \<Rightarrow> Inr ()
      | Some trusted \<Rightarrow>
          if trusted = [] then Inr ()
          else if list_ex (\<lambda>i. i \<in> set trusted) (builder_ids_of info) then Inr ()
          else Inl (BuilderNotInProposersTrustedList trusted))"

definition registration_of :: "SlotData \<Rightarrow> ValidatorRegistrationData" where
  "registration_of slot_data = svr_message (ri_registration (ve_entry (sl_registration_data slot_data)))"

definition validate_submission_data ::
  "'b auction_env \<Rightarrow> Submission \<Rightarrow> ForkName \<Rightarrow> B256 option \<Rightarrow> SlotData \<Rightarrow> PayloadAttributesUpdate \<Rightarrow>
   (BlockValidationError, unit) Result" where
  "validate_submission_data env payload decoded_fork root slot_data attrs =
     (let registration = registration_of slot_data;
          t = bid_trace payload;
          a = pu_payload_attributes attrs;
          x = ae_x env
      in and_then (check_submission_fork decoded_fork (sl_current_fork slot_data)) (\<lambda>_.
         and_then (validate x payload) (\<lambda>_.
         and_then (ensure (pa_timestamp a = sub_timestamp x payload)
           (IncorrectTimestamp (sub_timestamp x payload) (pa_timestamp a))) (\<lambda>_.
         and_then (ensure (ae_local_dev env \<or> vr_fee_recipient registration = bt_proposer_fee_recipient t)
           (FeeRecipientMismatch (bt_proposer_fee_recipient t) (vr_fee_recipient registration))) (\<lambda>_.
         and_then (ensure (vr_pubkey registration = bt_proposer_pubkey t)
           (ProposerPublicKeyMismatch (bt_proposer_pubkey t) (vr_pubkey registration))) (\<lambda>_.
         and_then (ensure (sub_prev_randao x payload = pa_prev_randao a)
           (PrevRandaoMismatch (sub_prev_randao x payload) (pa_prev_randao a))) (\<lambda>_.
         ensure (root = Some (pu_withdrawals_root attrs))
           (WithdrawalsRootMismatch (case root of Some r \<Rightarrow> r | None \<Rightarrow> 0)
              (pu_withdrawals_root attrs)))))))))"

definition trace_mismatch :: "'b Context \<Rightarrow> Submission \<Rightarrow> bool" where
  "trace_mismatch c submission =
     (let t = bid_trace submission in
      case submission of
        Full (SignedGloas _) \<Rightarrow>
          (case get_for_reveal (cx_gloas_payloads c) (bt_block_hash t) of
             Some stored \<Rightarrow> \<not> gloas_has_bid_trace stored t | None \<Rightarrow> False)
      | _ \<Rightarrow>
          (case map_of (cx_payloads c) (bt_block_hash t) of
             Some stored \<Rightarrow> \<not> has_bid_trace stored t | None \<Rightarrow> False))"

definition attributes_for :: "'b auction_env \<Rightarrow> SlotData \<Rightarrow> Submission \<Rightarrow> PayloadAttributesUpdate option" where
  "attributes_for env slot_data submission =
     (case submission of
        Full (SignedGloas g) \<Rightarrow>
          map_of (sl_payload_attributes_map slot_data)
            \<lparr>fk_parent_hash = bt_parent_hash (bid_trace submission),
             fk_parent_root = gt_parent_block_root (gs_message g)\<rparr>
      | _ \<Rightarrow> attrs_for_submission slot_data (bt_parent_hash (bid_trace submission))
               (sub_prev_randao (ae_x env) submission))"

text \<open>The submission must be hydratable, and keyed withdrawals take the root of the cache.\<close>

definition resolve_withdrawals ::
  "'b auction_env \<Rightarrow> clock \<Rightarrow> SubmissionData \<Rightarrow> 'b Context \<Rightarrow> (BlockValidationError, B256 option) Result" where
  "resolve_withdrawals env ck sd c =
     (case sd_submission sd of
        Dehydrated d \<Rightarrow>
          if \<not> can_hydrate (ae_x env) (cx_hydration_cache c) (ck_max_blobs ck) d then Inl CannotHydrate
          else Inr (case sd_withdrawals_root sd of
                      Some r \<Rightarrow> Some r | None \<Rightarrow> cached_withdrawals_root (cx_hydration_cache c) d)
      | Full _ \<Rightarrow> Inr (sd_withdrawals_root sd))"

text \<open>The version of the submission is recorded once it is fresh, also when a later check fails.\<close>

definition validate_submission ::
  "'b auction_env \<Rightarrow> clock \<Rightarrow> SubmissionData \<Rightarrow> BuilderInfo \<Rightarrow> SlotData \<Rightarrow>
   ('b, (BlockValidationError, PayloadAttributesUpdate) Result) act" where
  "validate_submission env ck sd info slot_data =
     (let submission = sd_submission sd; t = bid_trace submission; builder = bt_builder_pubkey t in
      hbind (hget (\<lambda>c. c)) (\<lambda>c.
      if bt_slot t \<noteq> cx_bid_slot c then hret (Inl (SubmissionForWrongSlot (cx_bid_slot c) (bt_slot t)))
      else if trace_mismatch c submission then hret (Inl (BidTraceMismatch (bt_block_hash t)))
      else (case attributes_for env slot_data submission of
        None \<Rightarrow> hret (Inl (UknnownParentHash (bt_parent_hash t)
                  (map (\<lambda>p. fk_parent_hash (fst p)) (sl_payload_attributes_map slot_data))))
      | Some attrs \<Rightarrow>
          (case resolve_withdrawals env ck sd c of
             Inl e \<Rightarrow> hret (Inl e)
           | Inr root \<Rightarrow>
               (case check_submission_version (cx_cache c) builder (cx_bid_slot c) (sd_version sd) of
                  Inl e \<Rightarrow> hret (Inl e)
                | Inr _ \<Rightarrow>
                    hseq (hset (\<lambda>c. c\<lparr>cx_cache := insert_submission_version builder (cx_bid_slot c)
                                         (sd_version sd) (cx_cache c)\<rparr>))
                    (hret (and_then (validate_submission_data env submission
                             (dp_fork_name (sd_decoder_params sd)) root slot_data attrs) (\<lambda>_.
                           and_then (check_if_trusted_builder info slot_data) (\<lambda>_. Inr attrs)))))))))"

text \<open>What an accepted submission satisfies.\<close>

definition trusted :: "BuilderInfo \<Rightarrow> SlotData \<Rightarrow> bool" where
  "trusted info slot_data \<longleftrightarrow>
     (case vp_trusted_builders (ri_preferences (ve_entry (sl_registration_data slot_data))) of
        None \<Rightarrow> True | Some l \<Rightarrow> l = [] \<or> set (builder_ids_of info) \<inter> set l \<noteq> {})"

definition names_attributes :: "'b auction_env \<Rightarrow> SlotData \<Rightarrow> Submission \<Rightarrow> PayloadAttributesUpdate \<Rightarrow> bool" where
  "names_attributes env slot_data s attrs \<longleftrightarrow>
     attrs \<in> snd ` set (sl_payload_attributes_map slot_data) \<and>
     pa_timestamp (pu_payload_attributes attrs) = sub_timestamp (ae_x env) s \<and>
     pa_prev_randao (pu_payload_attributes attrs) = sub_prev_randao (ae_x env) s"

definition pays_proposer :: "'b auction_env \<Rightarrow> SlotData \<Rightarrow> BidTrace \<Rightarrow> bool" where
  "pays_proposer env slot_data t \<longleftrightarrow>
     vr_pubkey (registration_of slot_data) = bt_proposer_pubkey t \<and>
     (ae_local_dev env \<or> vr_fee_recipient (registration_of slot_data) = bt_proposer_fee_recipient t) \<and>
     bt_value t \<noteq> 0"

definition newer_than_seen :: "LocalCache \<Rightarrow> Slot \<Rightarrow> BlsPublicKeyBytes \<Rightarrow> SubmissionVersion \<Rightarrow> bool" where
  "newer_than_seen cache slot builder v \<longleftrightarrow>
     (\<forall>w. map_of (lc_submission_versions cache) builder = Some (slot, w) \<longrightarrow> version_gt v w)"

definition sample_env :: "unit auction_env" where
  "sample_env = \<lparr>ae_x = sample_externals, ae_signer = sample_signer, ae_fork_at_slot = (\<lambda>_. Gloas),
     ae_local_dev = False,
     ae_merging = \<lparr>bmc_is_enabled = True, bmc_max_merged_bid_age_ms = 100, bmc_max_merged_bid_age_ms_by_builder = [],
       bmc_mark_all_txs_mergeable = False, bmc_serve_merged_headers = True, bmc_serve_merged_headers_allowlist = {},
       bmc_merge_data_denylist = {}, bmc_tcp = None\<rparr>,
     ae_operator = False, ae_builder_msg = (\<lambda>_. []), ae_sim_msg = (\<lambda>_. []), ae_ssz_msg = (\<lambda>_. []),
     ae_try_adjust = (\<lambda>_ _ _ _. None), ae_adjust_new_slot = (\<lambda>_ _. ())\<rparr>"

definition sample_clock :: clock where
  "sample_clock = \<lparr>ck_now = 1, ck_ns = 1, ck_elapsed = 0, ck_max_blobs = 6, ck_uuid = 9\<rparr>"

definition sample_attrs :: PayloadAttributesUpdate where
  "sample_attrs = \<lparr>pu_slot = 7, pu_parent_hash = 5, pu_withdrawals_root = 11, pu_payload_attributes =
     \<lparr>pa_timestamp = 1000, pa_prev_randao = 8, pa_suggested_fee_recipient = [], pa_withdrawals = [],
      pa_parent_beacon_block_root = Some 6\<rparr>\<rparr>"

definition sample_validator :: BuilderGetValidatorsResponseEntry where
  "sample_validator = \<lparr>ve_slot = 7, ve_validator_index = 3, ve_entry =
     \<lparr>ri_registration = \<lparr>svr_message = \<lparr>vr_fee_recipient = 3, vr_gas_limit = 30, vr_timestamp = 1, vr_pubkey = 2\<rparr>,
        svr_signature = 0\<rparr>, ri_preferences = default_preferences\<rparr>\<rparr>"

definition sample_slot_data :: SlotData where
  "sample_slot_data = \<lparr>sl_bid_slot = 7, sl_registration_data = sample_validator,
     sl_payload_attributes_map = [(attrs_fork sample_attrs, sample_attrs)], sl_current_fork = Gloas, sl_il = None\<rparr>"

definition sample_data :: SubmissionData where
  "sample_data = \<lparr>sd_submission_id = 1, sd_submission_ref = SubmissionRef_http 1,
     sd_submission = Full (SignedGloas \<lparr>gs_message = \<lparr>gt_trace = sample_trace, gt_parent_block_root = 6\<rparr>,
       gs_bytes = [], gs_blobs_offset = 0, gs_requests_offset = 0\<rparr>),
     sd_merging_data = None, sd_bid_adjustment_data = None,
     sd_version = \<lparr>on_receive_ns = 1, sequence = None\<rparr>, sd_withdrawals_root = Some 11,
     sd_trace = \<lparr>st_receive_ns = 1, st_read_body_ns = 2, st_decoded_ns = 3, st_metadata = []\<rparr>,
     sd_decoder_params = plain_params Gloas, sd_is_pessimistic = False\<rparr>"

definition sample_context :: "unit Context" where
  "sample_context = (Context_new False () (Simulators_new []) LocalCache_new True 4)\<lparr>cx_bid_slot := 7\<rparr>"

section \<open>Lemmas\<close>

lemma check_if_trusted_builder_Inr: "check_if_trusted_builder info sd = Inr u \<longleftrightarrow> trusted info sd"
  by (auto simp: check_if_trusted_builder_def trusted_def list_ex_iff disjoint_iff split: option.splits)

lemma find_mem: "find P xs = Some y \<Longrightarrow> y \<in> set xs"
  by (auto simp: find_Some_iff)

lemma attrs_for_submission_mem:
  assumes "attrs_for_submission sd h r = Some a"
  shows "a \<in> snd ` set (sl_payload_attributes_map sd)"
proof -
  define xs where "xs = filter (\<lambda>a. pu_parent_hash a = h) (map snd (sl_payload_attributes_map sd))"
  have "a \<in> set xs"
    using assms unfolding attrs_for_submission_def xs_def [symmetric]
    by (cases xs) (auto split: if_splits option.splits dest: find_mem)
  then show ?thesis by (auto simp: xs_def)
qed

lemma attributes_for_mem:
  assumes "attributes_for env sd s = Some a"
  shows "a \<in> snd ` set (sl_payload_attributes_map sd)"
proof -
  have "(k, a) \<in> set m \<Longrightarrow> a \<in> snd ` set m" for k :: ForkKey and m by force
  then show ?thesis using assms unfolding attributes_for_def
    by (auto split: Submission.splits SignedBidSubmission.splits dest: attrs_for_submission_mem map_of_SomeD)
qed

lemma check_submission_version_Inr:
  "check_submission_version cache k slot v = Inr u \<longleftrightarrow> newer_than_seen cache slot k v"
  by (auto simp: check_submission_version_def newer_than_seen_def version_gt_iff split: option.splits)

lemma validate_submission_data_Inr:
  "validate_submission_data env s f root sd a = Inr u \<longleftrightarrow>
     f = sl_current_fork sd \<and> validate (ae_x env) s = Inr () \<and>
     pa_timestamp (pu_payload_attributes a) = sub_timestamp (ae_x env) s \<and>
     (ae_local_dev env \<or> vr_fee_recipient (registration_of sd) = bt_proposer_fee_recipient (bid_trace s)) \<and>
     vr_pubkey (registration_of sd) = bt_proposer_pubkey (bid_trace s) \<and>
     sub_prev_randao (ae_x env) s = pa_prev_randao (pu_payload_attributes a) \<and>
     root = Some (pu_withdrawals_root a)"
  by (simp add: validate_submission_data_def Let_def and_then_eq_Inr check_submission_fork_def)

section \<open>Properties\<close>


lemmas sample_eval = sample_env_def sample_clock_def sample_data_def sample_slot_data_def sample_context_def
  sample_attrs_def sample_validator_def sample_externals_def sample_trace_def plain_params_def
  default_preferences_def default_builder_info_def LocalCache_new_def Context_new_def store_with_capacity_def
  bid_trace_def signed_bid_trace_def trace_mismatch_def get_for_reveal_def attributes_for_def attrs_fork_def
  parent_root_def resolve_withdrawals_def check_submission_version_def validate_submission_data_def
  registration_of_def check_submission_fork_def validate_def validate_gloas_def check_trace_def ensure_def
  sub_timestamp_def sub_prev_randao_def signed_timestamp_def signed_prev_randao_def Let_def
  check_if_trusted_builder_def insert_submission_version_def SubmissionRef_http_def


end
