(* ===== verification/Submit_Block.thy ===== *)
theory Submit_Block
  imports Validation
begin

text \<open>
  What the auctioneer does with a submission and with the result of its simulation
  (\<open>crates/relay/src/auctioneer/submit_block.rs\<close>).
\<close>

section \<open>Steps of a submission\<close>

definition sim_priority :: "bool \<Rightarrow> bool \<Rightarrow> SimPriority" where
  "sim_priority is_top_bid is_optimistic = (if is_top_bid then Top else if is_optimistic then Sample else Low)"

definition should_process_optimistically :: "bool \<Rightarrow> U256 \<Rightarrow> BuilderInfo \<Rightarrow> SlotData \<Rightarrow> bool" where
  "should_process_optimistically is_pessimistic bid_val info slot_data =
     (let preferences = ri_preferences (ve_entry (sl_registration_data slot_data)) in
      \<not> is_pessimistic \<and> \<not> vp_disable_optimistic preferences \<and> bi_is_optimistic info \<and>
      bid_val \<le> bi_collateral info \<and>
      (\<not> is_regional (vp_filtering preferences) \<or> can_process_regional_slot_optimistically info))"

definition sort_into :: "clock \<Rightarrow> Bid \<Rightarrow> ('b, bool) act" where
  "sort_into ck bid =
     hbind (hget (\<lambda>c. sort_bid (ck_ns ck) (ck_elapsed ck) bid (cx_bid_sorter c))) (\<lambda>res.
     case res of
       None \<Rightarrow> hpanic
     | Some (sorter, is_top, updates) \<Rightarrow>
         hseq (hset (\<lambda>c. c\<lparr>cx_bid_sorter := sorter\<rparr>))
         (hseq (hsend (map TopBid updates)) (hret is_top)))"

definition send_to_sim :: "'b auction_env \<Rightarrow> clock \<Rightarrow> ValidationRequest \<Rightarrow> bool \<Rightarrow> ('b, unit) act" where
  "send_to_sim env ck req fast_track =
     hbind (hget (\<lambda>c. dispatch (ae_x env) (ck_now ck) req fast_track (cx_sims c))) (\<lambda>res.
     case res of
       None \<Rightarrow> hpanic
     | Some (started, sims) \<Rightarrow>
         hseq (hset (\<lambda>c. c\<lparr>cx_sims := sims\<rparr>))
         (hsend (case started of Some s \<Rightarrow> [SimStartedMsg s] | None \<Rightarrow> [])))"

definition record_submission ::
  "clock \<Rightarrow> SignedBidSubmission \<Rightarrow> SubmissionTrace \<Rightarrow> bool \<Rightarrow> bool \<Rightarrow> Uuid \<Rightarrow> ('b, unit) act" where
  "record_submission ck submission trace is_optimistic adjusted submission_id =
     hseq (hsend (if is_optimistic then [BidLive submission_id (bt_block_hash (signed_bid_trace submission))] else []))
       (hsend [DbStoreSubmission \<lparr>ds_submission = submission, ds_trace = trace,
          ds_optimistic_version = (if is_optimistic then V1 else NotOptimistic),
          ds_is_adjusted = adjusted, ds_live_ts = (if is_optimistic then Some (ck_ns ck) else None)\<rparr>])"

definition store_data :: "clock \<Rightarrow> PayloadEntry \<Rightarrow> bool \<Rightarrow> Uuid \<Rightarrow> ('b, unit) act" where
  "store_data ck entry is_optimistic submission_id =
     hseq (case entry of
             EntrySubmission s \<Rightarrow>
               record_submission ck (SignedFulu (sp_signed_bid_submission s)) (sp_submission_trace s) is_optimistic
                 (is_adjusted entry) submission_id
           | EntryGossip _ \<Rightarrow> hret ())
       (hset (\<lambda>c. c\<lparr>cx_payloads := AList.update (entry_block_hash entry) entry (cx_payloads c)\<rparr>))"

definition try_adjustments_dry_run ::
  "'b auction_env \<Rightarrow> clock \<Rightarrow> PayloadEntry \<Rightarrow> SlotData \<Rightarrow> ('b, unit) act" where
  "try_adjustments_dry_run env ck entry slot_data =
     hbind (hget (\<lambda>c. \<not> cx_completed_dry_run c \<and> is_adjustable entry \<and> lc_adjustments_enabled (cx_cache c))) (\<lambda>try.
     if \<not> try then hret ()
     else hbind (hget (\<lambda>c. ae_try_adjust env (cx_bid_adjustor c) entry slot_data True)) (\<lambda>res.
       case res of
         None \<Rightarrow> hret ()
       | Some (adjusted_block, sim_request, _) \<Rightarrow>
           hseq (hset (\<lambda>c. c\<lparr>cx_completed_dry_run := True\<rparr>))
           (hseq (store_data ck adjusted_block (vr_is_optimistic sim_request) (vr_submission_id sim_request))
           (send_to_sim env ck sim_request True))))"

definition hydrate_submission ::
  "'b auction_env \<Rightarrow> clock \<Rightarrow> Submission \<Rightarrow> ('b, (BuilderApiError, SignedBidSubmission \<times> B256 option) Result) act" where
  "hydrate_submission env ck submission =
     (case submission of
        Full full \<Rightarrow> hret (Inr (full, None))
      | Dehydrated d \<Rightarrow>
          hbind (hget (\<lambda>c. hydrate (ae_x env) (ck_max_blobs ck) d (cx_hydration_cache c))) (\<lambda>res.
          case res of
            None \<Rightarrow> hpanic
          | Some (r, cache) \<Rightarrow>
              hseq (hset (\<lambda>c. c\<lparr>cx_hydration_cache := cache\<rparr>))
              (hret (and_then (map_err BuilderHydrationError r) (\<lambda>h.
                 and_then (map_err BidValidation (validate_payload_ssz_lengths (ae_x env) (hd_submission h)
                             (ck_max_blobs ck))) (\<lambda>_.
                 Inr (SignedFulu (hd_submission h), hd_tx_root h)))))))"

definition validation_request ::
  "SubmissionData \<Rightarrow> SlotData \<Rightarrow> PayloadAttributesUpdate \<Rightarrow> bool \<Rightarrow> bool \<Rightarrow> SignedBidSubmission \<Rightarrow> B256 option \<Rightarrow>
   ValidationRequest" where
  "validation_request sd slot_data attrs is_top_bid is_optimistic submission tx_root =
     (let entry = ve_entry (sl_registration_data slot_data) in
      \<lparr>vr_submission_id = sd_submission_id sd, vr_priority = sim_priority is_top_bid is_optimistic,
       vr_is_top_bid = is_top_bid, vr_is_optimistic = is_optimistic,
       vr_apply_blacklist = is_regional (vp_filtering (ri_preferences entry)),
       vr_registered_gas_limit = vr_gas_limit (svr_message (ri_registration entry)),
       vr_parent_beacon_block_root = parent_root attrs,
       vr_inclusion_list = (case sl_il slot_data of Some il \<Rightarrow> il | None \<Rightarrow> []),
       vr_submission = submission, vr_tx_root = tx_root, vr_version = sd_version sd, vr_trace = sd_trace sd,
       vr_receive_ns = st_receive_ns (sd_trace sd), vr_submission_ref = sd_submission_ref sd\<rparr>)"

section \<open>A submission\<close>

definition sort_or_compare ::
  "clock \<Rightarrow> SubmissionData \<Rightarrow> BuilderInfo \<Rightarrow> SlotData \<Rightarrow> PayloadAttributesUpdate \<Rightarrow> Bid \<Rightarrow> ('b, bool \<times> bool) act" where
  "sort_or_compare ck sd info slot_data attrs bid =
     hbind (hget (\<lambda>c. sm_accept_optimistic (cx_sims c) \<and> \<not> cx_failsafe_triggered c \<and>
       should_process_optimistically (sd_is_pessimistic sd) (bid_value bid) info slot_data)) (\<lambda>optimistic.
     if optimistic then hbind (sort_into ck bid) (\<lambda>is_top. hret (True, is_top))
     else hbind (hget (\<lambda>c. top_bid_value (cx_bid_sorter c) (attrs_fork attrs))) (\<lambda>best.
            hret (False, case best of None \<Rightarrow> True | Some v \<Rightarrow> bid_value bid > v)))"

definition store_submission ::
  "'b auction_env \<Rightarrow> clock \<Rightarrow> SubmissionData \<Rightarrow> SlotData \<Rightarrow> PayloadAttributesUpdate \<Rightarrow> bool \<Rightarrow> SignedBidSubmission \<Rightarrow>
   B256 option \<Rightarrow> ('b, unit) act" where
  "store_submission env ck sd slot_data attrs is_optimistic submission tx_root =
     (case submission of
        SignedFulu f \<Rightarrow>
          (let entry = new_submission f (pu_withdrawals_root attrs) tx_root (sd_bid_adjustment_data sd)
                 (sd_version sd) (sd_trace sd) (pa_parent_beacon_block_root (pu_payload_attributes attrs))
           in hseq (try_adjustments_dry_run env ck entry slot_data)
                (store_data ck entry is_optimistic (sd_submission_id sd)))
      | SignedGloas g \<Rightarrow>
          (let entry = GloasPayload_new (ae_x env) g (vr_fee_recipient (registration_of slot_data))
           in hseq (record_submission ck (SignedGloas (gp_submission entry)) (sd_trace sd) is_optimistic False
                      (sd_submission_id sd))
                (hset (\<lambda>c. c\<lparr>cx_gloas_payloads := store_insert
                   (bt_block_hash (gt_trace (gs_message (gp_submission entry)))) entry (cx_gloas_payloads c)\<rparr>))))"

text \<open>A submission that failed validation still feeds the hydration cache.\<close>

definition reject_submission :: "'b auction_env \<Rightarrow> SubmissionData \<Rightarrow> BlockValidationError \<Rightarrow> ('b, unit) act" where
  "reject_submission env sd e =
     hseq (case sd_submission sd of
             Dehydrated d \<Rightarrow> hset (\<lambda>c. c\<lparr>cx_hydration_cache := feed (ae_x env) d (cx_hydration_cache c)\<rparr>)
           | Full _ \<Rightarrow> hret ())
     (send_submission_result env (sd_submission_id sd) (sd_submission_ref sd) (Inl (BidValidation e)))"

definition enter_auction ::
  "'b auction_env \<Rightarrow> clock \<Rightarrow> SubmissionData \<Rightarrow> SlotData \<Rightarrow> PayloadAttributesUpdate \<Rightarrow> bool \<Rightarrow> bool \<Rightarrow> ('b, unit) act" where
  "enter_auction env ck sd slot_data attrs is_optimistic is_top_bid =
     hbind (hydrate_submission env ck (sd_submission sd)) (\<lambda>hydrated.
     case hydrated of
       Inl _ \<Rightarrow> send_submission_result env (sd_submission_id sd) (sd_submission_ref sd) (Inl BuilderInternalError)
     | Inr (submission, tx_root) \<Rightarrow>
         hseq (if is_optimistic
               then send_submission_result env (sd_submission_id sd) (sd_submission_ref sd) (Inr ()) else hret ())
         (hseq (send_to_sim env ck
                 (validation_request sd slot_data attrs is_top_bid is_optimistic submission tx_root) False)
         (store_submission env ck sd slot_data attrs is_optimistic submission tx_root)))"

definition handle_submission :: "'b auction_env \<Rightarrow> clock \<Rightarrow> SubmissionData \<Rightarrow> SlotData \<Rightarrow> ('b, unit) act" where
  "handle_submission env ck sd slot_data =
     hbind (hget (\<lambda>c. builder_info c (bt_builder_pubkey (bid_trace (sd_submission sd))))) (\<lambda>info.
     hbind (validate_submission env ck sd info slot_data) (\<lambda>validated.
     case validated of
       Inl e \<Rightarrow> reject_submission env sd e
     | Inr attrs \<Rightarrow>
         hbind (sort_or_compare ck sd info slot_data attrs (Bid_from_submission_data (ae_x env) sd (parent_root attrs)))
           (\<lambda>(is_optimistic, is_top_bid). enter_auction env ck sd slot_data attrs is_optimistic is_top_bid)))"

section \<open>A simulation result of the slot\<close>

definition demote_in_sorter :: "clock \<Rightarrow> BlsPublicKeyBytes \<Rightarrow> ('b, unit) act" where
  "demote_in_sorter ck builder =
     hbind (hget (\<lambda>c. demote (ck_ns ck) builder (cx_bid_sorter c))) (\<lambda>(sorter, updates).
     hseq (hset (\<lambda>c. c\<lparr>cx_bid_sorter := sorter\<rparr>)) (hsend (map TopBid updates)))"

definition sort_simulation_result ::
  "'b auction_env \<Rightarrow> clock \<Rightarrow> SimulationResultInner option \<Rightarrow> ('b, bool) act" where
  "sort_simulation_result env ck result =
     (case result of
        None \<Rightarrow> hret False
      | Some r \<Rightarrow>
          (let need_send_result = \<not> is_optimistic_version (sri_optimistic_version r);
               send = (\<lambda>res. if need_send_result
                 then send_submission_result env (sri_submission_id r) (sri_submission_ref r) res else hret ())
           in hseq
             (case sri_result r of
                Inl err \<Rightarrow>
                  if is_demotable err then
                    hseq (case sri_bid r of Some bid \<Rightarrow> demote_in_sorter ck (bid_builder_pubkey bid) | None \<Rightarrow> hret ())
                    (send (Inl (BlockSimulation err)))
                  else send (Inl BuilderInternalError)
              | Inr trace \<Rightarrow>
                  (case sri_bid r of
                     None \<Rightarrow> hpanic
                   | Some bid \<Rightarrow>
                       hseq (sort_into ck bid)
                       (hseq (hsend (if need_send_result
                               then [BidLive (sri_submission_id r) (bid_block_hash bid),
                                     DbLiveTs (bid_slot bid) (bid_block_hash bid) (ck_ns ck)] else []))
                       (send (Inr ())))))
             (hret need_send_result)))"

end
