(* ===== verification/Proposer_Handlers.thy ===== *)
theory Proposer_Handlers
  imports Submit_Block
begin

text \<open>
  The requests of proposers as the auctioneer serves them: headers
  (\<open>crates/relay/src/auctioneer/get_header.rs\<close>), payloads (\<open>get_payload.rs\<close>) and execution payload bids
  (\<open>get_execution_payload_bid.rs\<close>).  A payload is unblinded only for a block whose header is the header
  of the stored payload.
\<close>

section \<open>Parameters\<close>

record GetHeaderParams =
  hp_slot :: u64
  hp_parent_hash :: B256
  hp_pubkey :: BlsPublicKeyBytes

record GetExecutionPayloadBidParams =
  xp_slot :: u64
  xp_parent_hash :: B256
  xp_parent_root :: B256
  xp_proposer_pubkey :: BlsPublicKeyBytes

record BroadcastPayloadParams =
  bp_execution_payload :: PayloadAndBlobs
  bp_slot :: u64
  bp_proposer_pub_key :: BlsPublicKeyBytes
  bp_bid_data :: PayloadBidData

section \<open>Headers\<close>

definition context_get_header ::
  "'b auction_env \<Rightarrow> clock \<Rightarrow> B256 \<Rightarrow> SlotData \<Rightarrow> bool \<Rightarrow> ('b, (ProposerApiError, PayloadEntry) Result) act" where
  "context_get_header env ck parent_hash slot_data is_mev_boost =
     hbind (hget (\<lambda>c. Option.bind (fork_for_parent_hash slot_data parent_hash) (sorter_get_header (cx_bid_sorter c))))
       (\<lambda>best.
     case best of
       None \<Rightarrow> hret (Inl NoBidPrepared)
     | Some best_block_hash \<Rightarrow>
         hbind (hget (\<lambda>c. map_of (cx_payloads c) best_block_hash)) (\<lambda>found.
         case found of
           None \<Rightarrow> hret (Inl NoBidPrepared)
         | Some original_bid \<Rightarrow>
             hbind (hget (\<lambda>c. merger_get_header (ae_merging env) (ck_ns ck) original_bid is_mev_boost
                 (cx_block_merger c) (cx_cache c))) (\<lambda>res.
             case res of
               None \<Rightarrow> hpanic
             | Some (merged, merger, cache) \<Rightarrow>
                 hseq (hset (\<lambda>c. c\<lparr>cx_block_merger := merger, cx_cache := cache\<rparr>))
                 (case merged of
                    Some merged_bid \<Rightarrow> hret (Inr merged_bid)
                  | None \<Rightarrow>
                      hbind (hget (\<lambda>c. if lc_adjustments_enabled (cx_cache c)
                          then ae_try_adjust env (cx_bid_adjustor c) original_bid slot_data False else None)) (\<lambda>adjusted.
                      case adjusted of
                        None \<Rightarrow> hret (Inr original_bid)
                      | Some (adjusted_bid, sim_request, is_adjustable_slot) \<Rightarrow>
                          hseq (store_data ck adjusted_bid (vr_is_optimistic sim_request) (vr_submission_id sim_request))
                          (hseq (send_to_sim env ck sim_request True)
                          (hret (Inr (if is_adjustable_slot then adjusted_bid else original_bid)))))))))"

definition handle_get_header ::
  "'b auction_env \<Rightarrow> clock \<Rightarrow> GetHeaderParams \<Rightarrow> SlotData \<Rightarrow> res_tx \<Rightarrow> bool \<Rightarrow> ('b, unit) act" where
  "handle_get_header env ck params slot_data tx is_mev_boost =
     hbind (hget cx_bid_slot) (\<lambda>slot.
     if hp_slot params \<noteq> slot then hpanic
     else hbind (context_get_header env ck (hp_parent_hash params) slot_data is_mev_boost) (\<lambda>res.
            hsend [HeaderReply tx res]))"

section \<open>Execution payload bids\<close>

definition check_execution_payload_bid_liveness ::
  "GetExecutionPayloadBidParams \<Rightarrow> SlotData \<Rightarrow> (ProposerApiError, ForkKey) Result" where
  "check_execution_payload_bid_liveness params slot_data =
     (let expected = proposer_pubkey slot_data;
          fork = \<lparr>fk_parent_hash = xp_parent_hash params, fk_parent_root = xp_parent_root params\<rparr>
      in if xp_slot params \<noteq> sl_bid_slot slot_data
         then Inl (BidRequestSlotMismatch (sl_bid_slot slot_data) (xp_slot params))
         else if xp_proposer_pubkey params \<noteq> expected
         then Inl (UnexpectedProposerPubkey expected (xp_proposer_pubkey params))
         else if map_of (sl_payload_attributes_map slot_data) fork = None then Inl NoBidPrepared
         else Inr fork)"

definition handle_get_execution_payload_bid ::
  "'b auction_env \<Rightarrow> GetExecutionPayloadBidParams \<Rightarrow> SlotData \<Rightarrow> res_tx \<Rightarrow> ('b, unit) act" where
  "handle_get_execution_payload_bid env params slot_data tx =
     hbind (hget (\<lambda>c. and_then (check_execution_payload_bid_liveness params slot_data) (\<lambda>fork.
       case Option.bind (sorter_get_header (cx_bid_sorter c) fork) (store_get (cx_gloas_payloads c)) of
         None \<Rightarrow> Inl NoBidPrepared
       | Some entry \<Rightarrow>
           (case sign_bid (ae_signer env) (cx_gloas_builder_identity c) (gp_bid entry) of
              None \<Rightarrow> Inl NoBidPrepared | Some bid \<Rightarrow> Inr bid)))) (\<lambda>res. hsend [BidReply tx res])"

section \<open>Payloads\<close>

definition handle_gossip_payload :: "BroadcastPayloadParams \<Rightarrow> SlotData \<Rightarrow> ('b, unit) act" where
  "handle_gossip_payload payload slot_data =
     hset (\<lambda>c.
       if cx_bid_slot c \<noteq> bp_slot payload then c
       else if proposer_pubkey slot_data \<noteq> bp_proposer_pub_key payload then c
       else (let block_hash = ep_block_hash (pb_execution_payload (bp_execution_payload payload)) in
             case map_of (cx_payloads c) block_hash of
               Some _ \<Rightarrow> c
             | None \<Rightarrow> c\<lparr>cx_payloads := AList.update block_hash
                 (new_gossip (bp_execution_payload payload) (bp_bid_data payload)) (cx_payloads c)\<rparr>))"

definition validate_proposal_coordinate ::
  "Slot \<Rightarrow> SignedBlindedBeaconBlock \<Rightarrow> SlotData \<Rightarrow> (ProposerApiError, unit) Result" where
  "validate_proposal_coordinate slot blinded slot_data =
     (let slot_duty = sl_registration_data slot_data in
      and_then (ensure (ve_validator_index slot_duty = bk_proposer_index blinded)
        (UnexpectedProposerIndex (ve_validator_index slot_duty) (bk_proposer_index blinded))) (\<lambda>_.
      and_then (ensure (slot = ve_slot slot_duty)
        (InternalSlotMismatchesWithSlotDuty slot (ve_slot slot_duty))) (\<lambda>_.
      ensure (ve_slot slot_duty = bk_slot blinded)
        (InvalidBlindedBlockSlot (ve_slot slot_duty) (bk_slot blinded)))))"

definition to_header :: "externals \<Rightarrow> ExecutionPayload \<Rightarrow> B256 option \<Rightarrow> B256 option \<Rightarrow> ExecutionPayloadHeader" where
  "to_header x p wr tr =
     \<lparr>eh_parent_hash = ep_parent_hash p, eh_fee_recipient = ep_fee_recipient p, eh_state_root = ep_state_root p,
      eh_receipts_root = ep_receipts_root p, eh_logs_bloom = ep_logs_bloom p, eh_prev_randao = ep_prev_randao p,
      eh_block_number = ep_block_number p, eh_gas_limit = ep_gas_limit p, eh_gas_used = ep_gas_used p,
      eh_timestamp = ep_timestamp p, eh_extra_data = ep_extra_data p,
      eh_base_fee_per_gas = ep_base_fee_per_gas p, eh_block_hash = ep_block_hash p,
      eh_transactions_root = (case tr of Some r \<Rightarrow> r | None \<Rightarrow> transaction_root x p),
      eh_withdrawals_root = (case wr of Some r \<Rightarrow> r | None \<Rightarrow> withdrawals_root x (ep_withdrawals p)),
      eh_blob_gas_used = ep_blob_gas_used p, eh_excess_blob_gas = ep_excess_blob_gas p\<rparr>"

text \<open>The conversions to the consensus client's types refuse byte lists longer than their bounds; the
  text of that error is the client's.\<close>

definition to_lighthouse_fulu_header ::
  "externals \<Rightarrow> ExecutionPayloadHeader \<Rightarrow> (SszError, ExecutionPayloadHeader) Result" where
  "to_lighthouse_fulu_header x h =
     (if length (eh_extra_data h) \<le> max_extra_data_bytes x then Inr h
      else Inl (InvalidByteCount (length (eh_extra_data h)) (max_extra_data_bytes x)))"

fun convert_transactions_to_lighthouse :: "externals \<Rightarrow> Transaction list \<Rightarrow> (SszError, unit) Result" where
  "convert_transactions_to_lighthouse x [] = Inr ()"
| "convert_transactions_to_lighthouse x (tx # txs) =
     (if length tx \<le> max_bytes_per_transaction x then convert_transactions_to_lighthouse x txs
      else Inl (InvalidByteCount (length tx) (max_bytes_per_transaction x)))"

definition to_lighthouse_fulu_payload :: "externals \<Rightarrow> ExecutionPayload \<Rightarrow> (SszError, ExecutionPayload) Result" where
  "to_lighthouse_fulu_payload x p =
     and_then (ensure (length (ep_extra_data p) \<le> max_extra_data_bytes x)
       (InvalidByteCount (length (ep_extra_data p)) (max_extra_data_bytes x))) (\<lambda>_.
     and_then (convert_transactions_to_lighthouse x (ep_transactions p)) (\<lambda>_.
     and_then (ensure (length (ep_transactions p) \<le> max_transactions_per_payload x)
       (InvalidByteCount (length (ep_transactions p)) (max_transactions_per_payload x))) (\<lambda>_.
     Inr p)))"

definition unblind ::
  "externals \<Rightarrow> (SszError \<Rightarrow> string) \<Rightarrow> SignedBlindedBeaconBlock \<Rightarrow> PayloadAndBlobs \<Rightarrow> SlotData \<Rightarrow>
   (ProposerApiError, GetPayloadResponse \<times> VersionedSignedProposal) Result" where
  "unblind x msg blinded local_payload slot_data =
     (if bk_fork blinded \<noteq> Fulu then Inl UnsupportedBeaconChainVersion
      else
        (let payload = pb_execution_payload local_payload; blobs = pb_blobs_bundle local_payload;
             ssz = (\<lambda>e. ProposerSszError (msg e))
         in and_then (map_err ssz (to_lighthouse_fulu_header x (to_header x payload None None))) (\<lambda>header.
            and_then (ensure (header = bk_execution_payload blinded) BlindedBlockAndPayloadHeaderMismatch) (\<lambda>_.
            and_then (ensure (bb_commitments blobs = bk_blob_kzg_commitments blinded) BlobKzgCommitmentsMismatch) (\<lambda>_.
            and_then (ensure (length (bk_blob_kzg_commitments blinded) = length (bb_blobs blobs))
              BlindedBlobsBundleLengthMismatch) (\<lambda>_.
            and_then (map_err ssz (to_lighthouse_fulu_payload x payload)) (\<lambda>lh_payload.
            Inr (\<lparr>gr_version = sl_current_fork slot_data, gr_data = local_payload\<rparr>,
                 \<lparr>sp_signed_block =
                    \<lparr>bk_fork = Fulu, bk_slot = bk_slot blinded, bk_proposer_index = bk_proposer_index blinded,
                     bk_parent_root = bk_parent_root blinded, bk_state_root = bk_state_root blinded,
                     bk_body_rest = bk_body_rest blinded, bk_execution_payload = lh_payload,
                     bk_blob_kzg_commitments = bk_blob_kzg_commitments blinded,
                     bk_signature = bk_signature blinded\<rparr>,
                  sp_kzg_proofs = bb_proofs blobs, sp_blobs = bb_blobs blobs\<rparr>)))))))) "

definition context_get_payload ::
  "externals \<Rightarrow> (SszError \<Rightarrow> string) \<Rightarrow> clock \<Rightarrow> Slot \<Rightarrow> SignedBlindedBeaconBlock \<Rightarrow> PayloadAndBlobs \<Rightarrow> GetPayloadTrace \<Rightarrow>
   SlotData \<Rightarrow> (ProposerApiError, GetPayloadResponse \<times> VersionedSignedProposal \<times> GetPayloadTrace) Result" where
  "context_get_payload x msg ck slot blinded local_payload trace slot_data =
     and_then (validate_proposal_coordinate slot blinded slot_data) (\<lambda>_.
     and_then (ensure (bk_fork blinded = sl_current_fork slot_data) UnsupportedBeaconChainVersion) (\<lambda>_.
     and_then (unblind x msg blinded local_payload slot_data) (\<lambda>(to_proposer, to_publish).
     Inr (to_proposer, to_publish, trace\<lparr>gpt_proposer_index_validated := ck_ns ck\<rparr>))))"

definition handle_get_payload ::
  "'b auction_env \<Rightarrow> clock \<Rightarrow> PayloadEntry \<Rightarrow> SignedBlindedBeaconBlock \<Rightarrow> GetPayloadTrace \<Rightarrow> res_tx \<Rightarrow> SlotData \<Rightarrow>
   ('b, B256 option) act" where
  "handle_get_payload env ck entry blinded trace tx slot_data =
     hbind (hget (\<lambda>c. context_get_payload (ae_x env) (ae_ssz_msg env) ck (cx_bid_slot c) blinded
         (payload_and_blobs entry) trace slot_data)) (\<lambda>res.
     case res of
       Inl err \<Rightarrow> hseq (hsend [PayloadReply tx (Inl err)]) (hret None)
     | Inr (to_proposer, to_publish, trace1) \<Rightarrow>
         hseq (hsend [PayloadReply tx (Inr
           \<lparr>gd_to_proposer = to_proposer, gd_to_publish = to_publish, gd_trace = trace1,
            gd_fork = sl_current_fork slot_data, gd_bid = bid_data_ref entry\<rparr>)])
         (hret (Some (ep_block_hash (pb_execution_payload (gr_data to_proposer))))))"

definition maybe_try_unblind :: "'b auction_env \<Rightarrow> clock \<Rightarrow> SlotData \<Rightarrow> ('b, B256 option) act" where
  "maybe_try_unblind env ck slot_data =
     hbind (hget cx_pending_payload) (\<lambda>pending.
     case pending of
       None \<Rightarrow> hret None
     | Some p \<Rightarrow>
         hbind (hget (\<lambda>c. map_of (cx_payloads c) (pp_block_hash p))) (\<lambda>found.
         case found of
           Some entry \<Rightarrow>
             hseq (hset (\<lambda>c. c\<lparr>cx_pending_payload := None\<rparr>))
             (handle_get_payload env ck entry (pp_blinded p) (pp_trace p) (pp_res_tx p) slot_data)
         | None \<Rightarrow> hret None))"

text \<open>When a payload may be delivered for a signed block, and what is delivered then.\<close>

definition fits_client :: "externals \<Rightarrow> ExecutionPayload \<Rightarrow> bool" where
  "fits_client x p \<longleftrightarrow> length (ep_extra_data p) \<le> max_extra_data_bytes x \<and>
     (\<forall>tx \<in> set (ep_transactions p). length tx \<le> max_bytes_per_transaction x) \<and>
     length (ep_transactions p) \<le> max_transactions_per_payload x"

definition deliverable :: "externals \<Rightarrow> Slot \<Rightarrow> SignedBlindedBeaconBlock \<Rightarrow> PayloadAndBlobs \<Rightarrow> SlotData \<Rightarrow> bool" where
  "deliverable x slot blinded p slot_data \<longleftrightarrow>
     bk_fork blinded = Fulu \<and> sl_current_fork slot_data = Fulu \<and>
     bk_slot blinded = slot \<and> ve_slot (sl_registration_data slot_data) = slot \<and>
     bk_proposer_index blinded = ve_validator_index (sl_registration_data slot_data) \<and>
     bk_execution_payload blinded = to_header x (pb_execution_payload p) None None \<and>
     bk_blob_kzg_commitments blinded = bb_commitments (pb_blobs_bundle p) \<and>
     length (bb_commitments (pb_blobs_bundle p)) = length (bb_blobs (pb_blobs_bundle p)) \<and>
     fits_client x (pb_execution_payload p)"

definition carries :: "SignedBlindedBeaconBlock \<Rightarrow> PayloadAndBlobs \<Rightarrow> GetPayloadResultData \<Rightarrow> bool" where
  "carries blinded p d \<longleftrightarrow>
     (let b = sp_signed_block (gd_to_publish d) in
      gr_data (gd_to_proposer d) = p \<and>
      bk_execution_payload b = pb_execution_payload p \<and>
      sp_blobs (gd_to_publish d) = bb_blobs (pb_blobs_bundle p) \<and>
      sp_kzg_proofs (gd_to_publish d) = bb_proofs (pb_blobs_bundle p) \<and>
      bk_blob_kzg_commitments b = bk_blob_kzg_commitments blinded \<and>
      bk_fork b = bk_fork blinded \<and> bk_slot b = bk_slot blinded \<and>
      bk_proposer_index b = bk_proposer_index blinded \<and> bk_parent_root b = bk_parent_root blinded \<and>
      bk_state_root b = bk_state_root blinded \<and> bk_body_rest b = bk_body_rest blinded \<and>
      bk_signature b = bk_signature blinded)"

section \<open>Lemmas\<close>

lemma convert_transactions_ok:
  "is_ok (convert_transactions_to_lighthouse x txs) \<longleftrightarrow> (\<forall>tx \<in> set txs. length tx \<le> max_bytes_per_transaction x)"
  by (induction x txs rule: convert_transactions_to_lighthouse.induct) (auto simp: is_ok_def)

lemma to_lighthouse_payload:
  "to_lighthouse_fulu_payload x p = Inr q \<longleftrightarrow> q = p \<and> fits_client x p"
  using convert_transactions_ok [of x "ep_transactions p"]
  by (auto simp: to_lighthouse_fulu_payload_def fits_client_def and_then_def ensure_def is_ok_def split: sum.splits)

lemma to_header_extra [simp]: "eh_extra_data (to_header x p w t) = ep_extra_data p"
  by (simp add: to_header_def)

lemma context_get_payload_Inr:
  "context_get_payload x msg ck slot blinded p tr sd = Inr (r, b, t) \<longleftrightarrow>
     deliverable x slot blinded p sd \<and> t = tr\<lparr>gpt_proposer_index_validated := ck_ns ck\<rparr> \<and>
     r = \<lparr>gr_version = Fulu, gr_data = p\<rparr> \<and>
     b = \<lparr>sp_signed_block = \<lparr>bk_fork = Fulu, bk_slot = bk_slot blinded, bk_proposer_index = bk_proposer_index blinded,
            bk_parent_root = bk_parent_root blinded, bk_state_root = bk_state_root blinded,
            bk_body_rest = bk_body_rest blinded, bk_execution_payload = pb_execution_payload p,
            bk_blob_kzg_commitments = bk_blob_kzg_commitments blinded, bk_signature = bk_signature blinded\<rparr>,
          sp_kzg_proofs = bb_proofs (pb_blobs_bundle p), sp_blobs = bb_blobs (pb_blobs_bundle p)\<rparr>"
proof -
  have "to_lighthouse_fulu_payload x (pb_execution_payload p) =
      (if fits_client x (pb_execution_payload p) then Inr (pb_execution_payload p)
       else to_lighthouse_fulu_payload x (pb_execution_payload p))"
    by (simp add: to_lighthouse_payload)
  then show ?thesis
    using to_lighthouse_payload [of x "pb_execution_payload p"]
    by (cases "to_lighthouse_fulu_payload x (pb_execution_payload p)")
      (auto simp: context_get_payload_def validate_proposal_coordinate_def unblind_def deliverable_def
        to_lighthouse_fulu_header_def and_then_def ensure_def map_err_def Let_def fits_client_def
        split: sum.splits if_splits)
qed

section \<open>Properties\<close>

text \<open>C3. A request for a payload gets exactly one reply and changes nothing.  The payload is delivered exactly
  when the signed block is for the slot under auction and its proposer, its header is the header of the
  stored payload, its commitments are those of the stored blobs, and the payload is within the consensus
  client's bounds.  What is delivered is the stored payload with its blobs, in a block with the
  signature and every other field of the signed one.\<close>

theorem delivered_payload:
  "\<exists>r reply. handle_get_payload env ck entry blinded trace tx slot_data c = Some (r, c, [PayloadReply tx reply]) \<and>
     (is_ok reply \<longleftrightarrow> deliverable (ae_x env) (cx_bid_slot c) blinded (payload_and_blobs entry) slot_data) \<and>
     (r = None \<longleftrightarrow> \<not> is_ok reply) \<and>
     (case reply of Inl _ \<Rightarrow> True | Inr d \<Rightarrow> carries blinded (payload_and_blobs entry) d)"
proof (cases "context_get_payload (ae_x env) (ae_ssz_msg env) ck (cx_bid_slot c) blinded (payload_and_blobs entry)
    trace slot_data")
  case (Inl e)
  then show ?thesis
    using context_get_payload_Inr [of "ae_x env" "ae_ssz_msg env" ck "cx_bid_slot c" blinded "payload_and_blobs entry"
        trace slot_data]
    by (auto simp: handle_get_payload_def hbind_def hget_def hsend_def hret_def is_ok_def)
next
  case (Inr q)
  obtain r b t where q: "q = (r, b, t)" by (cases q) auto
  from Inr show ?thesis
    using Inr [unfolded q context_get_payload_Inr]
    by (auto simp: q handle_get_payload_def hbind_def hget_def hsend_def hret_def is_ok_def carries_def deliverable_def)
qed

end
