(* ===== verification/Auctioneer.thy ===== *)
theory Auctioneer
  imports Proposer_Handlers
begin

text \<open>
  The auctioneer's state machine and event loop (\<open>crates/relay/src/auctioneer/mod.rs\<close>): a slot is waited
  for, auctioned and delivered; every event is answered according to the phase.

  The tile's loop takes events from the API channel, drains the simulation results, and consumes the
  submissions, merged blocks and slot updates of the spine; \<open>loop_body\<close> is one such pass.  Besides, other
  parts change the shared cache and flags, and simulation tasks end; those are inputs too, so a run is
  any interleaving of the tile with the rest of the relay.  An index that the shared vectors no longer
  hold is an error the loop logs and skips, so the inputs hold the values.
\<close>

section \<open>State machine\<close>

datatype State =
    SlotWait Slot "BuilderGetValidatorsResponseEntry option" "(ForkKey, PayloadAttributesUpdate) FxHashMap"
      "InclusionList option"
  | Sorting SlotData
  | Broadcasting SlotData B256

definition default_state :: State where
  "default_state = SlotWait 0 None [] None"

fun state_bid_slot :: "State \<Rightarrow> Slot" where
  "state_bid_slot (SlotWait slot _ _ _) = slot"
| "state_bid_slot (Sorting slot_data) = sl_bid_slot slot_data"
| "state_bid_slot (Broadcasting slot_data _) = sl_bid_slot slot_data"

datatype Event =
    EvSlotData Slot "BuilderGetValidatorsResponseEntry option" "PayloadAttributesUpdate list" "InclusionList option"
  | EvSubmission SubmissionData
  | EvGetHeader GetHeaderParams res_tx bool
  | EvGetExecutionPayloadBid GetExecutionPayloadBidParams res_tx
  | EvSubmitBuilderPreferences BlsPublicKeyBytes u64 u64 res_tx
  | EvGloasBlock Slot SeenBlock
  | EvAttestationDeadline Slot B256
  | EvGetPayload B256 SignedBlindedBeaconBlock GetPayloadTrace res_tx
  | EvGossipPayload BroadcastPayloadParams
  | EvSimResult "SimulationResultInner option"
  | EvMergeResult "(BlockSimError, BlockMergeResponse) Result"
  | EvBuilderDemotion Slot BlsPublicKeyBytes B256 U256 string

definition process_slot_data ::
  "'b auction_env \<Rightarrow> Slot \<Rightarrow> (ForkKey, PayloadAttributesUpdate) FxHashMap \<Rightarrow> BuilderGetValidatorsResponseEntry option \<Rightarrow>
   PayloadAttributesUpdate list \<Rightarrow> InclusionList option \<Rightarrow> State" where
  "process_slot_data env slot attrs_map registration attrs il =
     (let m = fold (\<lambda>u m. AList.update (attrs_fork u) u m) attrs attrs_map in
      case registration of
        Some reg \<Rightarrow>
          if m \<noteq> [] then Sorting \<lparr>sl_bid_slot = slot, sl_registration_data = reg, sl_payload_attributes_map = m,
                            sl_current_fork = ae_fork_at_slot env slot, sl_il = il\<rparr>
          else SlotWait slot (Some reg) m il
      | None \<Rightarrow> SlotWait slot None m il)"

text \<open>More data for the slot under auction: further forks, or the inclusion list.\<close>

definition extend_slot_data :: "PayloadAttributesUpdate list \<Rightarrow> InclusionList option \<Rightarrow> SlotData \<Rightarrow> SlotData" where
  "extend_slot_data attrs il slot_data =
     (let new_forks = filter (\<lambda>u. map_of (sl_payload_attributes_map slot_data) (attrs_fork u) = None) attrs in
      if new_forks \<noteq> []
      then slot_data\<lparr>sl_payload_attributes_map :=
             fold (\<lambda>u m. AList.update (attrs_fork u) u m) new_forks (sl_payload_attributes_map slot_data)\<rparr>
      else if sl_il slot_data = None \<and> il \<noteq> None then slot_data\<lparr>sl_il := il\<rparr>
      else slot_data)"

definition step_slot_data ::
  "'b auction_env \<Rightarrow> State \<Rightarrow> Slot \<Rightarrow> BuilderGetValidatorsResponseEntry option \<Rightarrow> PayloadAttributesUpdate list \<Rightarrow>
   InclusionList option \<Rightarrow> ('b, State) act" where
  "step_slot_data env st slot registration attrs il =
     (if slot < state_bid_slot st then hret st
      else if slot = state_bid_slot st then
        (case st of
           SlotWait curr_slot curr_reg attrs_map curr_il \<Rightarrow>
             hret (process_slot_data env slot attrs_map
               (case curr_reg of Some r \<Rightarrow> Some r | None \<Rightarrow> registration) attrs
               (case curr_il of Some l \<Rightarrow> Some l | None \<Rightarrow> il))
         | Sorting slot_data \<Rightarrow> hret (Sorting (extend_slot_data attrs il slot_data))
         | Broadcasting _ _ \<Rightarrow> hret st)
      else hseq (context_on_new_slot env slot) (hret (process_slot_data env slot [] registration attrs il)))"

definition maybe_start_broadcasting :: "'b auction_env \<Rightarrow> clock \<Rightarrow> SlotData \<Rightarrow> ('b, State) act" where
  "maybe_start_broadcasting env ck slot_data =
     hbind (maybe_try_unblind env ck slot_data) (\<lambda>res.
     hret (case res of Some block_hash \<Rightarrow> Broadcasting slot_data block_hash | None \<Rightarrow> Sorting slot_data))"

definition step_get_payload ::
  "'b auction_env \<Rightarrow> clock \<Rightarrow> SlotData \<Rightarrow> B256 \<Rightarrow> SignedBlindedBeaconBlock \<Rightarrow> GetPayloadTrace \<Rightarrow> res_tx \<Rightarrow> ('b, State) act" where
  "step_get_payload env ck slot_data block_hash blinded trace tx =
     hbind (hget (\<lambda>c. (map_of (cx_payloads c) block_hash, cx_pending_payload c))) (\<lambda>(found, pending).
     case found of
       Some entry \<Rightarrow>
         hbind (handle_get_payload env ck entry blinded trace tx slot_data) (\<lambda>res.
         hret (case res of Some h \<Rightarrow> Broadcasting slot_data h | None \<Rightarrow> Sorting slot_data))
     | None \<Rightarrow>
         (case pending of
            None \<Rightarrow>
              hseq (hset (\<lambda>c. c\<lparr>cx_pending_payload := Some \<lparr>pp_block_hash = block_hash, pp_blinded = blinded,
                  pp_trace = trace, pp_res_tx = tx\<rparr>\<rparr>)) (hret (Sorting slot_data))
          | Some _ \<Rightarrow> hseq (hsend [PayloadReply tx (Inl GetPayloadAlreadyReceived)]) (hret (Sorting slot_data))))"

definition step_get_header ::
  "'b auction_env \<Rightarrow> clock \<Rightarrow> SlotData \<Rightarrow> GetHeaderParams \<Rightarrow> res_tx \<Rightarrow> bool \<Rightarrow> ('b, unit) act" where
  "step_get_header env ck slot_data params tx is_mev_boost =
     (if sl_bid_slot slot_data \<noteq> hp_slot params
      then hsend [HeaderReply tx (Inl (RequestWrongSlot (hp_slot params) (sl_bid_slot slot_data)))]
      else if fork_for_parent_hash slot_data (hp_parent_hash params) = None then hsend [HeaderReply tx (Inl NoBidPrepared)]
      else if vr_pubkey (registration_of slot_data) \<noteq> hp_pubkey params then hsend [HeaderReply tx (Inl NoBidPrepared)]
      else handle_get_header env ck params slot_data tx is_mev_boost)"

definition step_sim_result ::
  "'b auction_env \<Rightarrow> clock \<Rightarrow> SlotData \<Rightarrow> SimulationResultInner option \<Rightarrow> ('b, unit) act" where
  "step_sim_result env ck slot_data result =
     hbind (if (case result of
                  Some r \<Rightarrow> (case sri_bid r of Some b \<Rightarrow> bid_slot b = sl_bid_slot slot_data | None \<Rightarrow> False)
                | None \<Rightarrow> False)
            then sort_simulation_result env ck result else hret False) (\<lambda>already_sent.
     handle_simulation_result env result already_sent)"

definition step_merge_result ::
  "'b auction_env \<Rightarrow> clock \<Rightarrow> SlotData \<Rightarrow> (BlockSimError, BlockMergeResponse) Result \<Rightarrow> ('b, unit) act" where
  "step_merge_result env ck slot_data result =
     (case result of
        Inl _ \<Rightarrow> hret ()
      | Inr response \<Rightarrow>
          hseq (handle_merge_response env ck response)
          (case merged_validation_request ck response slot_data of
             None \<Rightarrow> hret ()
           | Some req \<Rightarrow>
               hbind (hget (\<lambda>c. dispatch_merged (ck_now ck) req response (cx_sims c))) (\<lambda>res.
               case res of
                 None \<Rightarrow> hpanic
               | Some (started, sims) \<Rightarrow>
                   hseq (hset (\<lambda>c. c\<lparr>cx_sims := sims\<rparr>))
                   (hsend (case started of Some s \<Rightarrow> [SimStartedMsg s] | None \<Rightarrow> [])))))"

definition reply_not_sorting :: "u64 \<Rightarrow> Slot \<Rightarrow> ProposerApiError" where
  "reply_not_sorting request_slot slot =
     (if request_slot = slot then NoBidPrepared else RequestWrongSlot request_slot slot)"

fun state_step :: "'b auction_env \<Rightarrow> clock \<Rightarrow> State \<Rightarrow> Event \<Rightarrow> ('b, State) act" where
  "state_step env ck st (EvSlotData slot registration attrs il) = step_slot_data env st slot registration attrs il"
| "state_step env ck (Sorting sd) (EvSubmission sub) =
     hseq (handle_submission env ck sub sd) (maybe_start_broadcasting env ck sd)"
| "state_step env ck (Broadcasting sd h) (EvSubmission sub) =
     hseq (send_submission_result env (sd_submission_id sub) (sd_submission_ref sub)
             (Inl (BuilderDeliveringPayload (bt_slot (bid_trace (sd_submission sub))) (sl_bid_slot sd))))
       (hret (Broadcasting sd h))"
| "state_step env ck (SlotWait slot reg m il) (EvSubmission sub) =
     hseq (send_submission_result env (sd_submission_id sub) (sd_submission_ref sub)
             (Inl (if bt_slot (bid_trace (sd_submission sub)) = slot then ProposerDutyNotFound
                   else BidValidation (SubmissionForWrongSlot slot (bt_slot (bid_trace (sd_submission sub)))))))
       (hret (SlotWait slot reg m il))"
| "state_step env ck (Sorting sd) (EvGetHeader params tx boost) =
     hseq (step_get_header env ck sd params tx boost) (hret (Sorting sd))"
| "state_step env ck (Broadcasting sd h) (EvGetHeader params tx boost) =
     hseq (hsend [HeaderReply tx (Inl DeliveringPayload)]) (hret (Broadcasting sd h))"
| "state_step env ck (SlotWait slot reg m il) (EvGetHeader params tx boost) =
     hseq (hsend [HeaderReply tx (Inl (reply_not_sorting (hp_slot params) slot))])
       (hret (SlotWait slot reg m il))"
| "state_step env ck (Sorting sd) (EvGetExecutionPayloadBid params tx) =
     hseq (if sl_bid_slot sd \<noteq> xp_slot params
           then hsend [BidReply tx (Inl (RequestWrongSlot (xp_slot params) (sl_bid_slot sd)))]
           else handle_get_execution_payload_bid env params sd tx)
       (hret (Sorting sd))"
| "state_step env ck (Broadcasting sd h) (EvGetExecutionPayloadBid params tx) =
     hseq (hsend [BidReply tx (Inl DeliveringPayload)]) (hret (Broadcasting sd h))"
| "state_step env ck (SlotWait slot reg m il) (EvGetExecutionPayloadBid params tx) =
     hseq (hsend [BidReply tx (Inl (reply_not_sorting (xp_slot params) slot))])
       (hret (SlotWait slot reg m il))"
| "state_step env ck (Sorting sd) (EvGetPayload block_hash blinded trace tx) =
     step_get_payload env ck sd block_hash blinded trace tx"
| "state_step env ck (Broadcasting sd h) (EvGetPayload block_hash blinded trace tx) =
     hseq (hsend [PayloadReply tx (Inl (if sl_bid_slot sd = bk_slot blinded \<and> h = block_hash
             then DeliveringPayload else GetPayloadAlreadyReceived))])
       (hret (Broadcasting sd h))"
| "state_step env ck (SlotWait slot reg m il) (EvGetPayload block_hash blinded trace tx) =
     hseq (hsend [PayloadReply tx (Inl (if saturating_sub slot 1 = bk_slot blinded
             then RequestForPastSlot (bk_slot blinded) (bk_slot blinded) else ProposerNotRegistered))])
       (hret (SlotWait slot reg m il))"
| "state_step env ck (Sorting sd) (EvGossipPayload payload) =
     hseq (handle_gossip_payload payload sd) (maybe_start_broadcasting env ck sd)"
| "state_step env ck st (EvGossipPayload payload) = hret st"
| "state_step env ck (Sorting sd) (EvSimResult result) = hseq (step_sim_result env ck sd result) (hret (Sorting sd))"
| "state_step env ck st (EvSimResult result) = hseq (handle_simulation_result env result False) (hret st)"
| "state_step env ck (Sorting sd) (EvMergeResult result) = hseq (step_merge_result env ck sd result) (hret (Sorting sd))"
| "state_step env ck st (EvMergeResult result) = hret st"
| "state_step env ck st (EvBuilderDemotion slot builder_pubkey block_hash bid_value_wei reason) =
     hseq (handle_builder_demotion env slot builder_pubkey block_hash bid_value_wei reason) (hret st)"
| "state_step env ck st (EvSubmitBuilderPreferences proposer slot max_payment tx) =
     (if slot < state_bid_slot st
      then hseq (hsend [PreferencesReply tx (Inl (RequestForPastSlot (state_bid_slot st) slot))]) (hret st)
      else hseq (hset (\<lambda>c. c\<lparr>cx_builder_preferences := prefs_store proposer slot max_payment (cx_builder_preferences c)\<rparr>))
             (hseq (hsend [PreferencesReply tx (Inr ())]) (hret st)))"
| "state_step env ck st (EvGloasBlock slot seen) =
     hseq (hset (\<lambda>c. c\<lparr>cx_seen_blocks := fst (record_block slot seen (cx_seen_blocks c))\<rparr>)) (hret st)"
| "state_step env ck st (EvAttestationDeadline slot head_root) =
     hbind (hget (\<lambda>c. handle_attestation_deadline (ae_signer env) (cx_gloas_builder_identity c)
         (cx_gloas_payloads c) slot head_root (cx_seen_blocks c))) (\<lambda>(seen, reveal).
     hseq (hset (\<lambda>c. c\<lparr>cx_seen_blocks := seen\<rparr>))
     (hseq (hsend (case reveal of Some envelope \<Rightarrow> [RevealEnvelope envelope] | None \<Rightarrow> [])) (hret st)))"

section \<open>Simulation results\<close>

definition emit_sim_outcome :: "SimDone \<Rightarrow> Output list" where
  "emit_sim_outcome d =
     (case sdn_result d of
        Validate _ (Some inner) \<Rightarrow>
          if sri_block_hash inner = 0 then []
          else (let (txs, fin) = sim_finish_events (sri_submission_id inner) (sri_txs inner)
                      (case sri_result inner of Inl e \<Rightarrow> Some e | Inr _ \<Rightarrow> None) (sdn_elapsed d) (sri_retried inner)
                in map SimTxIncludedMsg txs @ [SimFinishedMsg fin])
      | ValidateMerged _ (Some inner) \<Rightarrow>
          if mri_block_hash inner = 0 then []
          else (let (txs, fin) = sim_finish_events (mri_submission_id inner) (mri_txs inner)
                      (case mri_result inner of Inl e \<Rightarrow> Some e | Inr _ \<Rightarrow> None) (sdn_elapsed d) False
                in map SimTxIncludedMsg txs @ [SimFinishedMsg fin])
      | _ \<Rightarrow> [])"

definition handle_done :: "'b auction_env \<Rightarrow> clock \<Rightarrow> State \<Rightarrow> SimDone \<Rightarrow> ('b, State) act" where
  "handle_done env ck st d =
     hseq (hsend (emit_sim_outcome d))
     (case sdn_result d of
        Validate _ result \<Rightarrow> state_step env ck st (EvSimResult result)
      | ValidateMerged _ (Some inner) \<Rightarrow> hseq (on_merged_sim_result inner) (hret st)
      | ValidateMerged _ None \<Rightarrow> hret st)"

text \<open>One turn of the loop: the next finished simulation, if there is one, and the state after handling
  it.\<close>

definition poll_once :: "'b auction_env \<Rightarrow> clock \<Rightarrow> State \<Rightarrow> ('b, SimStarted list \<times> State option) act" where
  "poll_once env ck st =
     hbind (hget (\<lambda>c. next_done (ae_x env) (ck_now ck) (cx_sims c))) (\<lambda>res.
     case res of
       None \<Rightarrow> hpanic
     | Some (started, finished, sims) \<Rightarrow>
         hseq (hset (\<lambda>c. c\<lparr>cx_sims := sims\<rparr>))
         (case finished of
            None \<Rightarrow> hret (started, None)
          | Some d \<Rightarrow> hbind (handle_done env ck st d) (\<lambda>st1. hret (started, Some st1))))"

partial_function (option) drain ::
  "'b auction_env \<Rightarrow> clock \<Rightarrow> State \<Rightarrow> SimStarted list \<Rightarrow> 'b Context \<Rightarrow>
   ((SimStarted list \<times> State) \<times> 'b Context \<times> Output list) option" where
  "drain env ck st started c =
     (case poll_once env ck st c of
        None \<Rightarrow> None
      | Some ((new, None), c1, os) \<Rightarrow> Some ((started @ new, st), c1, os)
      | Some ((new, Some st1), c1, os) \<Rightarrow>
          Option.bind (drain env ck st1 (started @ new) c1) (\<lambda>(r, c2, os2). Some (r, c2, os @ os2)))"

definition drain_results :: "'b auction_env \<Rightarrow> clock \<Rightarrow> State \<Rightarrow> ('b, State) act" where
  "drain_results env ck st =
     hbind (drain env ck st []) (\<lambda>(started, st1). hseq (hsend (map SimStartedMsg started)) (hret st1))"

section \<open>The loop\<close>

fun step_all :: "'b auction_env \<Rightarrow> (clock \<times> Event) list \<Rightarrow> State \<Rightarrow> ('b, State) act" where
  "step_all env [] st = hret st"
| "step_all env ((ck, ev) # evs) st = hbind (state_step env ck st ev) (step_all env evs)"

text \<open>The messages of one pass over the queues, in the order the loop takes them.\<close>

record loop_input =
  li_events :: "(clock \<times> Event) list"
  li_clock :: clock
  li_submissions :: "(clock \<times> SubmissionData) list"
  li_merged :: "(clock \<times> BlockMergeResponse) list"
  li_slots :: "(clock \<times> Slot \<times> BuilderGetValidatorsResponseEntry option \<times> PayloadAttributesUpdate list \<times>
     InclusionList option) list"

definition loop_body :: "'b auction_env \<Rightarrow> loop_input \<Rightarrow> State \<Rightarrow> ('b, State) act" where
  "loop_body env i st =
     hbind (step_all env (li_events i) st) (\<lambda>st1.
     hbind (drain_results env (li_clock i) st1) (\<lambda>st2.
     hbind (step_all env (map (\<lambda>(ck, s). (ck, EvSubmission s)) (li_submissions i)) st2) (\<lambda>st3.
     hbind (step_all env (map (\<lambda>(ck, r). (ck, EvMergeResult (Inr r))) (li_merged i)) st3) (\<lambda>st4.
     step_all env (map (\<lambda>(ck, slot, reg, attrs, il). (ck, EvSlotData slot reg attrs il)) (li_slots i)) st4))))"

text \<open>Between two passes other parts of the relay act: they change the shared cache, the flags and the
  builder index, simulation tasks end, and simulators report their sync status.\<close>

datatype Input =
    Pass loop_input
  | SharedChange LocalCache bool bool GloasBuilderIdentity
  | TaskEnds nat nat sim_env
  | SyncReport nat "bool option"

fun auction_step :: "'b auction_env \<Rightarrow> Input \<Rightarrow> State \<Rightarrow> ('b, State) act" where
  "auction_step env (Pass i) st = loop_body env i st"
| "auction_step env (SharedChange cache failsafe merging identity) st =
     hseq (hset (\<lambda>c. c\<lparr>cx_cache := cache, cx_failsafe_triggered := failsafe,
       cx_block_merging_enabled := merging, cx_gloas_builder_identity := identity\<rparr>)) (hret st)"
| "auction_step env (TaskEnds i time tasks) st =
     hseq (hset (\<lambda>c. c\<lparr>cx_sims := finish_task_at (ae_x env) tasks time i (cx_sims c)\<rparr>)) (hret st)"
| "auction_step env (SyncReport sid reported) st =
     hseq (hset (\<lambda>c. c\<lparr>cx_sims := (if sid < length (sm_simulators (cx_sims c))
       then (cx_sims c)\<lparr>sm_rx := sm_rx (cx_sims c) @ [SyncStatus sid reported]\<rparr> else cx_sims c)\<rparr>)) (hret st)"

fun auction_run :: "'b auction_env \<Rightarrow> Input list \<Rightarrow> State \<Rightarrow> ('b, State) act" where
  "auction_run env [] st = hret st"
| "auction_run env (i # is) st = hbind (auction_step env i st) (auction_run env is)"

end
