(* ===== verification/Sim_Backlog.thy ===== *)
theory Sim_Backlog
  imports Simulators
begin

text \<open>
  How much the simulation pool can still hand over without a further task ending: the bound on the
  auctioneer's loop that drains the results (\<open>crates/relay/src/simulator/mod.rs\<close>, \<open>next_done\<close>).
\<close>

section \<open>Definitions\<close>

text \<open>What is in the channel, answered, queued, kept for idle time or waiting on a simulation.  A queued
  request counts because a simulator that cannot take its fork answers it at once.\<close>

definition backlog :: "Simulators \<Rightarrow> nat" where
  "backlog s = length (sm_rx s) + length (sm_answered s) + length (sm_requests s) +
     length (sm_priority_requests s) + length (sm_superseded s) +
     sum_list (map (\<lambda>(k, v). length (waiting_on v)) (sm_seen_blocks s))"

section \<open>Lemmas\<close>

lemma length_swap_remove: "i < length xs \<Longrightarrow> length (swap_remove i xs) = length xs - 1"
  by (simp add: swap_remove_def)

lemma queue_next_req_length: "queue_next_req q = Some (r, q') \<Longrightarrow> length q = Suc (length q')"
  by (auto simp: queue_next_req_def length_swap_remove split: option.splits dest!: max_by_key_mem)

lemma pop_unseen_length:
  "pop_unseen seen rs = (r, rest) \<Longrightarrow> length rest + (case r of Some _ \<Rightarrow> 1 | None \<Rightarrow> 0) \<le> length rs"
  by (induction seen rs rule: pop_unseen.induct) (auto split: if_splits)

lemma backlog_frame [simp]:
  "backlog (s\<lparr>sm_telemetry := t\<rparr>) = backlog s" "backlog (s\<lparr>sm_simulators := e\<rparr>) = backlog s"
  "backlog (s\<lparr>sm_slot_stats := q\<rparr>) = backlog s" "backlog (s\<lparr>sm_accept_optimistic := b\<rparr>) = backlog s"
  "backlog (s\<lparr>sm_tasks := ts\<rparr>) = backlog s" "backlog (s\<lparr>sm_merge_requests := m\<rparr>) = backlog s"
  "backlog (s\<lparr>sm_sample_state := z\<rparr>) = backlog s"
  by (simp_all add: backlog_def)

lemma mark_in_flight_backlog [simp]: "backlog (mark_in_flight h s) = backlog s"
  using sum_list_update_add [of "\<lambda>v. length (waiting_on v)" h "InFlight []" "sm_seen_blocks s"]
  by (auto simp: mark_in_flight_def backlog_def split: option.splits)

lemma add_pending_backlog [simp]: "backlog (add_pending sid s) = backlog s"
  by (simp add: add_pending_def)

lemma track_backlog [simp]: "backlog (track_max_in_flight sid s) = backlog s"
  by (simp add: track_max_in_flight_def)

lemma backlog_push: "backlog (s\<lparr>sm_rx := sm_rx s @ [e]\<rparr>) = Suc (backlog s)"
  by (simp add: backlog_def)

lemma spawn_sim_backlog: "spawn_sim sid req s = Some (st, s') \<Longrightarrow> backlog s' \<le> Suc (backlog s)"
  by (auto simp: spawn_sim_def Let_def backlog_push [of "add_pending _ _", simplified] split: if_splits option.splits)

lemma spawn_merge_backlog: "spawn_merge_sim sid req r s = Some (st, s') \<Longrightarrow> backlog s' = backlog s"
  by (auto simp: spawn_merge_sim_def Let_def split: if_splits)

lemma settle_task_backlog [simp]: "backlog (settle_task now sid err t s) = backlog s"
  by (simp add: settle_task_def refresh_accept_optimistic_def backlog_def)

lemma send_next_backlog:
  assumes "send_next sid s = Some (st, s')"
  shows "backlog s' \<le> backlog s"
proof -
  consider (prio) req q where "queue_next_req (sm_priority_requests s) = Some (req, q)"
    | (queue) req q where "queue_next_req (sm_priority_requests s) = None" "queue_next_req (sm_requests s) = Some (req, q)"
    | (merge) req response q where "queue_next_req (sm_priority_requests s) = None" "queue_next_req (sm_requests s) = None"
        "merge_next_req (sm_merge_requests s) = Some ((req, response), q)"
    | (idle) r rest where "queue_next_req (sm_priority_requests s) = None" "queue_next_req (sm_requests s) = None"
        "merge_next_req (sm_merge_requests s) = None" "pop_unseen (sm_seen_blocks s) (rev (sm_superseded s)) = (r, rest)"
    by (metis option.exhaust prod.exhaust)
  then show ?thesis
  proof cases
    case prio
    obtain st1 where "spawn_sim sid req (tally (\<lambda>t. t\<lparr>lt_sims_sent_from_queue := lt_sims_sent_from_queue t + 1\<rparr>)
        (s\<lparr>sm_priority_requests := q\<rparr>)) = Some (st1, s')"
      using assms prio by (auto simp: send_next_def Let_def)
    from spawn_sim_backlog [OF this] queue_next_req_length [OF prio] show ?thesis by (simp add: backlog_def)
  next
    case queue
    obtain st1 where "spawn_sim sid req (tally (\<lambda>t. t\<lparr>lt_sims_sent_from_queue := lt_sims_sent_from_queue t + 1\<rparr>)
        (s\<lparr>sm_requests := q\<rparr>)) = Some (st1, s')"
      using assms queue by (auto simp: send_next_def Let_def)
    from spawn_sim_backlog [OF this] queue_next_req_length [OF queue(2)] show ?thesis by (simp add: backlog_def)
  next
    case merge
    obtain st1 where "spawn_merge_sim sid req response (s\<lparr>sm_merge_requests := q\<rparr>) = Some (st1, s')"
      using assms merge by (auto simp: send_next_def Let_def)
    from spawn_merge_backlog [OF this] show ?thesis by simp
  next
    case idle
    show ?thesis
    proof (cases r)
      case None
      then show ?thesis using assms idle pop_unseen_length [OF idle(4)]
        by (auto simp: send_next_def Let_def backlog_def)
    next
      case (Some req)
      obtain st1 where "spawn_sim sid req (tally (\<lambda>t. t\<lparr>lt_superseded_sent := lt_superseded_sent t + 1\<rparr>)
          (s\<lparr>sm_superseded := rev rest\<rparr>)) = Some (st1, s')"
        using assms idle Some by (auto simp: send_next_def Let_def)
      from spawn_sim_backlog [OF this] pop_unseen_length [OF idle(4)] Some show ?thesis by (simp add: backlog_def)
    qed
  qed
qed

lemma on_task_response_backlog:
  "on_task_response now sid err t s = Some (st, s') \<Longrightarrow> backlog s' \<le> backlog s"
  using send_next_backlog [of _ "settle_task now sid err t s" st s']
  by (auto simp: on_task_response_def Let_def split: if_splits option.splits)

lemma fold_answer_cached_length:
  "length (sm_answered (fold (\<lambda>r. answer_cached x r res) rs s)) \<le> length (sm_answered s) + length rs"
proof (induction rs arbitrary: s)
  case (Cons r rs)
  have "length (sm_answered (answer_cached x r res s)) \<le> Suc (length (sm_answered s))" by (simp add: answer_cached_def)
  then show ?case using Cons [of "answer_cached x r res s"] by simp
qed simp

lemma on_block_simulated_backlog:
  assumes "distinct (map fst (sm_seen_blocks s))"
  shows "backlog (on_block_simulated x h res s) \<le> backlog s"
proof -
  let ?w = "\<lambda>v. length (waiting_on v)"
  define res' :: "(BlockSimError, unit) Result" where "res' = (case res of Inl e \<Rightarrow> Inl e | Inr _ \<Rightarrow> Inr ())"
  note u = sum_list_update_add [of ?w h "Done res'" "sm_seen_blocks s"] sum_list_delete_add [OF assms, of ?w h]
  have r: "on_block_simulated x h res s =
    (let s1 = (if (case res of Inl e \<Rightarrow> \<not> is_demotable e | Inr _ \<Rightarrow> False)
                then s\<lparr>sm_seen_blocks := AList.delete h (sm_seen_blocks s)\<rparr>
                else s\<lparr>sm_seen_blocks := AList.update h (Done res') (sm_seen_blocks s)\<rparr>)
      in case map_of (sm_seen_blocks s) h of
           Some (InFlight waiting) \<Rightarrow> fold (\<lambda>req. answer_cached x req res') waiting s1
         | _ \<Rightarrow> s1)"
    by (simp only: on_block_simulated_def res'_def Let_def)
  define s1 where "s1 = (if (case res of Inl e \<Rightarrow> \<not> is_demotable e | Inr _ \<Rightarrow> False)
                then s\<lparr>sm_seen_blocks := AList.delete h (sm_seen_blocks s)\<rparr>
                else s\<lparr>sm_seen_blocks := AList.update h (Done res') (sm_seen_blocks s)\<rparr>)"
  have s1: "backlog s1 + (case map_of (sm_seen_blocks s) h of Some w \<Rightarrow> ?w w | None \<Rightarrow> 0) = backlog s"
    using u by (auto simp: s1_def backlog_def split: option.splits)
  have f: "backlog (fold (\<lambda>req. answer_cached x req res') ws s1) \<le> backlog s1 + length ws" for ws
    using fold_answer_cached_length [of x res' ws s1] by (simp add: backlog_def)
  show ?thesis
    using s1 f unfolding r Let_def s1_def [symmetric]
    by (auto split: option.splits SimSeen.splits intro: le_trans [OF f])
qed

text \<open>Every result taken makes the backlog smaller, and when there is none the channel and the answers
  are empty.\<close>

lemma next_done_from_backlog:
  assumes "next_done_from x now es s = Some (st, d, s')" "sm_rx s = es" "distinct (map fst (sm_seen_blocks s))"
    "list_all vr_is_optimistic (sm_superseded s)"
  shows "case d of Some _ \<Rightarrow> backlog s' < backlog s | None \<Rightarrow> sm_rx s' = [] \<and> sm_answered s' = []"
  using assms
proof (induction x now es s arbitrary: st d s' rule: next_done_from.induct)
  case (1 x now s)
  then show ?case by (cases "sm_answered s" rule: rev_cases) (auto simp: backlog_def)
next
  case (2 x now sid reported events s)
  obtain s1 where s1: "handle_sync_status now sid reported (s\<lparr>sm_rx := events\<rparr>) = Some s1"
    using 2(2) by (auto split: option.splits)
  have rx: "sm_rx s1 = events" "backlog s1 = backlog (s\<lparr>sm_rx := events\<rparr>)"
    using s1 by (auto simp: handle_sync_status_def refresh_accept_optimistic_def split: if_splits)
  have "backlog (s\<lparr>sm_rx := events\<rparr>) < backlog s" using 2(3) by (simp add: backlog_def)
  then show ?case using 2(1) [OF s1, of st d s'] 2(2-5) s1 rx handle_sync_accounts [OF s1]
    by (auto split: option.splits)
next
  case (3 x now sid err result t events s)
  obtain s1 where s1: "on_task_response now sid err t (s\<lparr>sm_rx := events\<rparr>) = Some (st, s1)" and
    d: "d \<noteq> None" and
    s': "s' = (case result of Validate _ (Some inner) \<Rightarrow> on_block_simulated x (sri_block_hash inner) (sri_result inner) s1
            | _ \<Rightarrow> s1)"
    using 3(1) by (auto split: option.splits prod.splits)
  have "distinct (map fst (sm_seen_blocks s1))"
    using on_task_response_accounts [OF s1] 3(3,4) by simp
  then have "backlog s' \<le> backlog s1"
    unfolding s' by (auto simp: on_block_simulated_backlog split: SimResult.splits option.splits)
  moreover have "backlog (s\<lparr>sm_rx := events\<rparr>) < backlog s" using 3(2) by (simp add: backlog_def)
  ultimately show ?case using d on_task_response_backlog [OF s1] by (cases d) auto
qed

end
