(* ===== verification/Auction_Accounts.thy ===== *)
theory Auction_Accounts
  imports Auctioneer Sim_Backlog
begin

text \<open>
  What each handler of the auctioneer adds to the accounts: the references it becomes responsible for and
  the references it answers.  The predicate \<open>adds\<close> says that a handler does not panic, keeps the slot and
  the simulation pool's ledger, and takes on the given references; its rules follow the handler monad, so
  the lemma of a handler is its definition unfolded and the rules applied.
\<close>

named_theorems adds_rules \<open>what the handlers add to the accounts\<close>

section \<open>Accounts\<close>

text \<open>What somebody waits for: the result of a submission, or the reply to a request.\<close>

datatype token = Sub SubmissionRef | Req res_tx

text \<open>References of builders; the relay's own simulations are internal.\<close>

definition pub :: "SubmissionRef multiset \<Rightarrow> token multiset" where
  "pub M = image_mset Sub (filter_mset (\<lambda>r. sr_kind r \<noteq> Internal) M)"

fun answer_of :: "Output \<Rightarrow> token multiset" where
  "answer_of (FutureResult r) = {#Sub (rr_sub_ref r)#}"
| "answer_of (TcpResult r) = {#Sub (rr_sub_ref r)#}"
| "answer_of (HeaderReply tx _) = {#Req tx#}"
| "answer_of (PayloadReply tx _) = {#Req tx#}"
| "answer_of (BidReply tx _) = {#Req tx#}"
| "answer_of (PreferencesReply tx _) = {#Req tx#}"
| "answer_of _ = {#}"

definition answers :: "Output list \<Rightarrow> token multiset" where
  "answers os = sum_list (map answer_of os)"

fun delivery :: "Output \<Rightarrow> Slot list" where
  "delivery (PayloadReply _ (Inr d)) = [bk_slot (sp_signed_block (gd_to_publish d))]"
| "delivery _ = []"

definition deliveries :: "Output list \<Rightarrow> Slot list" where
  "deliveries os = concat (map delivery os)"

text \<open>The one request that may wait: for a payload that has not arrived.\<close>

definition pending_of :: "'b Context \<Rightarrow> token multiset" where
  "pending_of c = (case cx_pending_payload c of Some p \<Rightarrow> {#Req (pp_res_tx p)#} | None \<Rightarrow> {#})"

definition ledger :: "'b Context \<Rightarrow> token multiset \<Rightarrow> token multiset \<Rightarrow> bool" where
  "ledger c S N \<longleftrightarrow> (\<exists>asked got. pool_ok (cx_sims c, asked, got) \<and> S + pub got = N + pub asked + pending_of c)"

definition at_slot :: "Slot \<Rightarrow> 'b Context \<Rightarrow> bool" where
  "at_slot n c \<longleftrightarrow> cx_bid_slot c = n \<and> curr_bid_slot (cx_bid_sorter c) = n"

definition sound :: "Slot \<Rightarrow> 'b Context \<Rightarrow> token multiset \<Rightarrow> token multiset \<Rightarrow> bool" where
  "sound n c S N \<longleftrightarrow> at_slot n c \<and> ledger c S N"

text \<open>The handler takes on the tokens \<open>A\<close>, delivers no payload, and its result satisfies \<open>R\<close>.\<close>

definition adds :: "Slot \<Rightarrow> token multiset \<Rightarrow> ('a \<Rightarrow> bool) \<Rightarrow> ('b, 'a) act \<Rightarrow> bool" where
  "adds n A R m \<longleftrightarrow> (\<forall>c S N. sound n c S N \<longrightarrow>
     wp m (\<lambda>a c' os. R a \<and> sound n c' (S + A) (N + answers os) \<and> deliveries os = []) c)"

definition adjustor_quiet :: "'b auction_env \<Rightarrow> bool" where
  "adjustor_quiet env \<longleftrightarrow> (\<forall>b entry slot_data dry a r f.
     ae_try_adjust env b entry slot_data dry = Some (a, r, f) \<longrightarrow> pub (owed r) = {#})"

definition clock_ok :: "'b auction_env \<Rightarrow> clock \<Rightarrow> bool" where
  "clock_ok env ck \<longleftrightarrow> ck_max_blobs ck \<le> max_blob_commitments_per_block (ae_x env)"

text \<open>A result that is not for an optimistic submission is answered unless it was.\<close>

definition result_owed :: "SimulationResultInner option \<Rightarrow> token multiset" where
  "result_owed result = (case result of
     Some r \<Rightarrow> if is_optimistic_version (sri_optimistic_version r) then {#} else pub {#sri_submission_ref r#}
   | None \<Rightarrow> {#})"

section \<open>Lemmas on accounts\<close>

lemma pub_simps [simp]: "pub {#} = {#}" "pub (A + B) = pub A + pub B"
  by (simp_all add: pub_def)

lemma answers_simps [simp]:
  "answers [] = {#}" "answers (o1 # os) = answer_of o1 + answers os" "answers (os @ ps) = answers os + answers ps"
  by (simp_all add: answers_def)

lemma deliveries_simps [simp]:
  "deliveries [] = []" "deliveries (o1 # os) = delivery o1 @ deliveries os"
  "deliveries (os @ ps) = deliveries os @ deliveries ps"
  by (simp_all add: deliveries_def)

lemma quiet_map [simp]:
  "answers (map TopBid us) = {#}" "answers (map SimStartedMsg ss) = {#}" "answers (map SimTxIncludedMsg ts) = {#}"
  "deliveries (map TopBid us) = []" "deliveries (map SimStartedMsg ss) = []" "deliveries (map SimTxIncludedMsg ts) = []"
  by (induction us; induction ss; induction ts; simp)+

lemma pending_of_frame [simp]:
  "pending_of (c\<lparr>cx_sims := v1\<rparr>) = pending_of c" "pending_of (c\<lparr>cx_bid_sorter := v2\<rparr>) = pending_of c"
  "pending_of (c\<lparr>cx_pending_payload := None\<rparr>) = {#}"
  "pending_of (c\<lparr>cx_pending_payload := Some p\<rparr>) = {#Req (pp_res_tx p)#}"
  by (simp_all add: pending_of_def)

lemma ledger_both: "ledger c S N \<Longrightarrow> ledger c (S + A) (N + A)"
  unfolding ledger_def by (metis (no_types, lifting) union_assoc union_commute)

lemma ledger_cancel: "ledger c (S + A) (N + A) \<Longrightarrow> ledger c S N"
  unfolding ledger_def by (metis (no_types, lifting) add_right_cancel union_assoc union_commute)

lemma sound_both: "sound n c S N \<Longrightarrow> sound n c (S + A) (N + A)"
  by (simp add: sound_def ledger_both)

lemma sound_frame [simp]:
  "sound n (c\<lparr>cx_cache := v1\<rparr>) S N = sound n c S N"
  "sound n (c\<lparr>cx_hydration_cache := v3\<rparr>) S N = sound n c S N"
  "sound n (c\<lparr>cx_payloads := v4\<rparr>) S N = sound n c S N"
  "sound n (c\<lparr>cx_gloas_payloads := v5\<rparr>) S N = sound n c S N"
  "sound n (c\<lparr>cx_block_merger := v6\<rparr>) S N = sound n c S N"
  "sound n (c\<lparr>cx_bid_adjustor := v7\<rparr>) S N = sound n c S N"
  "sound n (c\<lparr>cx_completed_dry_run := v8\<rparr>) S N = sound n c S N"
  "sound n (c\<lparr>cx_block_merging_enabled := v9\<rparr>) S N = sound n c S N"
  "sound n (c\<lparr>cx_failsafe_triggered := v10\<rparr>) S N = sound n c S N"
  "sound n (c\<lparr>cx_builder_preferences := v11\<rparr>) S N = sound n c S N"
  "sound n (c\<lparr>cx_gloas_builder_identity := v12\<rparr>) S N = sound n c S N"
  "sound n (c\<lparr>cx_seen_blocks := v13\<rparr>) S N = sound n c S N"
  by (simp_all add: sound_def at_slot_def ledger_def pending_of_def)

section \<open>Rules\<close>

lemma addsD: "adds n A R m \<Longrightarrow> sound n c S N \<Longrightarrow>
   wp m (\<lambda>a c' os. R a \<and> sound n c' (S + A) (N + answers os) \<and> deliveries os = []) c"
  by (simp add: adds_def)

lemma adds_hret: "R a \<Longrightarrow> adds n {#} R (hret a)"
  by (simp add: adds_def)

lemma adds_hget: "(\<And>c. at_slot n c \<Longrightarrow> R (f c)) \<Longrightarrow> adds n {#} R (hget f)"
  by (simp add: adds_def sound_def)

lemma adds_hset: "(\<And>c S N. sound n c S N \<Longrightarrow> sound n (f c) S N) \<Longrightarrow> adds n {#} (\<lambda>_. True) (hset f)"
  by (simp add: adds_def)

lemma adds_hsend: "answers os = A \<Longrightarrow> deliveries os = [] \<Longrightarrow> adds n A (\<lambda>_. True) (hsend os)"
  by (auto simp: adds_def sound_both)

lemma adds_bind:
  fixes m :: "('b, 'a) act"
  assumes "adds n A P m" "\<And>a. P a \<Longrightarrow> adds n B R (f a)"
  shows "adds n (A + B) R (hbind m f)"
  unfolding adds_def
proof (intro allI impI)
  fix c :: "'b Context" and S N assume "sound n c S N"
  from addsD [OF assms(1) this] show "wp (hbind m f) (\<lambda>a c' os. R a \<and> sound n c' (S + (A + B)) (N + answers os) \<and> deliveries os = []) c"
    unfolding wp_hbind
  proof (rule wp_mono)
    fix a and c1 :: "'b Context" and os assume "P a \<and> sound n c1 (S + A) (N + answers os) \<and> deliveries os = []"
    then have "deliveries os = []" and "wp (f a) (\<lambda>b c2 os2. R b \<and> sound n c2 (S + A + B) (N + answers os + answers os2) \<and>
        deliveries os2 = []) c1"
      using addsD [OF assms(2)] by blast+
    then show "wp (f a) (\<lambda>b c2 os2. R b \<and> sound n c2 (S + (A + B)) (N + answers (os @ os2)) \<and>
        deliveries (os @ os2) = []) c1"
      by (simp add: add.assoc)
  qed
qed

lemma adds_first: "adds n A P m \<Longrightarrow> (\<And>a. P a \<Longrightarrow> adds n {#} R (f a)) \<Longrightarrow> adds n A R (hbind m f)"
  using adds_bind [of n A P m "{#}" R f] by simp

lemma adds_next: "adds n {#} P m \<Longrightarrow> (\<And>a. P a \<Longrightarrow> adds n B R (f a)) \<Longrightarrow> adds n B R (hbind m f)"
  using adds_bind [of n "{#}" P m B R f] by simp

lemma adds_weaken: "adds n A P m \<Longrightarrow> (\<And>a. P a \<Longrightarrow> R a) \<Longrightarrow> adds n A R m"
  unfolding adds_def by (blast intro: wp_mono)

lemma adds_get [adds_rules]:
  "(\<And>c. at_slot n c \<Longrightarrow> adds n B R (f (g c))) \<Longrightarrow> adds n B R (hbind (hget g) f)"
  by (rule adds_next [of n "\<lambda>a. \<exists>c. at_slot n c \<and> a = g c"]) (auto intro!: adds_hget)

lemma adds_set [adds_rules]:
  "(\<And>c S N. sound n c S N \<Longrightarrow> sound n (g c) S N) \<Longrightarrow> adds n B R (f ()) \<Longrightarrow> adds n B R (hbind (hset g) f)"
  by (rule adds_next [of n "\<lambda>_. True"]) (simp_all add: adds_hset)

lemma adds_send [adds_rules]:
  "answers os = {#} \<Longrightarrow> deliveries os = [] \<Longrightarrow> adds n B R (f ()) \<Longrightarrow> adds n B R (hbind (hsend os) f)"
  by (rule adds_next [of n "\<lambda>_. True"]) (simp_all add: adds_hsend)

lemma adds_ret [adds_rules]: "adds n B R (f a) \<Longrightarrow> adds n B R (hbind (hret a) f)"
  by (rule adds_next [of n "\<lambda>b. b = a"]) (simp_all add: adds_hret)

lemma adds_cases [adds_rules]:
  "(b \<Longrightarrow> adds n A R m) \<Longrightarrow> (\<not> b \<Longrightarrow> adds n A R k) \<Longrightarrow> adds n A R (if b then m else k)"
  "(v = None \<Longrightarrow> adds n A R m) \<Longrightarrow> (\<And>w. v = Some w \<Longrightarrow> adds n A R (f w)) \<Longrightarrow>
     adds n A R (case v of None \<Rightarrow> m | Some w \<Rightarrow> f w)"
  "(\<And>y z. p = (y, z) \<Longrightarrow> adds n A R (g y z)) \<Longrightarrow> adds n A R (case p of (y, z) \<Rightarrow> g y z)"
  "(\<And>e. r = Inl e \<Longrightarrow> adds n A R (h e)) \<Longrightarrow> (\<And>y. r = Inr y \<Longrightarrow> adds n A R (i y)) \<Longrightarrow>
     adds n A R (case r of Inl e \<Rightarrow> h e | Inr y \<Rightarrow> i y)"
  by (simp_all split: option.splits prod.splits sum.splits)

lemmas adds_last [adds_rules] = adds_hret adds_hset

lemma adds_hsend0 [adds_rules]: "answers os = {#} \<Longrightarrow> deliveries os = [] \<Longrightarrow> adds n {#} (\<lambda>_. True) (hsend os)"
  by (rule adds_hsend)

section \<open>Results and demotions\<close>

lemma adds_send_submission_result:
  "adds n (pub {#ref#}) (\<lambda>_. True) (send_submission_result env i ref res)"
  unfolding send_submission_result_def Let_def
  by (rule adds_hsend)
    (auto simp: pub_def SubmissionResultWithRef_new_def split: SubmissionRefKind.splits sum.splits)

lemma adds_demotion: "adds n {#} (\<lambda>_. True) (handle_builder_demotion env slot k h v r)"
  unfolding handle_builder_demotion_def Let_def by (intro adds_rules) simp_all

lemma adds_disable: "adds n {#} (\<lambda>_. True) (disable_adjustments h)"
  unfolding disable_adjustments_def by (intro adds_rules) simp_all

lemma adds_react: "adds n {#} (\<lambda>_. True) (react_to_failure env r)"
  unfolding react_to_failure_def by (intro adds_rules adds_disable adds_demotion) simp_all

lemma adds_simulation_result:
  "adds n (if sent then {#} else result_owed result) (\<lambda>_. True) (handle_simulation_result env result sent)"
  by (auto simp: handle_simulation_result_def result_owed_def split: option.splits
      intro!: adds_hret adds_next [OF adds_react] adds_send_submission_result)

section \<open>Submissions\<close>

lemma adds_send_to_sim:
  fixes env :: "'b auction_env"
  shows "adds n (pub (owed req)) (\<lambda>_. True) (send_to_sim env ck req ft)"
  unfolding adds_def
proof (intro allI impI)
  fix c :: "'b Context" and S N
  assume s: "sound n c S N"
  then obtain asked got where p: "pool_ok (cx_sims c, asked, got)" "S + pub got = N + pub asked + pending_of c"
    by (auto simp: sound_def ledger_def)
  obtain st s' where d: "dispatch (ae_x env) (ck_now ck) req ft (cx_sims c) = Some (st, s')"
      "pool_ok (s', asked + owed req, got)"
    using pool.step_total [OF p(1), of "ae_x env" "DispatchOp (ck_now ck) req ft"]
      pool.step_inv [OF p(1), of "ae_x env" "DispatchOp (ck_now ck) req ft"] by fastforce
  have "ledger (c\<lparr>cx_sims := s'\<rparr>) (S + pub (owed req)) N"
    unfolding ledger_def using d(2) p(2) by (intro exI conjI) (simp, simp add: ac_simps)
  then show "wp (send_to_sim env ck req ft) (\<lambda>a c' os. True \<and> sound n c' (S + pub (owed req)) (N + answers os) \<and>
      deliveries os = []) c"
    using s by (simp add: send_to_sim_def d(1) sound_def at_slot_def split: option.splits)
qed

lemma adds_sort_into:
  fixes bid :: Bid
  assumes "bid_slot bid = n"
  shows "adds n {#} (\<lambda>_. True) (sort_into ck bid :: ('b, bool) act)"
  unfolding adds_def
proof (intro allI impI)
  fix c :: "'b Context" and S N
  assume s: "sound n c S N"
  obtain s' t us where p: "process_bid (ck_ns ck) bid (cx_bid_sorter c) = (s', t, us)" by (metis prod_cases3)
  have f: "curr_bid_slot s' = curr_bid_slot (cx_bid_sorter c)"
    using process_bid_frame(1) [of "ck_ns ck" bid "cx_bid_sorter c"] p by simp
  show "wp (sort_into ck bid) (\<lambda>a c' os. True \<and> sound n c' (S + {#}) (N + answers os) \<and> deliveries os = []) c"
    using s p f assms by (simp add: sort_into_def sort_bid_def sound_def at_slot_def ledger_def Let_def)
qed

lemma adds_record: "adds n {#} (\<lambda>_. True) (record_submission ck s t opt adj i)"
  unfolding record_submission_def by (intro adds_rules) simp_all

lemma adds_store_data: "adds n {#} (\<lambda>_. True) (store_data ck entry opt i)"
  unfolding store_data_def
  by (cases entry) (auto intro!: adds_next [OF adds_record] adds_rules)

lemma adds_dry_run:
  assumes "adjustor_quiet env"
  shows "adds n {#} (\<lambda>_. True) (try_adjustments_dry_run env ck entry sd)"
  unfolding try_adjustments_dry_run_def
proof (intro adds_rules adds_next [OF adds_store_data])
  fix c p a q req f
  assume "ae_try_adjust env (cx_bid_adjustor c) entry sd True = Some p" "p = (a, q)" "q = (req, f)"
  then have "pub (owed req) = {#}" using assms unfolding adjustor_quiet_def by blast
  then show "adds n {#} (\<lambda>_. True) (send_to_sim env ck req True)" using adds_send_to_sim [of n req env ck True] by simp
qed simp_all

lemma adds_store_submission:
  "adjustor_quiet env \<Longrightarrow> adds n {#} (\<lambda>_. True) (store_submission env ck sd slot_data attrs opt submission tx_root)"
  unfolding store_submission_def Let_def
  by (cases submission) (auto intro!: adds_next [OF adds_dry_run] adds_next [OF adds_record] adds_store_data adds_hset)

lemma adds_validate:
  "adds n {#} (\<lambda>r. is_ok r \<longrightarrow> bt_slot (bid_trace (sd_submission sd)) = n) (validate_submission env ck sd info slot_data)"
  unfolding validate_submission_def Let_def by (intro adds_rules) (auto simp: at_slot_def is_ok_def)

lemma adds_hydrate:
  assumes "clock_ok env ck"
  shows "adds n {#} (\<lambda>_. True) (hydrate_submission env ck submission)"
proof (cases submission)
  case (Dehydrated d)
  have "hydrate (ae_x env) (ck_max_blobs ck) d h \<noteq> None" for h
    using hydrate_inner_total [of "ck_max_blobs ck" "ae_x env"] assms by (simp add: hydrate_def Let_def clock_ok_def)
  then show ?thesis
    unfolding hydrate_submission_def Dehydrated Submission.simps by (intro adds_rules) (simp_all del: not_None_eq)
qed (simp add: hydrate_submission_def adds_hret)

lemma adds_sort_or_compare:
  "bid_slot bid = n \<Longrightarrow> adds n {#} (\<lambda>_. True) (sort_or_compare ck sd info slot_data attrs bid)"
  unfolding sort_or_compare_def by (intro adds_rules adds_next [OF adds_sort_into]) simp_all

lemma owed_validation_request:
  "owed (validation_request sd slot_data attrs is_top opt submission tx_root) =
     (if opt then {#} else {#sd_submission_ref sd#})"
  by (simp add: owed_def validation_request_def Let_def)

lemma adds_enter:
  assumes "adjustor_quiet env" "clock_ok env ck"
  shows "adds n (pub {#sd_submission_ref sd#}) (\<lambda>_. True) (enter_auction env ck sd slot_data attrs opt is_top)"
proof (cases opt)
  case True
  then show ?thesis unfolding enter_auction_def
    by (auto intro!: adds_next [OF adds_hydrate [OF assms(2)]] adds_rules adds_send_submission_result
        adds_first [OF adds_send_submission_result]
        adds_next [OF adds_send_to_sim [of n "validation_request sd slot_data attrs is_top True _ _", simplified owed_validation_request, simplified]]
        adds_store_submission assms(1))
next
  case False
  then show ?thesis unfolding enter_auction_def
    by (auto intro!: adds_next [OF adds_hydrate [OF assms(2)]] adds_rules adds_send_submission_result
        adds_first [OF adds_send_to_sim [of n "validation_request sd slot_data attrs is_top False _ _", simplified owed_validation_request, simplified]]
        adds_store_submission assms(1))
qed

lemma adds_reject:
  "adds n (pub {#sd_submission_ref sd#}) (\<lambda>_. True) (reject_submission env sd e)"
  unfolding reject_submission_def
  by (cases "sd_submission sd") (auto intro!: adds_rules adds_send_submission_result)

lemma adds_handle_submission:
  assumes "adjustor_quiet env" "clock_ok env ck"
  shows "adds n (pub {#sd_submission_ref sd#}) (\<lambda>_. True) (handle_submission env ck sd slot_data)"
  unfolding handle_submission_def
proof (intro adds_rules adds_next [OF adds_validate] adds_reject adds_next [OF adds_sort_or_compare])
  show "adds n (pub {#sd_submission_ref sd#}) (\<lambda>_. True) (enter_auction env ck sd slot_data attrs opt is_top)" for attrs opt is_top
    by (rule adds_enter [OF assms])
qed (simp_all add: is_ok_def Bid_from_submission_data_def Let_def)

section \<open>Simulation results\<close>

lemma adds_demote_in_sorter: "adds n {#} (\<lambda>_. True) (demote_in_sorter ck k)"
  unfolding demote_in_sorter_def
  by (intro adds_rules) (auto simp: sound_def at_slot_def ledger_def prod_eq_iff)

lemma adds_sort_simulation_result:
  assumes "result = Some r" "sri_bid r = Some bid" "bid_slot bid = n"
  shows "adds n (result_owed result) (\<lambda>sent. sent = (\<not> is_optimistic_version (sri_optimistic_version r)))
    (sort_simulation_result env ck result)"
proof -
  show ?thesis
    unfolding sort_simulation_result_def Let_def assms(1,2) option.case
    by (rule adds_first [where P = "\<lambda>_. True"])
      (auto simp: result_owed_def split: sum.splits intro!: adds_next [OF adds_demote_in_sorter]
        adds_next [OF adds_sort_into] adds_send adds_hret adds_send_submission_result assms(3))
qed

lemma adds_step_sim_result:
  assumes "sl_bid_slot sd = n"
  shows "adds n (result_owed result) (\<lambda>_. True) (step_sim_result env ck sd result)"
proof (cases "\<exists>r b. result = Some r \<and> sri_bid r = Some b \<and> bid_slot b = n")
  case True
  then obtain r b where r: "result = Some r" "sri_bid r = Some b" "bid_slot b = n" by blast
  have "adds n {#} (\<lambda>_. True) (handle_simulation_result env result sent)"
    if "sent = (\<not> is_optimistic_version (sri_optimistic_version r))" for sent
    using adds_simulation_result [of n sent result env] that r(1) by (auto simp: result_owed_def split: if_splits)
  then show ?thesis using r assms adds_first [OF adds_sort_simulation_result [OF r]]
    by (simp add: step_sim_result_def)
next
  case False
  then show ?thesis using assms adds_simulation_result [of n False result env]
    by (auto simp: step_sim_result_def intro!: adds_ret split: option.splits)
qed

section \<open>Merged blocks\<close>

lemma adds_merge_response: "adds n {#} (\<lambda>_. True) (handle_merge_response env ck response)"
  unfolding handle_merge_response_def Let_def by (intro adds_rules) simp_all

lemma adds_merged:
  fixes env :: "'b auction_env"
  shows "adds n {#} (\<lambda>_. True) (step_merge_result env ck sd result)"
proof -
  have d: "adds n {#} (\<lambda>_. True) (hbind (hget (\<lambda>c. dispatch_merged (ck_now ck) req response (cx_sims c))) (\<lambda>res.
      case res of None \<Rightarrow> hpanic
      | Some (started, sims) \<Rightarrow> hseq (hset (\<lambda>c. c\<lparr>cx_sims := sims\<rparr>))
          (hsend (case started of Some s \<Rightarrow> [SimStartedMsg s] | None \<Rightarrow> []))) :: ('b, unit) act)" for req response
    unfolding adds_def
  proof (intro allI impI)
    fix c :: "'b Context" and S N
    assume s: "sound n c S N"
    then obtain asked got where p: "pool_ok (cx_sims c, asked, got)" "S + pub got = N + pub asked + pending_of c"
      by (auto simp: sound_def ledger_def)
    obtain st s' where "dispatch_merged (ck_now ck) req response (cx_sims c) = Some (st, s')" "pool_ok (s', asked, got)"
      using pool.step_total [OF p(1), of "ae_x env" "DispatchMergedOp (ck_now ck) req response"]
        pool.step_inv [OF p(1), of "ae_x env" "DispatchMergedOp (ck_now ck) req response"] by fastforce
    then show "wp (hbind (hget (\<lambda>c. dispatch_merged (ck_now ck) req response (cx_sims c))) (\<lambda>res.
      case res of None \<Rightarrow> hpanic
      | Some (started, sims) \<Rightarrow> hseq (hset (\<lambda>c. c\<lparr>cx_sims := sims\<rparr>))
          (hsend (case started of Some s \<Rightarrow> [SimStartedMsg s] | None \<Rightarrow> []))))
      (\<lambda>a c' os. True \<and> sound n c' (S + {#}) (N + answers os) \<and> deliveries os = []) c"
      using s p(2) by (auto simp: sound_def at_slot_def ledger_def split: option.splits)
  qed
  show ?thesis
    unfolding step_merge_result_def by (intro adds_rules adds_next [OF adds_merge_response] d) simp_all
qed

section \<open>Requests of the proposer\<close>

lemma merger_get_header_total: "merger_get_header cfg now e boost m c \<noteq> None"
  using log_total by (force simp: merger_get_header_def Let_def split: option.splits)

lemma adds_get_header:
  assumes "adjustor_quiet env" "sl_bid_slot sd = n"
  shows "adds n {#Req tx#} (\<lambda>_. True) (step_get_header env ck sd params tx boost)"
proof -
  have a: "adds n {#} (\<lambda>_. True) (send_to_sim env ck req True)"
    if "ae_try_adjust env b entry slot_data dry = Some (a, req, f)" for b entry slot_data dry a req f
    using that assms(1) adds_send_to_sim [of n req env ck True] unfolding adjustor_quiet_def by metis
  have "adds n {#} (\<lambda>_. True) (context_get_header env ck ph sd boost)" for ph
    unfolding context_get_header_def
    by (intro adds_rules adds_next [OF adds_store_data] adds_next [OF a])
      (auto simp: merger_get_header_total split: if_splits)
  then have "adds n {#Req tx#} (\<lambda>_. True) (handle_get_header env ck params sd tx boost)" if "hp_slot params = n"
    unfolding handle_get_header_def using that
    by (auto simp: at_slot_def intro!: adds_get adds_next adds_hsend)
  then show ?thesis unfolding step_get_header_def using assms(2) by (auto intro!: adds_hsend)
qed

lemma adds_get_bid: "adds n {#Req tx#} (\<lambda>_. True) (handle_get_execution_payload_bid env params sd tx)"
  unfolding handle_get_execution_payload_bid_def by (auto intro!: adds_get adds_hsend)

end
