(* ===== verification/Auction_Runs.thy ===== *)
theory Auction_Runs
  imports Auction_Accounts
begin

text \<open>
  Runs of the auctioneer: that it never panics, that every submission is answered once, that the loop
  over the simulation results ends, and that at most one payload is delivered for a slot.
\<close>

section \<open>Definitions\<close>

text \<open>The first slot whose payload may still be delivered.\<close>

fun open_from :: "State \<Rightarrow> nat" where
  "open_from (Broadcasting slot_data _) = Suc (unat (sl_bid_slot slot_data))"
| "open_from st = unat (state_bid_slot st)"

text \<open>The payloads delivered between two states: of increasing slots, none of them open afterwards.\<close>

definition window :: "State \<Rightarrow> State \<Rightarrow> Output list \<Rightarrow> bool" where
  "window st st' os \<longleftrightarrow> open_from st \<le> open_from st' \<and> sorted_wrt (<) (deliveries os) \<and>
     (\<forall>d \<in> set (deliveries os). open_from st \<le> unat d \<and> unat d < open_from st')"

definition steps :: "State \<Rightarrow> token multiset \<Rightarrow> ('b, State) act \<Rightarrow> bool" where
  "steps st A m \<longleftrightarrow> (\<forall>c S N. sound (state_bid_slot st) c S N \<longrightarrow>
     wp m (\<lambda>st' c' os. sound (state_bid_slot st') c' (S + A) (N + answers os) \<and> window st st' os) c)"

text \<open>What an event asks an answer for.\<close>

fun asked_of :: "Event \<Rightarrow> token multiset" where
  "asked_of (EvSubmission sub) = pub {#sd_submission_ref sub#}"
| "asked_of (EvGetHeader _ tx _) = {#Req tx#}"
| "asked_of (EvGetExecutionPayloadBid _ tx) = {#Req tx#}"
| "asked_of (EvSubmitBuilderPreferences _ _ _ tx) = {#Req tx#}"
| "asked_of (EvGetPayload _ _ _ tx) = {#Req tx#}"
| "asked_of _ = {#}"

definition asked_events :: "(clock \<times> Event) list \<Rightarrow> token multiset" where
  "asked_events evs = sum_list (map (\<lambda>(ck, ev). asked_of ev) evs)"

text \<open>Only the loop itself makes simulation results into events.\<close>

fun event_ok :: "'b auction_env \<Rightarrow> clock \<times> Event \<Rightarrow> bool" where
  "event_ok env (ck, EvSimResult _) = False"
| "event_ok env (ck, ev) = clock_ok env ck"

fun requested :: "Input \<Rightarrow> token multiset" where
  "requested (Pass i) = asked_events (li_events i) +
     asked_events (map (\<lambda>(ck, s). (ck, EvSubmission s)) (li_submissions i))"
| "requested _ = {#}"

fun input_ok :: "'b auction_env \<Rightarrow> Input \<Rightarrow> bool" where
  "input_ok env (Pass i) \<longleftrightarrow> list_all (event_ok env) (li_events i) \<and>
     list_all (\<lambda>(ck, s). clock_ok env ck) (li_submissions i) \<and>
     list_all (\<lambda>(ck, r). clock_ok env ck) (li_merged i) \<and> list_all (\<lambda>(ck, d). clock_ok env ck) (li_slots i)"
| "input_ok env _ \<longleftrightarrow> True"

text \<open>A handler that does not touch the simulation pool.\<close>

definition leaves :: "('b, 'a) act \<Rightarrow> bool" where
  "leaves m \<longleftrightarrow> (\<forall>c a c' os. m c = Some (a, c', os) \<longrightarrow> cx_sims c' = cx_sims c)"

text \<open>A run: the data of slot 7 arrive, a header is asked for, two submissions are made and a payload is
  asked for that the relay does not have.\<close>

definition sample_blinded :: SignedBlindedBeaconBlock where
  "sample_blinded = \<lparr>bk_fork = Fulu, bk_slot = 7, bk_proposer_index = 3, bk_parent_root = 6, bk_state_root = 0,
     bk_body_rest = [], bk_execution_payload =
       \<lparr>eh_parent_hash = 5, eh_fee_recipient = 3, eh_state_root = 1, eh_receipts_root = 1, eh_logs_bloom = 0,
        eh_prev_randao = 8, eh_block_number = 1, eh_gas_limit = 30, eh_gas_used = 21, eh_timestamp = 1000,
        eh_extra_data = [], eh_base_fee_per_gas = 1, eh_block_hash = 77, eh_transactions_root = 1,
        eh_withdrawals_root = 11, eh_blob_gas_used = 0, eh_excess_blob_gas = 0\<rparr>,
     bk_blob_kzg_commitments = [], bk_signature = []\<rparr>"

definition sample_gp_trace :: GetPayloadTrace where
  "sample_gp_trace = \<lparr>gpt_receive = 0, gpt_read_body = 0, gpt_start_handler = 0, gpt_decode = 0,
     gpt_proposer_index_validated = 0, gpt_signature_validated = 0, gpt_payload_fetched = 0,
     gpt_slot_start_awaited = 0, gpt_gossiped = 0, gpt_validation_complete = 0, gpt_beacon_client_broadcast = 0,
     gpt_broadcaster_block_broadcast = 0, gpt_on_deliver_payload = 0\<rparr>"

definition sample_inputs :: "Input list" where
  "sample_inputs =
     [Pass \<lparr>li_events = [(sample_clock, EvGetHeader \<lparr>hp_slot = 7, hp_parent_hash = 5, hp_pubkey = 2\<rparr> 1 True)],
        li_clock = sample_clock, li_submissions = [], li_merged = [],
        li_slots = [(sample_clock, 7, Some sample_validator, [sample_attrs], None)]\<rparr>,
      SyncReport 0 (Some True),
      Pass \<lparr>li_events = [(sample_clock, EvGetPayload 77 sample_blinded sample_gp_trace 2)],
        li_clock = sample_clock, li_submissions = [(sample_clock, sample_data), (sample_clock, sample_data)],
        li_merged = [], li_slots = []\<rparr>]"

section \<open>Composition\<close>

lemma window_refl [simp]: "deliveries os = [] \<Longrightarrow> window st st os"
  by (simp add: window_def)

lemma window_trans: "window st s1 os \<Longrightarrow> window s1 st' ps \<Longrightarrow> window st st' (os @ ps)"
  unfolding window_def sorted_wrt_append deliveries_simps word_less_nat_alt set_append by fastforce

lemma stepsD: "steps st A m \<Longrightarrow> sound (state_bid_slot st) c S N \<Longrightarrow>
   wp m (\<lambda>st' c' os. sound (state_bid_slot st') c' (S + A) (N + answers os) \<and> window st st' os) c"
  by (simp add: steps_def)

lemma steps_bind:
  fixes m :: "('b, State) act"
  assumes "steps st A m" "\<And>s1. steps s1 B (f s1)"
  shows "steps st (A + B) (hbind m f)"
  unfolding steps_def
proof (intro allI impI)
  fix c :: "'b Context" and S N assume "sound (state_bid_slot st) c S N"
  from stepsD [OF assms(1) this]
  show "wp (hbind m f) (\<lambda>st' c' os. sound (state_bid_slot st') c' (S + (A + B)) (N + answers os) \<and> window st st' os) c"
    unfolding wp_hbind
  proof (rule wp_mono)
    fix s1 and c1 :: "'b Context" and os
    assume "sound (state_bid_slot s1) c1 (S + A) (N + answers os) \<and> window st s1 os"
    then have w: "window st s1 os" and "wp (f s1) (\<lambda>st' c2 ps. sound (state_bid_slot st') c2 (S + A + B)
        (N + answers os + answers ps) \<and> window s1 st' ps) c1"
      using stepsD [OF assms(2)] by blast+
    from this(2) show "wp (f s1) (\<lambda>st' c2 ps. sound (state_bid_slot st') c2 (S + (A + B)) (N + answers (os @ ps)) \<and>
        window st st' (os @ ps)) c1"
      by (rule wp_mono) (auto simp: add.assoc intro: window_trans [OF w])
  qed
qed

lemma steps_adds:
  fixes m :: "('b, 'a) act"
  assumes "adds (state_bid_slot st) A R m" "\<And>a. R a \<Longrightarrow> steps st B (f a)"
  shows "steps st (A + B) (hbind m f)"
  unfolding steps_def
proof (intro allI impI)
  fix c :: "'b Context" and S N assume "sound (state_bid_slot st) c S N"
  from addsD [OF assms(1) this]
  show "wp (hbind m f) (\<lambda>st' c' os. sound (state_bid_slot st') c' (S + (A + B)) (N + answers os) \<and> window st st' os) c"
    unfolding wp_hbind
  proof (rule wp_mono)
    fix a and c1 :: "'b Context" and os
    assume "R a \<and> sound (state_bid_slot st) c1 (S + A) (N + answers os) \<and> deliveries os = []"
    then have w: "deliveries os = []" and "wp (f a) (\<lambda>st' c2 ps. sound (state_bid_slot st') c2 (S + A + B)
        (N + answers os + answers ps) \<and> window st st' ps) c1"
      using stepsD [OF assms(2)] by blast+
    from this(2) show "wp (f a) (\<lambda>st' c2 ps. sound (state_bid_slot st') c2 (S + (A + B)) (N + answers (os @ ps)) \<and>
        window st st' (os @ ps)) c1"
      by (rule wp_mono) (auto simp: add.assoc w window_def)
  qed
qed

lemma steps_hret: "state_bid_slot st' = state_bid_slot st \<Longrightarrow> open_from st' = open_from st \<Longrightarrow> steps st {#} (hret st')"
  by (simp add: steps_def window_def)

lemma steps_stay:
  assumes "adds (state_bid_slot st) A R m"
  shows "steps st A (hseq m (hret st))"
  using steps_adds [OF assms, of "{#}" "\<lambda>_. hret st"] steps_hret [of st st] by simp

lemma steps_get: "(\<And>c. steps st B (f (g c))) \<Longrightarrow> steps st B (hbind (hget g) f)"
  using steps_adds [of st "{#}" "\<lambda>a. \<exists>c. a = g c" "hget g" B f] by (auto intro: adds_hget)

lemma steps_set:
  "(\<And>c S N. sound (state_bid_slot st) c S N \<Longrightarrow> sound (state_bid_slot st) (g c) S N) \<Longrightarrow> steps st B (f ()) \<Longrightarrow>
   steps st B (hbind (hset g) f)"
  using steps_adds [of st "{#}" "\<lambda>_. True" "hset g" B f] by (auto intro: adds_hset)

section \<open>Deliveries\<close>

lemma unblind_slot: "unblind x msg blinded p sd = Inr (r, b) \<Longrightarrow> bk_slot (sp_signed_block b) = bk_slot blinded"
  by (auto simp: unblind_def Let_def and_then_def split: if_splits sum.splits)

lemma context_get_payload_slot:
  "context_get_payload x msg ck slot blinded p tr sd = Inr (r, b, t) \<Longrightarrow> bk_slot (sp_signed_block b) = slot"
  by (auto simp: context_get_payload_def validate_proposal_coordinate_def and_then_def ensure_def Let_def
      dest!: unblind_slot split: if_splits sum.splits prod.splits)

lemma delivers:
  assumes "sound n c S N"
  shows "wp (handle_get_payload env ck entry blinded tr tx sd) (\<lambda>r c' os. sound n c' (S + {#Req tx#}) (N + answers os) \<and>
    deliveries os = (case r of Some _ \<Rightarrow> [n] | None \<Rightarrow> [])) c"
proof -
  have "cx_bid_slot c = n" using assms by (simp add: sound_def at_slot_def)
  then show ?thesis using sound_both [OF assms, of "{#Req tx#}"]
    by (auto simp: handle_get_payload_def dest: context_get_payload_slot split: sum.splits)
qed

text \<open>A request for a payload of the slot under auction leads to broadcasting exactly when it is
  delivered.\<close>

lemma delivers_state:
  assumes "sound (sl_bid_slot sd) c S N"
  shows "wp (hbind (handle_get_payload env ck entry blinded tr tx sd) (\<lambda>res.
      hret (case res of Some h \<Rightarrow> Broadcasting sd h | None \<Rightarrow> Sorting sd)))
    (\<lambda>st' c' os. sound (state_bid_slot st') c' (S + {#Req tx#}) (N + answers os) \<and> window (Sorting sd) st' os) c"
  unfolding wp_hbind
  by (rule wp_mono [OF delivers [OF assms]]) (auto simp: window_def split: option.splits)

lemma sound_wait:
  "sound n c S N \<Longrightarrow> cx_pending_payload c = None \<Longrightarrow>
   sound n (c\<lparr>cx_pending_payload := Some p\<rparr>) (S + {#Req (pp_res_tx p)#}) N"
  unfolding sound_def at_slot_def ledger_def
  by (simp add: pending_of_def)

lemma sound_wake:
  "sound n c S N \<Longrightarrow> cx_pending_payload c = Some p \<Longrightarrow>
   sound n (c\<lparr>cx_pending_payload := None\<rparr>) S (N + {#Req (pp_res_tx p)#})"
  unfolding sound_def at_slot_def ledger_def by (simp add: pending_of_def)

lemma sound_cancel: "sound n c (S + A) (N + A + B) \<Longrightarrow> sound n c S (N + B)"
  using ledger_cancel [of c S A "N + B"] by (simp add: sound_def ac_simps)

lemma steps_get_payload:
  fixes env :: "'b auction_env"
  shows "steps (Sorting sd) {#Req tx#} (step_get_payload env ck sd h blinded tr tx)"
  unfolding steps_def
proof (intro allI impI)
  fix c :: "'b Context" and S N assume s: "sound (state_bid_slot (Sorting sd)) c S N"
  show "wp (step_get_payload env ck sd h blinded tr tx) (\<lambda>st' c' os. sound (state_bid_slot st') c' (S + {#Req tx#})
      (N + answers os) \<and> window (Sorting sd) st' os) c"
  proof (cases "map_of (cx_payloads c) h")
    case None
    then show ?thesis using s sound_both [OF s, of "{#Req tx#}"]
        sound_wait [OF s, of "\<lparr>pp_block_hash = h, pp_blinded = blinded, pp_trace = tr, pp_res_tx = tx\<rparr>"]
      by (cases "cx_pending_payload c") (auto simp: step_get_payload_def)
  next
    case (Some entry)
    then show ?thesis using delivers_state [of sd c S N env ck entry blinded tr tx] s by (simp add: step_get_payload_def)
  qed
qed

lemma steps_maybe_broadcast:
  fixes env :: "'b auction_env"
  shows "steps (Sorting sd) {#} (maybe_start_broadcasting env ck sd)"
  unfolding steps_def
proof (intro allI impI)
  fix c :: "'b Context" and S N assume s: "sound (state_bid_slot (Sorting sd)) c S N"
  consider (idle) "\<forall>p. cx_pending_payload c = Some p \<longrightarrow> map_of (cx_payloads c) (pp_block_hash p) = None"
    | (found) p entry where "cx_pending_payload c = Some p" "map_of (cx_payloads c) (pp_block_hash p) = Some entry"
    by fastforce
  then show "wp (maybe_start_broadcasting env ck sd) (\<lambda>st' c' os. sound (state_bid_slot st') c' (S + {#})
      (N + answers os) \<and> window (Sorting sd) st' os) c"
  proof cases
    case idle
    then show ?thesis using s
      by (cases "cx_pending_payload c") (simp_all add: maybe_start_broadcasting_def maybe_try_unblind_def)
  next
    case found
    have "wp (hbind (handle_get_payload env ck entry (pp_blinded p) (pp_trace p) (pp_res_tx p) sd) (\<lambda>res.
        hret (case res of Some h \<Rightarrow> Broadcasting sd h | None \<Rightarrow> Sorting sd)))
      (\<lambda>st' c' os. sound (state_bid_slot st') c' S (N + answers os) \<and> window (Sorting sd) st' os)
      (c\<lparr>cx_pending_payload := None\<rparr>)"
      using sound_wake [OF s found(1)] unfolding state_bid_slot.simps
      by (rule wp_mono [OF delivers_state]) (use sound_cancel [of _ _ S "{#Req (pp_res_tx p)#}" N] in auto)
    then show ?thesis using found
      by (simp add: maybe_start_broadcasting_def maybe_try_unblind_def)
  qed
qed

section \<open>Steps\<close>

lemma steps_new_slot:
  fixes env :: "'b auction_env"
  assumes "state_bid_slot st < slot" "state_bid_slot st' = slot" "open_from st' = unat slot"
  shows "steps st {#} (hseq (context_on_new_slot env slot) (hret st'))"
  unfolding steps_def
proof (intro allI impI)
  fix c :: "'b Context" and S N assume s: "sound (state_bid_slot st) c S N"
  have o: "open_from st \<le> unat slot" using assms(1) by (cases st) (auto simp: word_less_nat_alt)
  obtain asked got where p: "pool_ok (cx_sims c, asked, got)" "S + pub got = N + pub asked + pending_of c"
    using s by (auto simp: sound_def ledger_def)
  obtain drops sims where n: "sim_on_new_slot slot (cx_sims c) = (drops, sims)" by (metis prod.exhaust)
  have q: "\<exists>asked got. pool_ok (sims, asked, got) \<and> S + pub got = N + pub asked + pending_of c"
    using pool.step_inv [OF p(1), of "ae_x env" "NewSlotOp slot"] p(2) n by auto
  show "wp (hseq (context_on_new_slot env slot) (hret st'))
     (\<lambda>st' c' os. sound (state_bid_slot st') c' (S + {#}) (N + answers os) \<and> window st st' os) c"
    using q assms(2,3) o
    by (simp add: n context_on_new_slot_def wp_option wp_if sound_def at_slot_def ledger_def window_def process_slot_def
      Let_def pending_of_def ac_simps split: option.splits prod.splits)
qed

lemma process_slot_data_slot [simp]:
  "state_bid_slot (process_slot_data env slot m r attrs il) = slot"
  "open_from (process_slot_data env slot m r attrs il) = unat slot"
  by (auto simp: process_slot_data_def Let_def split: option.splits)

lemma extend_slot_data_slot [simp]: "sl_bid_slot (extend_slot_data attrs il sd) = sl_bid_slot sd"
  by (simp add: extend_slot_data_def Let_def)

lemma steps_slot_data: "steps st {#} (step_slot_data env st slot r attrs il)"
proof (cases "slot \<le> state_bid_slot st")
  case True
  then show ?thesis by (cases st) (auto simp: step_slot_data_def intro!: steps_hret)
next
  case False
  then show ?thesis by (auto simp: step_slot_data_def intro!: steps_new_slot)
qed

lemma steps_submission:
  assumes "adjustor_quiet env" "clock_ok env ck"
  shows "steps (Sorting sd) (pub {#sd_submission_ref sub#})
    (hseq (handle_submission env ck sub sd) (maybe_start_broadcasting env ck sd))"
  using steps_adds [OF adds_handle_submission [OF assms], of "Sorting sd" "{#}" "\<lambda>_. maybe_start_broadcasting env ck sd"]
    steps_maybe_broadcast [of sd env ck] by simp

lemma steps_gossip:
  "steps (Sorting sd) {#} (hseq (handle_gossip_payload p sd) (maybe_start_broadcasting env ck sd))"
  unfolding handle_gossip_payload_def
  by (intro steps_set steps_maybe_broadcast) (auto simp: Let_def split: option.splits)

lemma steps_preferences:
  "steps st {#Req tx#} (hseq (hset (\<lambda>c. c\<lparr>cx_builder_preferences := f c\<rparr>)) (hseq (hsend [PreferencesReply tx r]) (hret st)))"
  by (intro steps_set steps_stay [OF adds_hsend]) simp_all

lemma steps_deadline:
  "steps st {#} (state_step env ck st (EvAttestationDeadline slot head_root))"
  by (auto intro!: steps_get steps_set steps_stay [OF adds_hsend0] split: prod.splits option.splits)

lemma steps_state_step:
  assumes "adjustor_quiet env" "event_ok env (ck, ev)"
  shows "steps st (asked_of ev) (state_step env ck st ev)"
  using assms
  by (induction env ck st ev rule: state_step.induct) (auto simp del: state_step.simps(26) simp add: steps_deadline
  intro!: steps_slot_data steps_get_payload steps_submission steps_gossip steps_preferences
  steps_stay [OF adds_send_submission_result] steps_stay [OF adds_hsend] steps_stay [OF adds_get_header]
  steps_stay [OF adds_get_bid] steps_stay [OF adds_merged] steps_stay [OF adds_demotion] steps_stay [OF adds_hset] steps_hret)

section \<open>Simulation results\<close>

lemma leaves_rules:
  "leaves (hret a)" "leaves (hget g)" "leaves (hsend os)" "leaves hpanic"
  "(\<And>c. cx_sims (h c) = cx_sims c) \<Longrightarrow> leaves (hset h)"
  by (auto simp: leaves_def hret_def hget_def hsend_def hpanic_def hset_def)

lemma leaves_bind: "leaves m \<Longrightarrow> (\<And>a. leaves (f a)) \<Longrightarrow> leaves (hbind m f)"
  unfolding leaves_def hbind_def by (fastforce split: option.splits prod.splits)

lemma leaves_cases:
  "leaves m \<Longrightarrow> leaves k \<Longrightarrow> leaves (if b then m else k)"
  "leaves m \<Longrightarrow> (\<And>w. leaves (f w)) \<Longrightarrow> leaves (case v of None \<Rightarrow> m | Some w \<Rightarrow> f w)"
  "(\<And>y z. leaves (g y z)) \<Longrightarrow> leaves (case p of (y, z) \<Rightarrow> g y z)"
  "(\<And>e. leaves (h e)) \<Longrightarrow> (\<And>y. leaves (i y)) \<Longrightarrow> leaves (case r of Inl e \<Rightarrow> h e | Inr y \<Rightarrow> i y)"
  by (simp_all split: option.splits prod.splits sum.splits)

lemma leaves_result: "leaves (handle_simulation_result env result sent)"
  unfolding handle_simulation_result_def react_to_failure_def disable_adjustments_def handle_builder_demotion_def
    send_submission_result_def Let_def
  by (intro leaves_rules leaves_bind leaves_cases) simp_all

lemma leaves_sort: "leaves (sort_simulation_result env ck result)"
  unfolding sort_simulation_result_def demote_in_sorter_def sort_into_def send_submission_result_def Let_def
  by (intro leaves_rules leaves_bind leaves_cases) simp_all

lemma leaves_done: "leaves (handle_done env ck st d)"
proof -
  have "leaves (state_step env ck st (EvSimResult result))" for result
    by (cases st) (auto simp: step_sim_result_def intro!: leaves_bind leaves_cases leaves_rules leaves_result leaves_sort)
  moreover have "leaves (on_merged_sim_result inner)" for inner :: MergedSimulationResultInner
    unfolding on_merged_sim_result_def by (intro leaves_rules leaves_bind leaves_cases) simp_all
  ultimately show ?thesis unfolding handle_done_def
    by (auto split: SimResult.splits option.splits intro!: leaves_bind leaves_rules)
qed

lemma result_owed_owed: "pub (owed_result (Validate sid result)) = result_owed result"
  by (auto simp: result_owed_def is_optimistic_version_def split: option.splits) (metis OptimisticVersion.exhaust)

lemma emit_quiet: "answers (emit_sim_outcome d) = {#}" "deliveries (emit_sim_outcome d) = []"
  by (auto simp: emit_sim_outcome_def Let_def split: SimResult.splits option.splits prod.splits)

lemma adds_merged_result: "adds n {#} (\<lambda>_. True) (on_merged_sim_result inner)"
  unfolding on_merged_sim_result_def by (intro adds_rules) simp_all

lemma steps_done: "steps st (pub (owed_result (sdn_result d))) (handle_done env ck st d)"
proof -
  have r: "steps st (result_owed result) (state_step env ck st (EvSimResult result))" for result
    by (cases st) (auto intro!: steps_stay [OF adds_step_sim_result]
      steps_stay [OF adds_simulation_result [where sent = False, simplified]])
  have "steps st (pub (owed_result (sdn_result d))) (case sdn_result d of
        Validate _ result \<Rightarrow> state_step env ck st (EvSimResult result)
      | ValidateMerged _ (Some inner) \<Rightarrow> hseq (on_merged_sim_result inner) (hret st)
      | ValidateMerged _ None \<Rightarrow> hret st)"
    using r by (auto simp: result_owed_owed split: SimResult.splits option.splits
      intro!: steps_stay [OF adds_merged_result] steps_hret)
  from steps_adds [OF adds_hsend this, of "emit_sim_outcome d" "{#}"] show ?thesis
    unfolding handle_done_def by (simp add: emit_quiet)
qed

lemma polls:
  fixes env :: "'b auction_env"
  assumes "sound (state_bid_slot st) c S N"
  shows "wp (poll_once env ck st) (\<lambda>(new, r) c' os. case r of
      None \<Rightarrow> os = [] \<and> sound (state_bid_slot st) c' S N \<and> sm_rx (cx_sims c') = [] \<and> sm_answered (cx_sims c') = []
    | Some st' \<Rightarrow> sound (state_bid_slot st') c' S (N + answers os) \<and> window st st' os \<and>
        backlog (cx_sims c') < backlog (cx_sims c)) c"
proof -
  obtain asked got where p: "pool_ok (cx_sims c, asked, got)" "S + pub got = N + pub asked + pending_of c"
    using assms by (auto simp: sound_def ledger_def)
  obtain new d sims where d: "next_done (ae_x env) (ck_now ck) (cx_sims c) = Some (new, d, sims)"
      "pool_ok (sims, asked, got + (case d of Some d \<Rightarrow> owed_result (sdn_result d) | None \<Rightarrow> {#}))"
    using pool.step_total [OF p(1), of "ae_x env" "PollOp (ck_now ck)"]
      pool.step_inv [OF p(1), of "ae_x env" "PollOp (ck_now ck)"] by fastforce
  have b: "case d of Some _ \<Rightarrow> backlog sims < backlog (cx_sims c) | None \<Rightarrow> sm_rx sims = [] \<and> sm_answered sims = []"
    using next_done_from_backlog [OF d(1) [unfolded next_done_def]] p(1) by (simp add: pool_ok_def accounts_ok_def)
  show ?thesis
  proof (cases d)
    case None
    then show ?thesis using d p(2) b assms by (auto simp: poll_once_def sound_def at_slot_def ledger_def)
  next
    case (Some dn)
    let ?c = "c\<lparr>cx_sims := sims\<rparr>" and ?R = "pub (owed_result (sdn_result dn))"
    have "ledger ?c S (N + ?R)"
      unfolding ledger_def using d(2) p(2) Some by (intro exI conjI) (simp, simp add: ac_simps)
    then have "sound (state_bid_slot st) ?c S (N + ?R)" using assms by (simp add: sound_def at_slot_def)
    from stepsD [OF steps_done this]
    have "wp (handle_done env ck st dn) (\<lambda>st' c' os. sound (state_bid_slot st') c' S (N + answers os) \<and>
        window st st' os) ?c"
      by (rule wp_mono) (auto simp: sound_def ac_simps intro: ledger_cancel [of _ S ?R])
    then have "wp (handle_done env ck st dn) (\<lambda>st' c' os. sound (state_bid_slot st') c' S (N + answers os) \<and>
        window st st' os \<and> backlog (cx_sims c') < backlog (cx_sims c)) ?c"
      using leaves_done [of env ck st dn] b Some unfolding wp_Some leaves_def by fastforce
    then show ?thesis using d(1) Some by (auto simp: poll_once_def elim!: wp_mono)
  qed
qed

text \<open>Draining ends: every turn but the last makes the backlog smaller.\<close>

lemma drains:
  fixes env :: "'b auction_env"
  assumes "sound (state_bid_slot st) c S N"
  shows "wp (drain env ck st started) (\<lambda>(started', st') c' os. sound (state_bid_slot st') c' S (N + answers os) \<and>
    window st st' os \<and> sm_rx (cx_sims c') = [] \<and> sm_answered (cx_sims c') = []) c"
  using assms
proof (induction "backlog (cx_sims c)" arbitrary: st started c N rule: less_induct)
  case less
  obtain new r c1 os where o: "poll_once env ck st c = Some ((new, r), c1, os)" and
    q: "case r of
      None \<Rightarrow> os = [] \<and> sound (state_bid_slot st) c1 S N \<and> sm_rx (cx_sims c1) = [] \<and> sm_answered (cx_sims c1) = []
    | Some st' \<Rightarrow> sound (state_bid_slot st') c1 S (N + answers os) \<and> window st st' os \<and>
        backlog (cx_sims c1) < backlog (cx_sims c)"
    using polls [OF less.prems, of env ck] by (auto simp: wp_Some)
  show ?case
  proof (cases r)
    case None
    then show ?thesis using o q by (simp add: wp_Some drain.simps [of env ck st started c])
  next
    case (Some st1)
    then have "wp (drain env ck st1 (started @ new)) (\<lambda>(started', st') c' ps.
        sound (state_bid_slot st') c' S (N + answers os + answers ps) \<and>
        window st1 st' ps \<and> sm_rx (cx_sims c') = [] \<and> sm_answered (cx_sims c') = []) c1"
      using q by (intro less.hyps) auto
    then show ?thesis using o q Some
      by (auto simp: wp_Some drain.simps [of env ck st started c] add.assoc intro: window_trans)
  qed
qed

lemma steps_drain:
  fixes env :: "'b auction_env"
  shows "steps st {#} (drain_results env ck st)"
  unfolding steps_def drain_results_def wp_hbind
proof (intro allI impI)
  fix c :: "'b Context" and S N assume "sound (state_bid_slot st) c S N"
  from drains [OF this, of env ck "[]"]
  show "wp (drain env ck st []) (\<lambda>a s1 os1. wp (case a of (started, st1) \<Rightarrow> hseq (hsend (map SimStartedMsg started)) (hret st1))
     (\<lambda>b s2 os2. sound (state_bid_slot b) s2 (S + {#}) (N + answers (os1 @ os2)) \<and> window st b (os1 @ os2)) s1) c"
    by (rule wp_mono) (auto simp: window_def)
qed

section \<open>Runs\<close>

lemma steps_all:
  assumes "adjustor_quiet env" "list_all (event_ok env) evs"
  shows "steps st (asked_events evs) (step_all env evs st)"
  using assms(2)
proof (induction evs arbitrary: st)
  case (Cons e evs)
  obtain ck ev where e: "e = (ck, ev)" by (cases e)
  show ?case using steps_bind [OF steps_state_step [OF assms(1)], of ck ev "asked_events evs" "step_all env evs" st] Cons e
    by (simp add: asked_events_def)
qed (simp add: asked_events_def steps_hret)

lemma steps_loop:
  assumes "adjustor_quiet env" "input_ok env (Pass i)"
  shows "steps st (requested (Pass i)) (loop_body env i st)"
proof -
  have s: "asked_events (map (\<lambda>(ck, r). (ck, EvMergeResult (Inr r))) ms) = {#}"
      "asked_events (map (\<lambda>(ck, slot, reg, attrs, il). (ck, EvSlotData slot reg attrs il)) ds) = {#}" for ms ds
    by (induction ms; induction ds; auto simp: asked_events_def)+
  let ?subs = "map (\<lambda>(ck, s). (ck, EvSubmission s)) (li_submissions i)"
  let ?ms = "map (\<lambda>(ck, r). (ck, EvMergeResult (Inr r))) (li_merged i)"
  let ?ds = "map (\<lambda>(ck, slot, reg, attrs, il). (ck, EvSlotData slot reg attrs il)) (li_slots i)"
  have "list_all (event_ok env) (li_events i)" "list_all (event_ok env) ?subs" "list_all (event_ok env) ?ms"
    "list_all (event_ok env) ?ds"
    using assms(2) by (auto simp: list_all_iff)
  note a = this [THEN steps_all [OF assms(1)]]
  show ?thesis unfolding loop_body_def
    using steps_bind [OF a(1) steps_bind [OF steps_drain steps_bind [OF a(2) steps_bind [OF a(3) a(4)]]], of st]
    by (simp add: s add.assoc)
qed

lemma sound_sims:
  assumes "sound n c S N" "\<And>asked got. pool_step x op (cx_sims c, asked, got) = Some (sims, asked, got)"
  shows "sound n (c\<lparr>cx_sims := sims\<rparr>) S N"
proof -
  obtain asked got where p: "pool_ok (cx_sims c, asked, got)" "S + pub got = N + pub asked + pending_of c"
    using assms(1) by (auto simp: sound_def ledger_def)
  then show ?thesis using assms(1) pool.step_inv [OF p(1), of x op, OF TrueI assms(2)]
    by (auto simp: sound_def at_slot_def ledger_def)
qed

lemma steps_input:
  assumes "adjustor_quiet env" "input_ok env i"
  shows "steps st (requested i) (auction_step env i st)"
proof (cases i)
  case (Pass l)
  then show ?thesis using steps_loop [OF assms(1)] assms(2) by simp
next
  case (SharedChange cache failsafe merging identity)
  then show ?thesis by (auto intro!: steps_set steps_hret)
next
  case (TaskEnds k time tasks)
  then show ?thesis by (auto intro!: steps_set steps_hret sound_sims [where op = "FinishOp k time tasks" and x = "ae_x env"])
next
  case (SyncReport sid reported)
  then show ?thesis by (auto intro!: steps_set steps_hret sound_sims [where op = "SyncOp sid reported" and x = "ae_x env"])
qed

lemma steps_run:
  assumes "adjustor_quiet env" "list_all (input_ok env) is"
  shows "steps st (sum_list (map requested is)) (auction_run env is st)"
  using assms(2)
proof (induction "is" arbitrary: st)
  case (Cons i "is")
  then show ?case using steps_bind [OF steps_input [OF assms(1)], of i "sum_list (map requested is)" "auction_run env is" st]
    by simp
qed (simp add: steps_hret)

text \<open>A run of the relay's auctioneer from its start.\<close>

lemma sound_new: "sound 0 (Context_new ld adjustor (Simulators_new configs) cache merging identity) {#} {#}"
  using pool_ok_new [of configs] by (auto simp: pending_of_def sound_def at_slot_def ledger_def Context_new_def BidSorter_new_def)

lemma runs:
  assumes "adjustor_quiet env" "list_all (input_ok env) is"
  obtains st c os where
    "auction_run env is default_state (Context_new ld adjustor (Simulators_new configs) cache merging identity) = Some (st, c, os)"
    "sound (state_bid_slot st) c (sum_list (map requested is)) (answers os)" "window default_state st os"
proof -
  have "sound (state_bid_slot default_state) (Context_new ld adjustor (Simulators_new configs) cache merging identity) {#} {#}"
    by (simp add: default_state_def sound_new)
  from stepsD [OF steps_run [OF assms] this] show ?thesis using that by (auto simp: wp_Some)
qed

lemma sound_balance:
  assumes "sound n c S N"
  shows "S = N + pub (outstanding (cx_sims c)) + pending_of c"
proof -
  obtain asked got where "pool_ok (cx_sims c, asked, got)" "S + pub got = N + pub asked + pending_of c"
    using assms by (auto simp: sound_def ledger_def)
  then have "S + pub got = (N + pub (outstanding (cx_sims c)) + pending_of c) + pub got"
    by (simp add: pool_ok_def accounts_ok_def ac_simps)
  then show ?thesis by simp
qed

lemma sample_quiet: "adjustor_quiet sample_env"
  by (simp add: adjustor_quiet_def sample_env_def)

lemma sample_inputs_ok: "list_all (input_ok sample_env) sample_inputs"
  by (simp add: sample_inputs_def clock_ok_def sample_clock_def sample_env_def sample_externals_def)

section \<open>Properties\<close>



text \<open>C2. Over any run of the auctioneer the slots of the payloads it delivers are strictly increasing, so no slot
  has two payloads delivered, and none of them can be delivered again from the state reached.\<close>

theorem one_delivery_per_slot:
  assumes "adjustor_quiet env" "list_all (input_ok env) is"
  shows "\<exists>st c os. auction_run env is default_state
      (Context_new ld adjustor (Simulators_new configs) cache merging identity) = Some (st, c, os) \<and>
    sorted_wrt (<) (deliveries os) \<and> list_all (\<lambda>d. unat d < open_from st) (deliveries os)"
  by (rule runs [OF assms, of ld adjustor configs cache merging identity]) (auto simp: window_def list_all_iff)

theorem one_delivery_per_slot_witness:
  "adjustor_quiet sample_env \<and> list_all (input_ok sample_env) sample_inputs \<and>
   (\<exists>st c os. auction_run sample_env sample_inputs default_state
      (Context_new False () (Simulators_new []) LocalCache_new True 4) = Some (st, c, os) \<and>
    sorted_wrt (<) (deliveries os) \<and> list_all (\<lambda>d. unat d < open_from st) (deliveries os))"
  using one_delivery_per_slot [OF sample_quiet sample_inputs_ok, of False "()" "[]" LocalCache_new True 4]
    sample_quiet sample_inputs_ok by blast

text \<open>C10. In every state the auctioneer reaches, the loop that takes the finished simulations ends, although
  handling a result may start simulations and release answers: it returns with the channel of task
  events and the list of answers empty.\<close>

theorem drain_terminates:
  assumes "adjustor_quiet env" "list_all (input_ok env) is"
    "auction_run env is default_state
      (Context_new ld adjustor (Simulators_new configs) cache merging identity) = Some (st, c, os)"
  shows "\<exists>started st' c' os'. drain env ck st [] c = Some ((started, st'), c', os') \<and>
    sm_rx (cx_sims c') = [] \<and> sm_answered (cx_sims c') = []"
proof (rule runs [OF assms(1,2), of ld adjustor configs cache merging identity])
  fix st1 c1 os1
  assume "auction_run env is default_state
      (Context_new ld adjustor (Simulators_new configs) cache merging identity) = Some (st1, c1, os1)"
    "sound (state_bid_slot st1) c1 (sum_list (map requested is)) (answers os1)"
  then have "sound (state_bid_slot st) c (sum_list (map requested is)) (answers os)" using assms(3) by simp
  from drains [OF this, of env ck "[]"] show ?thesis by (auto simp: wp_Some)
qed

theorem drain_terminates_witness:
  "\<exists>st c os. adjustor_quiet sample_env \<and> list_all (input_ok sample_env) sample_inputs \<and>
    auction_run sample_env sample_inputs default_state
      (Context_new False () (Simulators_new []) LocalCache_new True 4) = Some (st, c, os) \<and>
    (\<exists>started st' c' os'. drain sample_env sample_clock st [] c = Some ((started, st'), c', os') \<and>
      sm_rx (cx_sims c') = [] \<and> sm_answered (cx_sims c') = [])"
proof (rule runs [OF sample_quiet sample_inputs_ok, of False "()" "[]" LocalCache_new True 4])
  fix st c os
  assume r: "auction_run sample_env sample_inputs default_state
      (Context_new False () (Simulators_new []) LocalCache_new True 4) = Some (st, c, os)"
  show ?thesis
    using drain_terminates [OF sample_quiet sample_inputs_ok r, of sample_clock] sample_quiet sample_inputs_ok r by blast
qed

end
