(* ===== verification/Merging_Wire.thy ===== *)
theory Merging_Wire
  imports Api_Errors Block_Merger
begin

text \<open>
  The protocol between the relay and the merge builder (\<open>crates/tcp-types/src/merging\<close>): message types,
  the frame header, the relay's configuration message and its check, and the conversions between the
  relay's own payload types and the ones on the wire (\<open>crates/types/src/bid_submission.rs\<close>).

  Message bodies are encoded by a derived SSZ codec.  The decoders and the encoder of mergeable blocks are
  fields of the record \<open>merge_env\<close>, together with Keccak, the reading of the blob hashes of a signed
  transaction and the versioned hash of a commitment, which are library functions.
\<close>

unbundle bit_operations_syntax

section \<open>Frames\<close>

definition MERGING_PROTOCOL_VERSION :: u16 where "MERGING_PROTOCOL_VERSION = 6"
definition MERGING_HEADER_SIZE :: nat where "MERGING_HEADER_SIZE = 2"

datatype MergingMsgId =
    IdMergerRegistrationV1 | IdMergerAckV1 | IdPingV1 | IdPongV1 | IdRelayConfigV1 | IdSlotStartV1
  | IdMergeableBlockV1 | IdActivateBaseBlockV1 | IdRevokeOrderV1 | IdSlotEndV1 | IdMergedBlockV1 | IdRejectV1 | IdFatalV1

fun msg_id_byte :: "MergingMsgId \<Rightarrow> u8" where
  "msg_id_byte IdMergerRegistrationV1 = 0x01"
| "msg_id_byte IdMergerAckV1 = 0x02"
| "msg_id_byte IdPingV1 = 0x03"
| "msg_id_byte IdPongV1 = 0x04"
| "msg_id_byte IdRelayConfigV1 = 0x05"
| "msg_id_byte IdSlotStartV1 = 0x10"
| "msg_id_byte IdMergeableBlockV1 = 0x11"
| "msg_id_byte IdActivateBaseBlockV1 = 0x12"
| "msg_id_byte IdRevokeOrderV1 = 0x13"
| "msg_id_byte IdSlotEndV1 = 0x15"
| "msg_id_byte IdMergedBlockV1 = 0x40"
| "msg_id_byte IdRejectV1 = 0x70"
| "msg_id_byte IdFatalV1 = 0x71"

definition msg_id_try_from :: "u8 \<Rightarrow> (u8, MergingMsgId) Result" where
  "msg_id_try_from v =
     (if v = 0x01 then Inr IdMergerRegistrationV1 else if v = 0x02 then Inr IdMergerAckV1
      else if v = 0x03 then Inr IdPingV1 else if v = 0x04 then Inr IdPongV1
      else if v = 0x05 then Inr IdRelayConfigV1 else if v = 0x10 then Inr IdSlotStartV1
      else if v = 0x11 then Inr IdMergeableBlockV1 else if v = 0x12 then Inr IdActivateBaseBlockV1
      else if v = 0x13 then Inr IdRevokeOrderV1 else if v = 0x15 then Inr IdSlotEndV1
      else if v = 0x40 then Inr IdMergedBlockV1 else if v = 0x70 then Inr IdRejectV1
      else if v = 0x71 then Inr IdFatalV1 else Inl v)"

type_synonym MergingFlags = u8

definition MERGING_ZSTD_COMPRESSED :: MergingFlags where "MERGING_ZSTD_COMPRESSED = 1"

record MergingFrameHeader =
  fh_msg_id :: MergingMsgId
  fh_flags :: MergingFlags

datatype MergingHeaderError = TooShort | UnknownMsgId u8 | ExtensionMsgId u8

definition frame_header_new :: "MergingMsgId \<Rightarrow> MergingFrameHeader" where
  "frame_header_new i = \<lparr>fh_msg_id = i, fh_flags = 0\<rparr>"

definition with_zstd :: "MergingFrameHeader \<Rightarrow> MergingFrameHeader" where
  "with_zstd h = h\<lparr>fh_flags := fh_flags h OR MERGING_ZSTD_COMPRESSED\<rparr>"

definition is_zstd_compressed :: "MergingFrameHeader \<Rightarrow> bool" where
  "is_zstd_compressed h = (fh_flags h AND MERGING_ZSTD_COMPRESSED = MERGING_ZSTD_COMPRESSED)"

definition frame_header_append :: "MergingFrameHeader \<Rightarrow> bytes \<Rightarrow> bytes" where
  "frame_header_append h buffer = buffer @ [msg_id_byte (fh_msg_id h), fh_flags h]"

definition frame_header_decode :: "bytes \<Rightarrow> (MergingHeaderError, MergingFrameHeader) Result" where
  "frame_header_decode payload =
     (case payload of
        i # flags # _ \<Rightarrow>
          map_err (\<lambda>v. if v \<ge> 0x80 then ExtensionMsgId v else UnknownMsgId v)
            (and_then (msg_id_try_from i) (\<lambda>m. Inr \<lparr>fh_msg_id = m, fh_flags = flags\<rparr>))
      | _ \<Rightarrow> Inl TooShort)"

text \<open>\<open>append_frame\<close>: the header and the body of a message.\<close>

definition append_frame :: "bytes \<Rightarrow> MergingMsgId \<Rightarrow> bytes \<Rightarrow> bytes" where
  "append_frame buf i body = frame_header_append (frame_header_new i) buf @ body"

section \<open>Control messages\<close>

definition TOTAL_BPS :: u64 where "TOTAL_BPS = 10000"
definition MAX_BUILDER_COLLATERALS :: nat where "MAX_BUILDER_COLLATERALS = 256"

record MergerRegistrationV1 =
  rg_api_key :: bytes
  rg_relay_id :: bytes
  rg_min_version :: u16
  rg_max_version :: u16
  rg_supports_zstd :: bool

record MergerAckV1 =
  ak_version :: u16
  ak_status :: TcpStatus
  ak_error_msg :: bytes
  ak_max_orders_per_slot :: u32
  ak_max_frame_bytes :: u32

record BuilderCollateral =
  bc_builder_coinbase :: Address
  bc_collateral_safe :: Address

record RelayConfigV1 =
  rc_relay_fee_recipient :: Address
  rc_multisend_contract :: Address
  rc_relay_bps :: u64
  rc_merged_builder_bps :: u64
  rc_winning_builder_bps :: u64
  rc_distribution_gas_limit :: u64
  rc_builder_collaterals :: "BuilderCollateral list"

datatype RelayConfigError = InvalidBps u64 | EmptyCollaterals | TooManyCollaterals nat

definition relay_config_validate :: "RelayConfigV1 \<Rightarrow> (RelayConfigError, unit) Result" where
  "relay_config_validate c =
     (let total = rc_relay_bps c + rc_merged_builder_bps c + rc_winning_builder_bps c in
      if total \<ge> TOTAL_BPS then Inl (InvalidBps total)
      else if rc_builder_collaterals c = [] then Inl EmptyCollaterals
      else if length (rc_builder_collaterals c) > MAX_BUILDER_COLLATERALS
        then Inl (TooManyCollaterals (length (rc_builder_collaterals c)))
      else Inr ())"

definition collateral_safe :: "RelayConfigV1 \<Rightarrow> Address \<Rightarrow> Address option" where
  "collateral_safe c coinbase =
     map_option bc_collateral_safe (find (\<lambda>k. bc_builder_coinbase k = coinbase) (rc_builder_collaterals c))"

section \<open>Blocks\<close>

record ExecutionPayloadV3 =
  v3_parent_hash :: B256
  v3_fee_recipient :: Address
  v3_state_root :: B256
  v3_receipts_root :: B256
  v3_logs_bloom :: "2048 word"
  v3_prev_randao :: B256
  v3_block_number :: u64
  v3_gas_limit :: u64
  v3_gas_used :: u64
  v3_timestamp :: u64
  v3_extra_data :: bytes
  v3_base_fee_per_gas :: U256
  v3_block_hash :: B256
  v3_transactions :: "bytes list"
  v3_withdrawals :: "Withdrawal list"
  v3_blob_gas_used :: u64
  v3_excess_blob_gas :: u64

record ExecutionRequestsV4 =
  v4_deposits :: "DepositRequest list"
  v4_withdrawals :: "WithdrawalRequest list"
  v4_consolidations :: "ConsolidationRequest list"

record SlotStartV1 =
  ss_slot :: u64
  ss_parent_hash :: B256
  ss_proposer_fee_recipient :: Address
  ss_parent_beacon_block_root :: B256
  ss_apply_blacklist :: bool

record MergeableBlockV1 =
  mm_slot :: u64
  mm_builder_pubkey :: BlsPublicKeyBytes
  mm_block_value :: U256
  mm_builder_address :: Address
  mm_proposer_fee_recipient :: Address
  mm_parent_beacon_block_root :: B256
  mm_allow_appending :: bool
  mm_merge_orders :: "MergeOrderRef list"
  mm_execution_payload :: ExecutionPayloadV3

record BuilderInclusion =
  in_builder_pubkey :: BlsPublicKeyBytes
  in_origin_coinbase :: Address
  in_contribution :: U256
  in_revenue :: U256
  in_txs :: "B256 list"

record MergeTraceV1 =
  tr_base_block_recv_ns :: u64
  tr_sim_start_ns :: u64
  tr_sim_end_ns :: u64
  tr_finalize_ns :: u64

record MergedBlockV1 =
  mk_slot :: u64
  mk_response_id :: u32
  mk_base_block_hash :: B256
  mk_base_builder_pubkey :: BlsPublicKeyBytes
  mk_execution_payload :: ExecutionPayloadV3
  mk_execution_requests :: ExecutionRequestsV4
  mk_appended_blobs :: "B256 list"
  mk_proposer_value :: U256
  mk_base_builder_revenue :: U256
  mk_relay_revenue :: U256
  mk_builder_inclusions :: "BuilderInclusion list"
  mk_included_order_ids :: "B256 list"
  mk_trace :: MergeTraceV1
  mk_unmerged_txs :: "(B256 \<times> UnmergedReason) list"

datatype RejectCode =
    HeadMismatch | NotSynced | UnknownBaseBlock | InvalidPayment | UnknownCollateral | InvalidOrder | StaleSlot
  | LimitExceeded | Busy | InvalidBaseBlock

datatype RejectSubject = SubjectBlockHash B256 | SubjectOrderHash B256 | SubjectNone u8

record RejectV1 =
  rj_slot :: u64
  rj_code :: RejectCode
  rj_subject :: RejectSubject
  rj_msg :: bytes

record FatalV1 =
  ft_code :: RejectCode
  ft_msg :: bytes

section \<open>Library functions\<close>

record merge_env =
  keccak :: "bytes \<Rightarrow> B256"
  tx_blob_hashes :: "bytes \<Rightarrow> B256 list option"
  versioned_hash :: "KzgCommitment \<Rightarrow> B256"
  enc_mergeable :: "MergeableBlockV1 \<Rightarrow> bytes"
  dec_ack :: "bytes \<Rightarrow> MergerAckV1 option"
  dec_ping :: "bytes \<Rightarrow> u64 option"
  dec_pong :: "bytes \<Rightarrow> u64 option"
  dec_merged :: "bytes \<Rightarrow> MergedBlockV1 option"
  dec_reject :: "bytes \<Rightarrow> RejectV1 option"
  dec_fatal :: "bytes \<Rightarrow> FatalV1 option"
  max_deposit_requests :: nat
  max_withdrawal_requests :: nat
  max_consolidation_requests :: nat
  parse_uuid :: "string \<Rightarrow> bytes option"
  first_entry :: "(B256 \<times> B256) list \<Rightarrow> B256 \<times> B256"

section \<open>Conversions\<close>

definition payload_to_v3 :: "ExecutionPayload \<Rightarrow> ExecutionPayloadV3" where
  "payload_to_v3 ep =
     \<lparr>v3_parent_hash = ep_parent_hash ep, v3_fee_recipient = ep_fee_recipient ep, v3_state_root = ep_state_root ep,
      v3_receipts_root = ep_receipts_root ep, v3_logs_bloom = ep_logs_bloom ep, v3_prev_randao = ep_prev_randao ep,
      v3_block_number = ep_block_number ep, v3_gas_limit = ep_gas_limit ep, v3_gas_used = ep_gas_used ep,
      v3_timestamp = ep_timestamp ep, v3_extra_data = ep_extra_data ep, v3_base_fee_per_gas = ep_base_fee_per_gas ep,
      v3_block_hash = ep_block_hash ep, v3_transactions = ep_transactions ep, v3_withdrawals = ep_withdrawals ep,
      v3_blob_gas_used = ep_blob_gas_used ep, v3_excess_blob_gas = ep_excess_blob_gas ep\<rparr>"

definition payload_from_v3 :: "externals \<Rightarrow> ExecutionPayloadV3 \<Rightarrow> ExecutionPayload option" where
  "payload_from_v3 x v =
     (if length (v3_transactions v) > max_transactions_per_payload x then None
      else if length (v3_withdrawals v) > max_withdrawals_per_payload x then None
      else Some
     \<lparr>ep_parent_hash = v3_parent_hash v, ep_fee_recipient = v3_fee_recipient v, ep_state_root = v3_state_root v,
      ep_receipts_root = v3_receipts_root v, ep_logs_bloom = v3_logs_bloom v, ep_prev_randao = v3_prev_randao v,
      ep_block_number = v3_block_number v, ep_gas_limit = v3_gas_limit v, ep_gas_used = v3_gas_used v,
      ep_timestamp = v3_timestamp v, ep_extra_data = v3_extra_data v, ep_base_fee_per_gas = v3_base_fee_per_gas v,
      ep_block_hash = v3_block_hash v, ep_transactions = v3_transactions v, ep_withdrawals = v3_withdrawals v,
      ep_blob_gas_used = v3_blob_gas_used v, ep_excess_blob_gas = v3_excess_blob_gas v\<rparr>)"

definition requests_from_v4 :: "merge_env \<Rightarrow> ExecutionRequestsV4 \<Rightarrow> ExecutionRequests option" where
  "requests_from_v4 e v =
     (if length (v4_deposits v) > max_deposit_requests e then None
      else if length (v4_withdrawals v) > max_withdrawal_requests e then None
      else if length (v4_consolidations v) > max_consolidation_requests e then None
      else Some \<lparr>er_deposits = v4_deposits v, er_withdrawals = v4_withdrawals v, er_consolidations = v4_consolidations v\<rparr>)"

definition requests_to_v4 :: "ExecutionRequests \<Rightarrow> ExecutionRequestsV4" where
  "requests_to_v4 r = \<lparr>v4_deposits = er_deposits r, v4_withdrawals = er_withdrawals r,
     v4_consolidations = er_consolidations r\<rparr>"

section \<open>Blobs of a merged block\<close>

record BlobWithMetadata =
  bw_commitment :: KzgCommitment
  bw_proofs :: "KzgProof list"
  bw_blob :: Blob

definition push_blob ::
  "externals \<Rightarrow> KzgCommitment \<Rightarrow> KzgProof list \<Rightarrow> Blob \<Rightarrow> nat \<Rightarrow> BlobsBundle \<Rightarrow> (BlobsError, BlobsBundle) Result" where
  "push_blob x commitment proofs blob max_blobs_per_block b =
     (if length (bb_commitments b) \<ge> max_blob_commitments_per_block x
      then Inl (BundleTooLarge (length (bb_blobs b) + 1) max_blobs_per_block)
      else Inr (b\<lparr>bb_commitments := bb_commitments b @ [commitment], bb_proofs := bb_proofs b @ proofs,
                  bb_blobs := bb_blobs b @ [blob]\<rparr>))"

text \<open>\<open>iter_blobs\<close> slices the proofs, which panics when a blob has no full set.\<close>

definition iter_blobs :: "externals \<Rightarrow> BlobsBundle \<Rightarrow> (Blob \<times> KzgCommitment \<times> KzgProof list) list option" where
  "iter_blobs x b =
     (let n = min (length (bb_blobs b)) (length (bb_commitments b)); k = cells_per_ext_blob x in
      if n * k \<le> length (bb_proofs b)
      then Some (map (\<lambda>i. (bb_blobs b ! i, bb_commitments b ! i, slice (i * k) (i * k + k) (bb_proofs b))) [0..<n])
      else None)"

definition submission_blob_sidecars ::
  "externals \<Rightarrow> merge_env \<Rightarrow> BlobsBundle \<Rightarrow> (B256 \<times> BlobWithMetadata) list option" where
  "submission_blob_sidecars x e b =
     map_option (map (\<lambda>(blob, commitment, proofs).
       (versioned_hash e commitment, \<lparr>bw_commitment = commitment, bw_proofs = proofs, bw_blob = blob\<rparr>))) (iter_blobs x b)"

fun attach_blobs ::
  "externals \<Rightarrow> (B256, BlobWithMetadata) FxHashMap \<Rightarrow> nat \<Rightarrow> B256 list \<Rightarrow> BlobsBundle \<Rightarrow> BlobsBundle option" where
  "attach_blobs x sidecars max_blobs_per_block [] b = Some b"
| "attach_blobs x sidecars max_blobs_per_block (h # hs) b =
     (case map_of sidecars h of
        None \<Rightarrow> None
      | Some s \<Rightarrow>
          (case push_blob x (bw_commitment s) (bw_proofs s) (bw_blob s) max_blobs_per_block b of
             Inl _ \<Rightarrow> None
           | Inr b' \<Rightarrow> attach_blobs x sidecars max_blobs_per_block hs b'))"

fun resolve_txs ::
  "externals \<Rightarrow> merge_env \<Rightarrow> (B256, BlobWithMetadata) FxHashMap \<Rightarrow> nat \<Rightarrow> Transaction list \<Rightarrow> BlobsBundle \<Rightarrow>
   BlobsBundle option" where
  "resolve_txs x e sidecars max_blobs_per_block [] b = Some b"
| "resolve_txs x e sidecars max_blobs_per_block (tx # txs) b =
     (case tx_blob_hashes e tx of
        None \<Rightarrow> None
      | Some hs \<Rightarrow> Option.bind (attach_blobs x sidecars max_blobs_per_block hs b)
                   (resolve_txs x e sidecars max_blobs_per_block txs))"

definition empty_bundle :: BlobsBundle where
  "empty_bundle = \<lparr>bb_commitments = [], bb_proofs = [], bb_blobs = []\<rparr>"

definition resolve_blobs_bundle ::
  "externals \<Rightarrow> merge_env \<Rightarrow> ExecutionPayload \<Rightarrow> (B256, BlobWithMetadata) FxHashMap \<Rightarrow> nat \<Rightarrow> BlobsBundle option" where
  "resolve_blobs_bundle x e payload sidecars max_blobs_per_block =
     (case resolve_txs x e sidecars max_blobs_per_block (ep_transactions payload) empty_bundle of
        None \<Rightarrow> None
      | Some b \<Rightarrow> if is_ok (blobs_validate_ssz_lengths x b max_blobs_per_block) then Some b else None)"

section \<open>The merged block as a response\<close>

definition appended_tx_hashes :: "(Address, BuilderInclusionResult) FxHashMap \<Rightarrow> B256 set" where
  "appended_tx_hashes inclusions = set (concat (map (\<lambda>i. bir_txs (snd i)) inclusions))"

definition inclusion_map :: "BuilderInclusion list \<Rightarrow> (Address, BuilderInclusionResult) FxHashMap" where
  "inclusion_map is =
     fold (\<lambda>i m. AList.update (in_origin_coinbase i)
       \<lparr>bir_contribution = in_contribution i, bir_revenue = in_revenue i, bir_txs = in_txs i\<rparr> m) is []"

definition merged_block_to_response ::
  "externals \<Rightarrow> merge_env \<Rightarrow> MergedBlockV1 \<Rightarrow> (B256, BlobWithMetadata) FxHashMap \<Rightarrow> nat \<Rightarrow> BlockMergeResponse option" where
  "merged_block_to_response x e m sidecars max_blobs_per_block =
     Option.bind (payload_from_v3 x (mk_execution_payload m)) (\<lambda>payload.
     Option.bind (resolve_blobs_bundle x e payload sidecars max_blobs_per_block) (\<lambda>blobs.
     let inclusions = inclusion_map (mk_builder_inclusions m);
         appended = card (appended_tx_hashes inclusions)
     in if length (ep_transactions payload) < appended + 2 then None
        else Option.bind (requests_from_v4 e (mk_execution_requests m)) (\<lambda>requests. Some
         \<lparr>bmr_base_block_hash = mk_base_block_hash m, bmr_execution_payload = payload, bmr_execution_requests = requests,
          bmr_blobs_bundle = blobs, bmr_proposer_value = mk_proposer_value m,
          bmr_base_builder_revenue = mk_base_builder_revenue m, bmr_relay_revenue = mk_relay_revenue m,
          bmr_builder_inclusions = inclusions,
          bmr_base_payment_tx_index = length (ep_transactions payload) - (appended + 2),
          bmr_trace = \<lparr>mbt_request_time_ns = tr_base_block_recv_ns (mk_trace m),
            mbt_sim_start_time_ns = tr_sim_start_ns (mk_trace m), mbt_sim_end_time_ns = tr_sim_end_ns (mk_trace m),
            mbt_finalize_time_ns = tr_finalize_ns (mk_trace m), mbt_header_served_time_ns = None,
            mbt_was_top_builder = None, mbt_top_bid = None\<rparr>,
          bmr_unmerged_txs = mk_unmerged_txs m, bmr_tx_builders = [], bmr_base_read_ns = 0, bmr_accept_ns = 0\<rparr>)))"

end
