(* ===== verification/Merging_Tile.thy ===== *)
theory Merging_Tile
  imports Merging_Wire Effects
begin

text \<open>
  The relay's side of block merging (\<open>crates/relay/src/block_merging/tile.rs\<close>): forwarding submissions with
  merge data to the merge builder, the connection's state, and the check of the merged blocks that come back.

  A handler of \<open>Effects\<close> over the tile's state; what it hands to the network, to the other tiles and to the
  metrics is the output.  The submissions and slot updates it reads live in vectors shared with other tiles and
  are inputs, as are the clock and the switch that turns merging off.  \<open>first_entry\<close> is the entry a hash map's
  iterator yields first.
\<close>

section \<open>State\<close>

type_synonym Token = nat

record Conn =
  cn_active :: bool
  cn_max_orders_per_slot :: u32
  cn_max_frame_bytes :: u32
  cn_orders_sent :: "B256 list"
  cn_builder_ahead :: bool
  cn_sent_txs :: "B256 list"

definition Conn_default :: Conn where
  "Conn_default = \<lparr>cn_active = False, cn_max_orders_per_slot = 0, cn_max_frame_bytes = 0, cn_orders_sent = [],
     cn_builder_ahead = False, cn_sent_txs = []\<rparr>"

definition conn_reset_slot :: "Conn \<Rightarrow> Conn" where
  "conn_reset_slot c = c\<lparr>cn_orders_sent := [], cn_sent_txs := [], cn_builder_ahead := False\<rparr>"

definition conn_reset :: "Conn \<Rightarrow> Conn" where
  "conn_reset c = conn_reset_slot (c\<lparr>cn_active := False\<rparr>)"

record SlotState =
  so_bid_slot :: u64
  so_slot_start :: "SlotStartV1 option"
  so_fee_recipient :: "Address option"
  so_apply_blacklist :: bool
  so_attrs :: "(B256, B256) FxHashMap"
  so_appendable :: "B256 list"
  so_forwarded_ns :: "(B256, u64 \<times> u64) FxHashMap"
  so_merged_seen :: "B256 list"
  so_replay_log :: "nat list"
  so_order_txs :: "OrderTxs list"
  so_tx_builders :: "(B256, BlsPublicKeyBytes list) FxHashMap"

definition SlotState_default :: SlotState where
  "SlotState_default = \<lparr>so_bid_slot = 0, so_slot_start = None, so_fee_recipient = None, so_apply_blacklist = False,
     so_attrs = [], so_appendable = [], so_forwarded_ns = [], so_merged_seen = [], so_replay_log = [], so_order_txs = [],
     so_tx_builders = []\<rparr>"

record SlotStats =
  ts_forwarded_full :: nat
  ts_skipped_disabled :: nat
  ts_forwarded_hydrated :: nat
  ts_hydration_failed :: nat
  ts_skipped_no_slot_start :: nat
  ts_skipped_wrong_slot :: nat
  ts_skipped_no_merging_data :: nat
  ts_skipped_builder_ahead :: nat
  ts_skipped_over_limits :: nat
  ts_orders_dropped :: nat
  ts_orders_forwarded :: nat
  ts_orders_forwarded_latest_only :: nat
  ts_replayed :: nat
  ts_merged_blocks :: nat
  ts_merged_stale :: nat
  ts_merged_blob_missing :: nat
  ts_merged_unbundled :: nat
  ts_tx_bytes_sent :: nat
  ts_tx_refs_sent :: nat

definition SlotStats_default :: SlotStats where
  "SlotStats_default = \<lparr>ts_forwarded_full = 0, ts_skipped_disabled = 0, ts_forwarded_hydrated = 0,
     ts_hydration_failed = 0, ts_skipped_no_slot_start = 0, ts_skipped_wrong_slot = 0, ts_skipped_no_merging_data = 0,
     ts_skipped_builder_ahead = 0, ts_skipped_over_limits = 0, ts_orders_dropped = 0, ts_orders_forwarded = 0,
     ts_orders_forwarded_latest_only = 0, ts_replayed = 0, ts_merged_blocks = 0, ts_merged_stale = 0,
     ts_merged_blob_missing = 0, ts_merged_unbundled = 0, ts_tx_bytes_sent = 0, ts_tx_refs_sent = 0\<rparr>"

record BlockMergingTile =
  tl_relay_id :: bytes
  tl_relay_config_msg :: RelayConfigV1
  tl_api_key :: bytes
  tl_token :: "Token option"
  tl_conn :: Conn
  tl_slot :: SlotState
  tl_stats :: SlotStats
  tl_hydration_cache :: HydrationCache
  tl_blob_sidecars :: "(B256, BlobWithMetadata) FxHashMap"
  tl_tx_hash_cache :: "(bytes, B256) FxHashMap"
  tl_ping_nonce :: u64
  tl_merged_blocks :: "BlockMergeResponse list"
  tl_merged_block_response_ids :: "nat list"

datatype TileMsg =
    MsgRegistration MergerRegistrationV1
  | MsgRelayConfig RelayConfigV1
  | MsgSlotStart SlotStartV1
  | MsgMergeable MergeableBlockV1
  | MsgPing u64
  | MsgPong u64

datatype TileOut =
    Connect
  | SendTo Token TileMsg
  | Disconnect Token
  | MergedBlockMsg nat
  | SlotReport u64 SlotStats nat

type_synonym 'a tile_act = "(BlockMergingTile, TileOut, 'a) handler"

text \<open>A slot update as the housekeeper sends it, and what the tile reads from its surroundings in one call.\<close>

record SlotUpdate =
  su_bid_slot :: Slot
  su_registration_data :: "BuilderGetValidatorsResponseEntry option"
  su_payload_attributes :: "PayloadAttributesUpdate list"
  su_il :: "InclusionList option"

record tile_input =
  ti_enabled :: bool
  ti_now :: u64
  ti_max_blobs :: nat
  ti_decoded :: "nat \<Rightarrow> SubmissionData option"
  ti_slots :: "nat \<Rightarrow> SlotUpdate option"

section \<open>Start\<close>

definition relay_config_of :: "BlockMergingTcpConfig \<Rightarrow> RelayConfigV1" where
  "relay_config_of config =
     \<lparr>rc_relay_fee_recipient = mt_relay_fee_recipient config, rc_multisend_contract = mt_multisend_contract config,
      rc_relay_bps = mt_relay_bps config, rc_merged_builder_bps = mt_merged_builder_bps config,
      rc_winning_builder_bps = mt_winning_builder_bps config,
      rc_distribution_gas_limit = mt_distribution_gas_limit config,
      rc_builder_collaterals = map (\<lambda>k. \<lparr>bc_builder_coinbase = mc_builder_coinbase k,
        bc_collateral_safe = mc_collateral_safe k\<rparr>) (mt_builder_collaterals config)\<rparr>"

definition tile_new :: "merge_env \<Rightarrow> BlockMergingTcpConfig \<Rightarrow> bytes \<Rightarrow> BlockMergingTile option" where
  "tile_new e config relay_id =
     (case (relay_config_validate (relay_config_of config), parse_uuid e (me_api_key (mt_builder config))) of
        (Inr _, Some api_key) \<Rightarrow> Some
          \<lparr>tl_relay_id = relay_id, tl_relay_config_msg = relay_config_of config, tl_api_key = api_key, tl_token = None,
           tl_conn = Conn_default, tl_slot = SlotState_default, tl_stats = SlotStats_default, tl_hydration_cache = [],
           tl_blob_sidecars = [], tl_tx_hash_cache = [], tl_ping_nonce = 0, tl_merged_blocks = [],
           tl_merged_block_response_ids = []\<rparr>
      | _ \<Rightarrow> None)"

text \<open>The network hands out the token of the connection that is dialed.\<close>

definition try_init :: "Token \<Rightarrow> bool tile_act" where
  "try_init token = hseq (hsend [Connect]) (hseq (hset (\<lambda>t. t\<lparr>tl_token := Some token\<rparr>)) (hret True))"

section \<open>Shared helpers\<close>

definition hash_tx :: "merge_env \<Rightarrow> bytes \<Rightarrow> (bytes, B256) FxHashMap \<Rightarrow> B256 \<times> (bytes, B256) FxHashMap" where
  "hash_tx e tx cache =
     (case map_of cache tx of Some h \<Rightarrow> (h, cache) | None \<Rightarrow> (keccak e tx, (tx, keccak e tx) # cache))"

fun hash_txs :: "merge_env \<Rightarrow> bytes list \<Rightarrow> (bytes, B256) FxHashMap \<Rightarrow> B256 list \<times> (bytes, B256) FxHashMap" where
  "hash_txs e [] cache = ([], cache)"
| "hash_txs e (tx # txs) cache =
     (let (h, cache1) = hash_tx e tx cache; (hs, cache2) = hash_txs e txs cache1 in (h # hs, cache2))"

definition add_stats :: "(SlotStats \<Rightarrow> SlotStats) \<Rightarrow> unit tile_act" where
  "add_stats f = hset (\<lambda>t. t\<lparr>tl_stats := f (tl_stats t)\<rparr>)"

definition feed_cache :: "externals \<Rightarrow> Submission \<Rightarrow> unit tile_act" where
  "feed_cache x submission =
     (case submission of
        Dehydrated d \<Rightarrow> hset (\<lambda>t. t\<lparr>tl_hydration_cache := feed x d (tl_hydration_cache t)\<rparr>)
      | Full _ \<Rightarrow> hret ())"

section \<open>Merged blocks\<close>

definition record_round_trip :: "B256 \<Rightarrow> SlotState \<Rightarrow> SlotState" where
  "record_round_trip base_block_hash s = s\<lparr>so_merged_seen := List.insert base_block_hash (so_merged_seen s)\<rparr>"

definition response_tx_builders :: "SlotState \<Rightarrow> BlockMergeResponse \<Rightarrow> (B256 \<times> BlsPublicKeyBytes) list" where
  "response_tx_builders s r =
     concat (map (\<lambda>h. case map_of (so_tx_builders s) h of Some bs \<Rightarrow> map (\<lambda>b. (h, b)) bs | None \<Rightarrow> [])
       (concat (map (\<lambda>i. bir_txs (snd i)) (bmr_builder_inclusions r)) @ map fst (bmr_unmerged_txs r)))"

definition accepted_response :: "tile_input \<Rightarrow> SlotState \<Rightarrow> B256 \<Rightarrow> BlockMergeResponse \<Rightarrow> BlockMergeResponse" where
  "accepted_response inp slot base response = response
     \<lparr>bmr_accept_ns := ti_now inp,
      bmr_base_read_ns := (case map_of (so_forwarded_ns slot) base of
         Some (read_ns, _) \<Rightarrow> if base \<notin> set (so_merged_seen slot) then read_ns else 0
       | None \<Rightarrow> 0),
      bmr_tx_builders := response_tx_builders slot response\<rparr>"

definition check_unbundled ::
  "merge_env \<Rightarrow> tile_input \<Rightarrow> B256 \<Rightarrow> BlockMergeResponse \<Rightarrow> BlockMergeResponse option tile_act" where
  "check_unbundled e inp base response =
     hbind (hget tl_slot) (\<lambda>slot. hbind (hget tl_tx_hash_cache) (\<lambda>cache.
     let appended = appended_tx_hashes (bmr_builder_inclusions response);
         (hashes, cache') = hash_txs e (ep_transactions (bmr_execution_payload response)) cache;
         appended_txs = filter (\<lambda>h. h \<in> appended) hashes
     in hseq (hset (\<lambda>t. t\<lparr>tl_tx_hash_cache := cache'\<rparr>))
        (if find_unbundled_txs appended_txs (so_order_txs slot) \<noteq> []
         then hseq (add_stats (\<lambda>s. s\<lparr>ts_merged_unbundled := ts_merged_unbundled s + 1\<rparr>)) (hret None)
         else
           hseq (add_stats (\<lambda>s. s\<lparr>ts_merged_blocks := ts_merged_blocks s + 1\<rparr>))
           (hseq (hset (\<lambda>t. t\<lparr>tl_slot := record_round_trip base (tl_slot t)\<rparr>))
           (hret (Some (accepted_response inp slot base response)))))))"

definition handle_merged_block ::
  "externals \<Rightarrow> merge_env \<Rightarrow> tile_input \<Rightarrow> MergedBlockV1 \<Rightarrow> BlockMergeResponse option tile_act" where
  "handle_merged_block x e inp merged =
     hbind (hget tl_slot) (\<lambda>slot. hbind (hget tl_blob_sidecars) (\<lambda>sidecars.
     if \<not> ti_enabled inp then hret None
     else if mk_slot merged \<noteq> so_bid_slot slot \<or> mk_base_block_hash merged \<notin> set (so_appendable slot)
       then hseq (add_stats (\<lambda>s. s\<lparr>ts_merged_stale := ts_merged_stale s + 1\<rparr>)) (hret None)
     else
       (case merged_block_to_response x e merged sidecars (ti_max_blobs inp) of
          None \<Rightarrow> hseq (add_stats (\<lambda>s. s\<lparr>ts_merged_blob_missing := ts_merged_blob_missing s + 1\<rparr>)) (hret None)
        | Some response \<Rightarrow> check_unbundled e inp (mk_base_block_hash merged) response)))"

section \<open>Slots\<close>

definition maybe_start_slot :: "merge_env \<Rightarrow> unit tile_act" where
  "maybe_start_slot e =
     hbind (hget tl_slot) (\<lambda>slot. hbind (hget tl_conn) (\<lambda>conn. hbind (hget tl_token) (\<lambda>tok.
     if so_slot_start slot \<noteq> None then hret ()
     else (case so_fee_recipient slot of
        None \<Rightarrow> hret ()
      | Some fee_recipient \<Rightarrow>
          if so_attrs slot = [] then hret ()
          else
            (let (parent_hash, root) = first_entry e (so_attrs slot);
                 msg = \<lparr>ss_slot = so_bid_slot slot, ss_parent_hash = parent_hash, ss_proposer_fee_recipient = fee_recipient,
                        ss_parent_beacon_block_root = root, ss_apply_blacklist = so_apply_blacklist slot\<rparr>
             in hseq (case (cn_active conn, tok) of
                        (True, Some token) \<Rightarrow> hsend [SendTo token (MsgSlotStart msg)] | _ \<Rightarrow> hret ())
                (hset (\<lambda>t. t\<lparr>tl_slot := (tl_slot t)\<lparr>so_slot_start := Some msg\<rparr>\<rparr>)))))))"

definition tile_report_slot_stats :: "unit tile_act" where
  "tile_report_slot_stats =
     hbind (hget tl_stats) (\<lambda>stats. hbind (hget tl_slot) (\<lambda>slot.
     hseq (hset (\<lambda>t. t\<lparr>tl_stats := SlotStats_default\<rparr>))
     (if so_bid_slot slot = 0 then hret ()
      else hsend [SlotReport (so_bid_slot slot) stats (length (so_appendable slot))])))"

definition next_slot :: "u64 \<Rightarrow> unit tile_act" where
  "next_slot bid_slot =
     hseq tile_report_slot_stats
     (hset (\<lambda>t. t\<lparr>tl_slot := SlotState_default\<lparr>so_bid_slot := bid_slot\<rparr>, tl_conn := conn_reset_slot (tl_conn t),
        tl_hydration_cache := hydration_clear (tl_hydration_cache t), tl_blob_sidecars := [], tl_tx_hash_cache := [],
        tl_merged_blocks := []\<rparr>))"

definition extend_slot :: "SlotUpdate \<Rightarrow> SlotState \<Rightarrow> SlotState" where
  "extend_slot ev s =
     (let s1 = (case su_registration_data ev of
                  Some reg \<Rightarrow> s\<lparr>so_fee_recipient := Some (vr_fee_recipient (svr_message (ri_registration (ve_entry reg)))),
                                so_apply_blacklist := is_regional (vp_filtering (ri_preferences (ve_entry reg)))\<rparr>
                | None \<Rightarrow> s)
      in s1\<lparr>so_attrs := fold (\<lambda>a. AList.update (pu_parent_hash a) (parent_root a)) (su_payload_attributes ev) (so_attrs s1)\<rparr>)"

definition tile_on_slot_msg :: "merge_env \<Rightarrow> tile_input \<Rightarrow> nat \<Rightarrow> unit tile_act" where
  "tile_on_slot_msg e inp slot_update_id =
     (case ti_slots inp slot_update_id of
        None \<Rightarrow> hret ()
      | Some ev \<Rightarrow>
          hbind (hget (\<lambda>t. so_bid_slot (tl_slot t))) (\<lambda>current.
          if su_bid_slot ev < current then hret ()
          else
            hseq (if su_bid_slot ev > current then next_slot (su_bid_slot ev) else hret ())
            (hseq (hset (\<lambda>t. t\<lparr>tl_slot := extend_slot ev (tl_slot t)\<rparr>)) (maybe_start_slot e))))"

section \<open>Forwarding\<close>

text \<open>The submission to forward, hydrated when it came dehydrated.\<close>

definition forward_signed :: "externals \<Rightarrow> tile_input \<Rightarrow> bool \<Rightarrow> Submission \<Rightarrow> SignedBidSubmissionFulu option tile_act" where
  "forward_signed x inp is_replay submission =
     (case submission of
        Full (SignedGloas _) \<Rightarrow> hret None
      | Full (SignedFulu sub) \<Rightarrow>
          hseq (if is_replay then hret () else add_stats (\<lambda>s. s\<lparr>ts_forwarded_full := ts_forwarded_full s + 1\<rparr>))
          (hret (Some sub))
      | Dehydrated d \<Rightarrow>
          hbind (hget (\<lambda>t. hydrate x (ti_max_blobs inp) d (tl_hydration_cache t))) (\<lambda>hydrated.
          case hydrated of
            None \<Rightarrow> hpanic
          | Some (r, cache) \<Rightarrow>
              hseq (hset (\<lambda>t. t\<lparr>tl_hydration_cache := cache\<rparr>))
              (case r of
                 Inr h \<Rightarrow>
                   hseq (if is_replay then hret ()
                         else add_stats (\<lambda>s. s\<lparr>ts_forwarded_hydrated := ts_forwarded_hydrated s + 1\<rparr>))
                   (hret (Some (hd_submission h)))
               | Inl _ \<Rightarrow> hseq (add_stats (\<lambda>s. s\<lparr>ts_hydration_failed := ts_hydration_failed s + 1\<rparr>)) (hret None))))"

text \<open>One transaction of the block to send: whole the first time, as its hash afterwards.\<close>

definition dehydrate_tx ::
  "BlsPublicKeyBytes \<Rightarrow> bytes \<times> B256 \<Rightarrow>
   bytes list \<times> (B256, BlsPublicKeyBytes list) FxHashMap \<times> B256 list \<times> nat \<times> nat \<Rightarrow>
   bytes list \<times> (B256, BlsPublicKeyBytes list) FxHashMap \<times> B256 list \<times> nat \<times> nat" where
  "dehydrate_tx pubkey p acc = (case (p, acc) of ((tx, hash), (out, tx_builders, sent, whole, refs)) \<Rightarrow>
     (let builders = (case map_of tx_builders hash of Some bs \<Rightarrow> bs | None \<Rightarrow> []);
          builders' = (if pubkey \<in> set builders then builders else builders @ [pubkey]);
          tx_builders' = AList.update hash builders' tx_builders
      in if hash \<notin> set sent then (out @ [tx], tx_builders', List.insert hash sent, whole + 1, refs)
         else (out @ [fixed_bytes 32 hash], tx_builders', sent, whole, refs + 1)))"

text \<open>The message for a submission; also the hashes of its transactions.\<close>

definition build_block ::
  "externals \<Rightarrow> merge_env \<Rightarrow> SignedBidSubmissionFulu \<Rightarrow> BlockMergingDataV2 \<Rightarrow> (MergeableBlockV1 \<times> B256 list) tile_act" where
  "build_block x e bid merging =
     (case submission_blob_sidecars x e (sf_blobs_bundle bid) of
        None \<Rightarrow> hpanic
      | Some sidecars \<Rightarrow>
          hseq (hset (\<lambda>t. t\<lparr>tl_blob_sidecars := fold (\<lambda>(h, s). AList.update h s) sidecars (tl_blob_sidecars t)\<rparr>))
     (case order_refs (m2_tx_codes merging) (length (ep_transactions (sf_execution_payload bid))) 0 (m2_orders merging) of
        None \<Rightarrow> hpanic
      | Some (merge_orders, dropped) \<Rightarrow>
          hseq (add_stats (\<lambda>s. s\<lparr>ts_orders_dropped := ts_orders_dropped s + dropped\<rparr>))
          (hbind (hget (\<lambda>t. t)) (\<lambda>t.
          let message = sf_message bid;
              payload = payload_to_v3 (sf_execution_payload bid);
              root = (case map_of (so_attrs (tl_slot t)) (bt_parent_hash message) of Some r \<Rightarrow> r | None \<Rightarrow> 0);
              (tx_hashes, cache) = hash_txs e (v3_transactions payload) (tl_tx_hash_cache t);
              (txs, tx_builders, sent, whole, refs) =
                fold (dehydrate_tx (bt_builder_pubkey message)) (zip (v3_transactions payload) tx_hashes)
                  ([], so_tx_builders (tl_slot t), cn_sent_txs (tl_conn t), 0, 0);
              msg = \<lparr>mm_slot = bt_slot message, mm_builder_pubkey = bt_builder_pubkey message,
                     mm_block_value = bt_value message, mm_builder_address = m2_builder_address merging,
                     mm_proposer_fee_recipient = bt_proposer_fee_recipient message, mm_parent_beacon_block_root = root,
                     mm_allow_appending = m2_allow_appending merging, mm_merge_orders = merge_orders,
                     mm_execution_payload = payload\<lparr>v3_transactions := txs\<rparr>\<rparr>
          in hseq (hset (\<lambda>t. t\<lparr>tl_tx_hash_cache := cache, tl_slot := (tl_slot t)\<lparr>so_tx_builders := tx_builders\<rparr>,
                     tl_conn := (tl_conn t)\<lparr>cn_sent_txs := sent\<rparr>\<rparr>))
             (hseq (add_stats (\<lambda>s. s\<lparr>ts_tx_bytes_sent := ts_tx_bytes_sent s + whole, ts_tx_refs_sent := ts_tx_refs_sent s + refs\<rparr>))
             (hret (msg, tx_hashes)))))))"

definition is_latest_only_ref :: "MergeOrderRef \<Rightarrow> bool" where
  "is_latest_only_ref r = (case r of RefBundle b \<Rightarrow> br_latest_only b | RefTx _ \<Rightarrow> False)"

definition over_limits :: "Conn \<Rightarrow> B256 list \<Rightarrow> nat \<Rightarrow> bool" where
  "over_limits conn order_hashes frame_len =
     (let new_orders = of_nat (length (filter (\<lambda>h. h \<notin> set (cn_orders_sent conn)) order_hashes)) in
      saturating_add (of_nat (length (cn_orders_sent conn))) new_orders > cn_max_orders_per_slot conn \<or>
      frame_len > unat (cn_max_frame_bytes conn))"

text \<open>Sending what was built, unless the connection is not ready or the builder's limits are exceeded.\<close>

definition send_block ::
  "merge_env \<Rightarrow> tile_input \<Rightarrow> nat \<Rightarrow> Token option \<Rightarrow> u64 \<Rightarrow> B256 \<Rightarrow> MergeableBlockV1 \<Rightarrow> B256 list \<Rightarrow> unit tile_act" where
  "send_block e inp decoded_submission_id only read_ns block_hash msg tx_hashes =
     (let order_hashes = map (\<lambda>r. order_ref_hash (keccak e) r tx_hashes) (mm_merge_orders msg);
          frame = append_frame [] IdMergeableBlockV1 (enc_mergeable e msg)
      in hseq (if only = None
               then hset (\<lambda>t. t\<lparr>tl_slot := (tl_slot t)
                      \<lparr>so_appendable := (if mm_allow_appending msg then List.insert block_hash (so_appendable (tl_slot t))
                                         else so_appendable (tl_slot t)),
                       so_replay_log := so_replay_log (tl_slot t) @ [decoded_submission_id]\<rparr>\<rparr>)
               else hret ())
         (hbind (hget tl_token) (\<lambda>tok. hbind (hget tl_conn) (\<lambda>conn.
          case tok of
            None \<Rightarrow> hret ()
          | Some token \<Rightarrow>
              if \<not> cn_active conn \<or> (case only of Some t \<Rightarrow> t \<noteq> token | None \<Rightarrow> False) then hret ()
              else if over_limits conn order_hashes (length frame)
                then add_stats (\<lambda>s. s\<lparr>ts_skipped_over_limits := ts_skipped_over_limits s + 1\<rparr>)
              else
                hseq (if only = None
                      then add_stats (\<lambda>s. s\<lparr>ts_orders_forwarded := ts_orders_forwarded s + length (mm_merge_orders msg),
                             ts_orders_forwarded_latest_only := ts_orders_forwarded_latest_only s +
                               length (filter is_latest_only_ref (mm_merge_orders msg))\<rparr>)
                      else hret ())
                (hseq (hset (\<lambda>t. t\<lparr>tl_conn := (tl_conn t)
                         \<lparr>cn_orders_sent := fold List.insert order_hashes (cn_orders_sent (tl_conn t))\<rparr>,
                       tl_slot := (tl_slot t)
                         \<lparr>so_order_txs := so_order_txs (tl_slot t) @ map (\<lambda>r. OrderTxs_from_ref r tx_hashes) (mm_merge_orders msg),
                          so_forwarded_ns := (if mm_allow_appending msg \<and> map_of (so_forwarded_ns (tl_slot t)) block_hash = None
                            then (block_hash, read_ns, ti_now inp) # so_forwarded_ns (tl_slot t)
                            else so_forwarded_ns (tl_slot t))\<rparr>\<rparr>))
                (hsend [SendTo token (MsgMergeable msg)]))))))"

definition forward_mergeable ::
  "externals \<Rightarrow> merge_env \<Rightarrow> tile_input \<Rightarrow> nat \<Rightarrow> Token option \<Rightarrow> SubmissionData \<Rightarrow> BlockMergingDataV2 \<Rightarrow> unit tile_act" where
  "forward_mergeable x e inp decoded_submission_id only sub merging =
     hbind (forward_signed x inp (only \<noteq> None) (sd_submission sub)) (\<lambda>fulu.
     case fulu of
       None \<Rightarrow> hret ()
     | Some s \<Rightarrow>
         hbind (build_block x e s merging) (\<lambda>(msg, tx_hashes).
         send_block e inp decoded_submission_id only
           (max (st_read_body_ns (sd_trace sub)) (st_receive_ns (sd_trace sub)))
           (bt_block_hash (sf_message s)) msg tx_hashes))"

definition forward_decoded ::
  "externals \<Rightarrow> merge_env \<Rightarrow> tile_input \<Rightarrow> nat \<Rightarrow> Token option \<Rightarrow> unit tile_act" where
  "forward_decoded x e inp decoded_submission_id only =
     (let is_replay = (only \<noteq> None) in
      if \<not> ti_enabled inp then add_stats (\<lambda>s. s\<lparr>ts_skipped_disabled := ts_skipped_disabled s + 1\<rparr>)
      else
        hseq (if is_replay then add_stats (\<lambda>s. s\<lparr>ts_replayed := ts_replayed s + 1\<rparr>) else hret ())
        (case ti_decoded inp decoded_submission_id of
           None \<Rightarrow> hret ()
         | Some sub \<Rightarrow>
             hbind (hget tl_slot) (\<lambda>slot. hbind (hget tl_conn) (\<lambda>conn.
             if so_slot_start slot = None
               then hseq (add_stats (\<lambda>s. s\<lparr>ts_skipped_no_slot_start := ts_skipped_no_slot_start s + 1\<rparr>))
                      (feed_cache x (sd_submission sub))
             else if bt_slot (bid_trace (sd_submission sub)) \<noteq> so_bid_slot slot
               then hseq (add_stats (\<lambda>s. s\<lparr>ts_skipped_wrong_slot := ts_skipped_wrong_slot s + 1\<rparr>))
                      (if is_replay then hret () else feed_cache x (sd_submission sub))
             else if cn_builder_ahead conn
               then hseq (add_stats (\<lambda>s. s\<lparr>ts_skipped_builder_ahead := ts_skipped_builder_ahead s + 1\<rparr>))
                      (if is_replay then hret () else feed_cache x (sd_submission sub))
             else (case sd_merging_data sub of
                None \<Rightarrow> hseq (add_stats (\<lambda>s. s\<lparr>ts_skipped_no_merging_data := ts_skipped_no_merging_data s + 1\<rparr>))
                          (feed_cache x (sd_submission sub))
              | Some merging \<Rightarrow> forward_mergeable x e inp decoded_submission_id only sub merging)))))"

section \<open>The connection\<close>

definition send_registration :: "Token \<Rightarrow> unit tile_act" where
  "send_registration token =
     hbind (hget (\<lambda>t. \<lparr>rg_api_key = tl_api_key t, rg_relay_id = tl_relay_id t, rg_min_version = MERGING_PROTOCOL_VERSION,
        rg_max_version = MERGING_PROTOCOL_VERSION, rg_supports_zstd = False\<rparr>)) (\<lambda>msg.
     hsend [SendTo token (MsgRegistration msg)])"

fun replay_all :: "externals \<Rightarrow> merge_env \<Rightarrow> tile_input \<Rightarrow> Token \<Rightarrow> nat list \<Rightarrow> unit tile_act" where
  "replay_all x e inp token [] = hret ()"
| "replay_all x e inp token (ix # ixs) = hseq (forward_decoded x e inp ix (Some token)) (replay_all x e inp token ixs)"

definition complete_handshake :: "externals \<Rightarrow> merge_env \<Rightarrow> tile_input \<Rightarrow> Token \<Rightarrow> unit tile_act" where
  "complete_handshake x e inp token =
     hbind (hget tl_relay_config_msg) (\<lambda>config.
     hseq (hsend [SendTo token (MsgRelayConfig config)])
     (hbind (hget tl_slot) (\<lambda>slot.
      case so_slot_start slot of
        None \<Rightarrow> hret ()
      | Some msg \<Rightarrow>
          hseq (hsend [SendTo token (MsgSlotStart msg)]) (replay_all x e inp token (so_replay_log slot)))))"

definition on_reject :: "Token \<Rightarrow> RejectV1 \<Rightarrow> unit tile_act" where
  "on_reject token reject =
     hset (\<lambda>t.
       if tl_token t \<noteq> Some token then t
       else t\<lparr>tl_conn := (tl_conn t)
         \<lparr>cn_sent_txs := (if rj_code reject = Busy then [] else cn_sent_txs (tl_conn t)),
          cn_builder_ahead := (cn_builder_ahead (tl_conn t) \<or> rj_code reject = StaleSlot \<or>
            rj_slot reject > so_bid_slot (tl_slot t))\<rparr>\<rparr>)"

definition send_pings :: "unit tile_act" where
  "send_pings =
     hseq (hset (\<lambda>t. t\<lparr>tl_ping_nonce := tl_ping_nonce t + 1\<rparr>))
     (hbind (hget (\<lambda>t. t)) (\<lambda>t.
      case tl_token t of
        None \<Rightarrow> hret ()
      | Some token \<Rightarrow> if cn_active (tl_conn t) then hsend [SendTo token (MsgPing (tl_ping_nonce t))] else hret ()))"

text \<open>Events of the network, and the reactions buffered while they are handled.\<close>

datatype NetEvent = Accepted | Connected Token | Disconnected Token | NetMessage Token bytes

record Polled =
  pl_to_disconnect :: "Token list"
  pl_to_register :: "Token list"
  pl_handshaken :: "Token list"
  pl_pongs :: "(Token \<times> u64) list"
  pl_rejects :: "(Token \<times> RejectV1) list"

definition Polled_none :: Polled where
  "Polled_none = \<lparr>pl_to_disconnect = [], pl_to_register = [], pl_handshaken = [], pl_pongs = [], pl_rejects = []\<rparr>"

definition on_ack :: "merge_env \<Rightarrow> Token \<Rightarrow> bytes \<Rightarrow> Polled \<Rightarrow> Polled tile_act" where
  "on_ack e token body p =
     (case dec_ack e body of
        None \<Rightarrow> hret (p\<lparr>pl_to_disconnect := pl_to_disconnect p @ [token]\<rparr>)
      | Some ack \<Rightarrow>
          if ak_status ack \<noteq> Okay then hret (p\<lparr>pl_to_disconnect := pl_to_disconnect p @ [token]\<rparr>)
          else hseq (hset (\<lambda>t. t\<lparr>tl_conn := (tl_conn t)\<lparr>cn_active := True,
                   cn_max_orders_per_slot := ak_max_orders_per_slot ack, cn_max_frame_bytes := ak_max_frame_bytes ack\<rparr>\<rparr>))
               (hret (p\<lparr>pl_handshaken := pl_handshaken p @ [token]\<rparr>)))"

definition on_merged :: "externals \<Rightarrow> merge_env \<Rightarrow> tile_input \<Rightarrow> bytes \<Rightarrow> Polled \<Rightarrow> Polled tile_act" where
  "on_merged x e inp body p =
     (case dec_merged e body of
        None \<Rightarrow> hret p
      | Some merged \<Rightarrow>
          hbind (handle_merged_block x e inp merged) (\<lambda>res.
          case res of
            None \<Rightarrow> hret p
          | Some response \<Rightarrow>
              hseq (hset (\<lambda>t. t\<lparr>tl_merged_block_response_ids := tl_merged_block_response_ids t @ [length (tl_merged_blocks t)],
                     tl_merged_blocks := tl_merged_blocks t @ [response]\<rparr>)) (hret p)))"

definition on_message :: "externals \<Rightarrow> merge_env \<Rightarrow> tile_input \<Rightarrow> Token \<Rightarrow> bytes \<Rightarrow> Polled \<Rightarrow> Polled tile_act" where
  "on_message x e inp token payload p =
     (case frame_header_decode payload of
        Inl (ExtensionMsgId _) \<Rightarrow> hret p
      | Inl _ \<Rightarrow> hret (p\<lparr>pl_to_disconnect := pl_to_disconnect p @ [token]\<rparr>)
      | Inr header \<Rightarrow>
          if is_zstd_compressed header then hret (p\<lparr>pl_to_disconnect := pl_to_disconnect p @ [token]\<rparr>)
          else
            (let body = drop MERGING_HEADER_SIZE payload in
             case fh_msg_id header of
               IdMergerAckV1 \<Rightarrow> on_ack e token body p
             | IdPongV1 \<Rightarrow> hret p
             | IdPingV1 \<Rightarrow>
                 (case dec_ping e body of
                    Some nonce \<Rightarrow> hret (p\<lparr>pl_pongs := pl_pongs p @ [(token, nonce)]\<rparr>) | None \<Rightarrow> hret p)
             | IdMergedBlockV1 \<Rightarrow> on_merged x e inp body p
             | IdRejectV1 \<Rightarrow>
                 (case dec_reject e body of
                    Some reject \<Rightarrow> hret (p\<lparr>pl_rejects := pl_rejects p @ [(token, reject)]\<rparr>) | None \<Rightarrow> hret p)
             | _ \<Rightarrow> hret (p\<lparr>pl_to_disconnect := pl_to_disconnect p @ [token]\<rparr>)))"

definition on_net_event :: "externals \<Rightarrow> merge_env \<Rightarrow> tile_input \<Rightarrow> NetEvent \<Rightarrow> Polled \<Rightarrow> Polled tile_act" where
  "on_net_event x e inp ev p =
     hbind (hget tl_token) (\<lambda>mine.
     case ev of
       Accepted \<Rightarrow> hret p
     | Connected token \<Rightarrow>
         if mine = Some token
         then hseq (hset (\<lambda>t. t\<lparr>tl_conn := conn_reset (tl_conn t)\<rparr>)) (hret (p\<lparr>pl_to_register := pl_to_register p @ [token]\<rparr>))
         else hret p
     | Disconnected token \<Rightarrow>
         if mine = Some token then hseq (hset (\<lambda>t. t\<lparr>tl_conn := conn_reset (tl_conn t)\<rparr>)) (hret p) else hret p
     | NetMessage token payload \<Rightarrow> if mine \<noteq> Some token then hret p else on_message x e inp token payload p)"

fun each :: "('a \<Rightarrow> unit tile_act) \<Rightarrow> 'a list \<Rightarrow> unit tile_act" where
  "each f [] = hret ()"
| "each f (y # ys) = hseq (f y) (each f ys)"

fun poll_events :: "externals \<Rightarrow> merge_env \<Rightarrow> tile_input \<Rightarrow> NetEvent list \<Rightarrow> Polled \<Rightarrow> Polled tile_act" where
  "poll_events x e inp [] p = hret p"
| "poll_events x e inp (ev # evs) p = hbind (on_net_event x e inp ev p) (poll_events x e inp evs)"

definition drop_connection :: "Token \<Rightarrow> unit tile_act" where
  "drop_connection token =
     hseq (hsend [Disconnect token])
     (hset (\<lambda>t. if tl_token t = Some token then t\<lparr>tl_conn := conn_reset (tl_conn t)\<rparr> else t))"

definition poll_sockets :: "externals \<Rightarrow> merge_env \<Rightarrow> tile_input \<Rightarrow> NetEvent list \<Rightarrow> unit tile_act" where
  "poll_sockets x e inp evs =
     hbind (poll_events x e inp evs Polled_none) (\<lambda>p.
     hseq (each drop_connection (pl_to_disconnect p))
     (hseq (each send_registration (pl_to_register p))
     (hseq (each (complete_handshake x e inp) (pl_handshaken p))
     (hseq (each (\<lambda>(token, nonce). hsend [SendTo token (MsgPong nonce)]) (pl_pongs p))
     (each (\<lambda>(token, reject). on_reject token reject) (pl_rejects p))))))"

definition tile_loop_body ::
  "externals \<Rightarrow> merge_env \<Rightarrow> tile_input \<Rightarrow> NetEvent list \<Rightarrow> bool \<Rightarrow> nat list \<Rightarrow> nat list \<Rightarrow> unit tile_act" where
  "tile_loop_body x e inp evs ping_fired slot_msgs decoded_msgs =
     hseq (poll_sockets x e inp evs)
     (hbind (hget tl_merged_block_response_ids) (\<lambda>ids.
     hseq (hset (\<lambda>t. t\<lparr>tl_merged_block_response_ids := []\<rparr>))
     (hseq (hsend (map MergedBlockMsg ids))
     (hseq (if ping_fired then send_pings else hret ())
     (hseq (each (tile_on_slot_msg e inp) slot_msgs)
     (each (\<lambda>ix. forward_decoded x e inp ix None) decoded_msgs))))))"

section \<open>Hashing\<close>

definition memo_ok :: "merge_env \<Rightarrow> (bytes, B256) FxHashMap \<Rightarrow> bool" where
  "memo_ok e cache = list_all (\<lambda>(tx, h). h = keccak e tx) cache"

text \<open>The blobs the transactions of a block refer to, in order.\<close>

definition blob_hashes_of :: "merge_env \<Rightarrow> ExecutionPayload \<Rightarrow> B256 list" where
  "blob_hashes_of e payload = concat (map (\<lambda>tx. the (tx_blob_hashes e tx)) (ep_transactions payload))"

definition bundle_carries ::
  "externals \<Rightarrow> merge_env \<Rightarrow> (B256, BlobWithMetadata) FxHashMap \<Rightarrow> nat \<Rightarrow> ExecutionPayload \<Rightarrow> BlobsBundle \<Rightarrow> bool" where
  "bundle_carries x e sidecars n payload b \<longleftrightarrow>
     list_all (\<lambda>tx. tx_blob_hashes e tx \<noteq> None) (ep_transactions payload) \<and>
     list_all (\<lambda>h. map_of sidecars h \<noteq> None) (blob_hashes_of e payload) \<and>
     bb_commitments b = map (\<lambda>h. bw_commitment (the (map_of sidecars h))) (blob_hashes_of e payload) \<and>
     bb_proofs b = concat (map (\<lambda>h. bw_proofs (the (map_of sidecars h))) (blob_hashes_of e payload)) \<and>
     bb_blobs b = map (\<lambda>h. bw_blob (the (map_of sidecars h))) (blob_hashes_of e payload) \<and>
     length (bb_proofs b) = length (bb_blobs b) * cells_per_ext_blob x \<and> length (bb_blobs b) \<le> n"

text \<open>The hashes of the transactions a merged block has beyond its base block, in their order.\<close>

definition appended_part :: "merge_env \<Rightarrow> BlockMergeResponse \<Rightarrow> B256 list" where
  "appended_part e r = filter (\<lambda>h. h \<in> appended_tx_hashes (bmr_builder_inclusions r))
     (map (keccak e) (ep_transactions (bmr_execution_payload r)))"

definition sample_merge_env :: merge_env where
  "sample_merge_env = \<lparr>keccak = (\<lambda>bs. of_nat (nat_of_le bs)), tx_blob_hashes = (\<lambda>tx. Some (if hd tx = 2 then [50] else [])),
     versioned_hash = (\<lambda>c. ucast c), enc_mergeable = (\<lambda>m. []), dec_ack = (\<lambda>b. None), dec_ping = (\<lambda>b. None),
     dec_pong = (\<lambda>b. None), dec_merged = (\<lambda>b. None), dec_reject = (\<lambda>b. None), dec_fatal = (\<lambda>b. None),
     max_deposit_requests = 8192, max_withdrawal_requests = 16, max_consolidation_requests = 2,
     parse_uuid = (\<lambda>s. None), first_entry = hd\<rparr>"

definition sample_v3 :: "bytes list \<Rightarrow> ExecutionPayloadV3" where
  "sample_v3 txs = \<lparr>v3_parent_hash = 5, v3_fee_recipient = 3, v3_state_root = 0, v3_receipts_root = 0, v3_logs_bloom = 0,
     v3_prev_randao = 0, v3_block_number = 1, v3_gas_limit = 30, v3_gas_used = 20, v3_timestamp = 1000, v3_extra_data = [],
     v3_base_fee_per_gas = 1, v3_block_hash = 101, v3_transactions = txs, v3_withdrawals = [], v3_blob_gas_used = 0,
     v3_excess_blob_gas = 0\<rparr>"

definition sample_merged :: MergedBlockV1 where
  "sample_merged = \<lparr>mk_slot = 7, mk_response_id = 0, mk_base_block_hash = 100, mk_base_builder_pubkey = 1,
     mk_execution_payload = sample_v3 [[1], [2], [3], [4]],
     mk_execution_requests = \<lparr>v4_deposits = [], v4_withdrawals = [], v4_consolidations = []\<rparr>, mk_appended_blobs = [50],
     mk_proposer_value = 20, mk_base_builder_revenue = 0, mk_relay_revenue = 0,
     mk_builder_inclusions = [\<lparr>in_builder_pubkey = 2, in_origin_coinbase = 9, in_contribution = 4, in_revenue = 2, in_txs = [2, 3]\<rparr>],
     mk_included_order_ids = [], mk_trace = \<lparr>tr_base_block_recv_ns = 0, tr_sim_start_ns = 0, tr_sim_end_ns = 0, tr_finalize_ns = 0\<rparr>,
     mk_unmerged_txs = []\<rparr>"

definition sample_tile :: BlockMergingTile where
  "sample_tile = \<lparr>tl_relay_id = [], tl_relay_config_msg = \<lparr>rc_relay_fee_recipient = 1, rc_multisend_contract = 2, rc_relay_bps = 1,
       rc_merged_builder_bps = 1, rc_winning_builder_bps = 1, rc_distribution_gas_limit = 1, rc_builder_collaterals = []\<rparr>,
     tl_api_key = [], tl_token = Some 1, tl_conn = Conn_default\<lparr>cn_active := True\<rparr>,
     tl_slot = SlotState_default\<lparr>so_bid_slot := 7, so_appendable := [100], so_order_txs := [\<lparr>ot_hashes = [2, 3], ot_droppable = {}\<rparr>]\<rparr>,
     tl_stats = SlotStats_default, tl_hydration_cache = [],
     tl_blob_sidecars = [(50, \<lparr>bw_commitment = 50, bw_proofs = replicate 128 8, bw_blob = [9]\<rparr>)], tl_tx_hash_cache = [([1], 1)],
     tl_ping_nonce = 0, tl_merged_blocks = [], tl_merged_block_response_ids = []\<rparr>"

definition sample_input :: tile_input where
  "sample_input = \<lparr>ti_enabled = True, ti_now = 9, ti_max_blobs = 6, ti_decoded = (\<lambda>i. None), ti_slots = (\<lambda>i. None)\<rparr>"

lemma memo_ok_hash_tx: "memo_ok e cache \<Longrightarrow> hash_tx e tx cache = (h, cache') \<Longrightarrow> h = keccak e tx \<and> memo_ok e cache'"
  by (auto simp: memo_ok_def hash_tx_def list_all_iff split: option.splits dest: map_of_SomeD)

lemma hash_txs_keccak:
  "memo_ok e cache \<Longrightarrow> fst (hash_txs e txs cache) = map (keccak e) txs \<and> memo_ok e (snd (hash_txs e txs cache))"
proof (induction txs arbitrary: cache)
  case (Cons tx txs)
  obtain h cache1 where 1: "hash_tx e tx cache = (h, cache1)" by (cases "hash_tx e tx cache")
  show ?case using Cons.IH [of cache1] memo_ok_hash_tx [OF Cons.prems 1] 1 by (simp add: split_beta)
qed simp

section \<open>Blobs and the response\<close>

lemma push_blob_Inr:
  "push_blob x c ps bl n b = Inr b' \<Longrightarrow> bb_commitments b' = bb_commitments b @ [c] \<and> bb_proofs b' = bb_proofs b @ ps \<and>
     bb_blobs b' = bb_blobs b @ [bl]"
  by (auto simp: push_blob_def split: if_splits)

lemma attach_blobs_Some:
  "attach_blobs x sidecars n hs b = Some b' \<Longrightarrow>
     list_all (\<lambda>h. map_of sidecars h \<noteq> None) hs \<and>
     bb_commitments b' = bb_commitments b @ map (\<lambda>h. bw_commitment (the (map_of sidecars h))) hs \<and>
     bb_proofs b' = bb_proofs b @ concat (map (\<lambda>h. bw_proofs (the (map_of sidecars h))) hs) \<and>
     bb_blobs b' = bb_blobs b @ map (\<lambda>h. bw_blob (the (map_of sidecars h))) hs"
proof (induction hs arbitrary: b)
  case (Cons h hs)
  then obtain s b1 where "map_of sidecars h = Some s" "push_blob x (bw_commitment s) (bw_proofs s) (bw_blob s) n b = Inr b1"
    "attach_blobs x sidecars n hs b1 = Some b'"
    by (auto split: option.splits sum.splits)
  then show ?case using Cons.IH [of b1] push_blob_Inr [of x "bw_commitment s"] by simp
qed simp

lemma resolve_txs_Some:
  "resolve_txs x e sidecars n txs b = Some b' \<Longrightarrow>
     list_all (\<lambda>tx. tx_blob_hashes e tx \<noteq> None) txs \<and>
     attach_blobs x sidecars n (concat (map (\<lambda>tx. the (tx_blob_hashes e tx)) txs)) b = Some b'"
proof (induction txs arbitrary: b)
  case (Cons tx txs)
  have app: "attach_blobs x sidecars n (hs @ hs') b = Option.bind (attach_blobs x sidecars n hs b) (attach_blobs x sidecars n hs')" for hs hs' b
    by (induction hs arbitrary: b) (auto split: option.split sum.split)
  from Cons.prems obtain hs b1 where "tx_blob_hashes e tx = Some hs" "attach_blobs x sidecars n hs b = Some b1"
    "resolve_txs x e sidecars n txs b1 = Some b'"
    by (auto split: option.splits simp: bind_eq_Some_conv)
  then show ?case using Cons.IH [of b1] app by simp
qed simp

lemma resolve_blobs_bundle_carries:
  "resolve_blobs_bundle x e payload sidecars n = Some b \<Longrightarrow> bundle_carries x e sidecars n payload b"
  by (auto simp: resolve_blobs_bundle_def bundle_carries_def blob_hashes_of_def empty_bundle_def is_ok_def
      split: option.splits if_splits sum.splits dest!: resolve_txs_Some attach_blobs_Some)

lemma payload_roundtrip:
  "payload_from_v3 x v = Some payload \<Longrightarrow> payload_to_v3 payload = v"
  by (auto simp: payload_from_v3_def payload_to_v3_def split: if_splits)

lemma merged_block_to_response_Some:
  assumes "merged_block_to_response x e m sidecars n = Some r"
  shows "payload_to_v3 (bmr_execution_payload r) = mk_execution_payload m \<and>
    bundle_carries x e sidecars n (bmr_execution_payload r) (bmr_blobs_bundle r) \<and>
    requests_to_v4 (bmr_execution_requests r) = mk_execution_requests m \<and>
    bmr_base_block_hash r = mk_base_block_hash m \<and> bmr_proposer_value r = mk_proposer_value m \<and>
    bmr_builder_inclusions r = inclusion_map (mk_builder_inclusions m) \<and>
    bmr_base_payment_tx_index r + card (appended_tx_hashes (bmr_builder_inclusions r)) + 2 =
      length (ep_transactions (bmr_execution_payload r))"
proof -
  obtain payload blobs requests where p: "payload_from_v3 x (mk_execution_payload m) = Some payload"
    "resolve_blobs_bundle x e payload sidecars n = Some blobs" "requests_from_v4 e (mk_execution_requests m) = Some requests"
    "bmr_execution_payload r = payload" "bmr_blobs_bundle r = blobs" "bmr_execution_requests r = requests"
    "bmr_base_block_hash r = mk_base_block_hash m" "bmr_proposer_value r = mk_proposer_value m"
    "bmr_builder_inclusions r = inclusion_map (mk_builder_inclusions m)"
    "bmr_base_payment_tx_index r = length (ep_transactions payload) - (card (appended_tx_hashes (inclusion_map (mk_builder_inclusions m))) + 2)"
    "card (appended_tx_hashes (inclusion_map (mk_builder_inclusions m))) + 2 \<le> length (ep_transactions payload)"
    using assms by (auto simp: merged_block_to_response_def bind_eq_Some_conv Let_def split: if_splits)
  have "requests_to_v4 requests = mk_execution_requests m"
    using p(3) by (auto simp: requests_from_v4_def requests_to_v4_def split: if_splits)
  then show ?thesis using p payload_roundtrip [OF p(1)] resolve_blobs_bundle_carries [OF p(2)] by simp
qed

section \<open>Accepting a merged block\<close>

lemma handle_merged_block_Some:
  assumes "handle_merged_block x e inp merged t = Some (Some r, t', outs)"
  shows "\<exists>response. ti_enabled inp \<and> mk_slot merged = so_bid_slot (tl_slot t) \<and>
    mk_base_block_hash merged \<in> set (so_appendable (tl_slot t)) \<and>
    merged_block_to_response x e merged (tl_blob_sidecars t) (ti_max_blobs inp) = Some response \<and>
    r = accepted_response inp (tl_slot t) (mk_base_block_hash merged) response \<and>
    find_unbundled_txs (filter (\<lambda>h. h \<in> appended_tx_hashes (bmr_builder_inclusions response))
      (fst (hash_txs e (ep_transactions (bmr_execution_payload response)) (tl_tx_hash_cache t)))) (so_order_txs (tl_slot t)) = []"
proof (cases "merged_block_to_response x e merged (tl_blob_sidecars t) (ti_max_blobs inp)")
  case None
  then show ?thesis
    using assms by (simp add: handle_merged_block_def hbind_def hget_def hret_def hset_def add_stats_def split: if_splits)
next
  case (Some response)
  obtain hs c where h: "hash_txs e (ep_transactions (bmr_execution_payload response)) (tl_tx_hash_cache t) = (hs, c)"
    by (cases "hash_txs e (ep_transactions (bmr_execution_payload response)) (tl_tx_hash_cache t)")
  show ?thesis
    using assms Some h
    by (simp add: handle_merged_block_def check_unbundled_def hbind_def hget_def hret_def hset_def add_stats_def Let_def split: if_splits)
qed

text \<open>C9. A merged block handed to the auctioneer is for the slot under auction and builds on a block that was
  forwarded as appendable; its payload and requests are the ones received, every blob its transactions refer
  to is attached in order with a full set of proofs; the payment of the base block is at the index given; and no
  order was broken apart: a transaction added to the base block that belongs to an order the relay sent
  belongs to one whose remaining transactions stand in the added part in one piece.\<close>

theorem accepted_merged_block:
  assumes "handle_merged_block x e inp merged t = Some (Some r, t', outs)"
    and "memo_ok e (tl_tx_hash_cache t)"
    and "distinct (map (keccak e) (v3_transactions (mk_execution_payload merged)))"
  shows "ti_enabled inp \<and> mk_slot merged = so_bid_slot (tl_slot t) \<and> bmr_base_block_hash r = mk_base_block_hash merged \<and>
    bmr_base_block_hash r \<in> set (so_appendable (tl_slot t)) \<and>
    payload_to_v3 (bmr_execution_payload r) = mk_execution_payload merged \<and>
    requests_to_v4 (bmr_execution_requests r) = mk_execution_requests merged \<and>
    bmr_proposer_value r = mk_proposer_value merged \<and>
    bundle_carries x e (tl_blob_sidecars t) (ti_max_blobs inp) (bmr_execution_payload r) (bmr_blobs_bundle r) \<and>
    bmr_base_payment_tx_index r + card (appended_tx_hashes (bmr_builder_inclusions r)) + 2 =
      length (ep_transactions (bmr_execution_payload r)) \<and>
    (\<forall>or \<in> set (so_order_txs (tl_slot t)). \<forall>h \<in> set (ot_hashes or) \<inter> set (appended_part e r).
       \<exists>or' \<in> set (so_order_txs (tl_slot t)). h \<in> set (ot_hashes or') \<and> honoured (appended_part e r) or')"
proof -
  obtain response where h: "ti_enabled inp" "mk_slot merged = so_bid_slot (tl_slot t)"
    "mk_base_block_hash merged \<in> set (so_appendable (tl_slot t))"
    "merged_block_to_response x e merged (tl_blob_sidecars t) (ti_max_blobs inp) = Some response"
    "r = accepted_response inp (tl_slot t) (mk_base_block_hash merged) response"
    "find_unbundled_txs (filter (\<lambda>h. h \<in> appended_tx_hashes (bmr_builder_inclusions response))
      (fst (hash_txs e (ep_transactions (bmr_execution_payload response)) (tl_tx_hash_cache t)))) (so_order_txs (tl_slot t)) = []"
    using handle_merged_block_Some [OF assms(1)] by blast
  note m = merged_block_to_response_Some [OF h(4)]
  have txs: "ep_transactions (bmr_execution_payload response) = v3_transactions (mk_execution_payload merged)"
    using m by (metis ExecutionPayloadV3.select_convs(14) payload_to_v3_def)
  have same: "appended_part e r = appended_part e response"
    "bmr_execution_payload r = bmr_execution_payload response" "bmr_blobs_bundle r = bmr_blobs_bundle response"
    "bmr_execution_requests r = bmr_execution_requests response" "bmr_builder_inclusions r = bmr_builder_inclusions response"
    "bmr_base_payment_tx_index r = bmr_base_payment_tx_index response" "bmr_proposer_value r = bmr_proposer_value response"
    "bmr_base_block_hash r = bmr_base_block_hash response"
    using h(5) by (simp_all add: accepted_response_def appended_part_def)
  have "distinct (appended_part e response)"
    unfolding appended_part_def txs using assms(3) by (rule distinct_filter)
  moreover have "find_unbundled_txs (appended_part e response) (so_order_txs (tl_slot t)) = []"
    using h(6) hash_txs_keccak [OF assms(2)] by (simp add: appended_part_def)
  ultimately have "\<forall>h \<in> set (appended_part e response).
      (\<exists>or \<in> set (so_order_txs (tl_slot t)). h \<in> set (ot_hashes or)) \<longrightarrow>
      (\<exists>or \<in> set (so_order_txs (tl_slot t)). honoured (appended_part e response) or \<and> h \<in> set (ot_hashes or))"
    using unbundled_exact by (simp add: filter_empty_conv) blast
  then show ?thesis using h(1-3) m same by auto
qed

lemma sample_response:
  "\<exists>response. merged_block_to_response sample_externals sample_merge_env sample_merged (tl_blob_sidecars sample_tile) 6 = Some response \<and>
     ep_transactions (bmr_execution_payload response) = [[1], [2], [3], [4]] \<and>
     bmr_builder_inclusions response = [(9, \<lparr>bir_contribution = 4, bir_revenue = 2, bir_txs = [2, 3]\<rparr>)] \<and>
     bb_commitments (bmr_blobs_bundle response) = [50] \<and> bmr_base_payment_tx_index response = 0"
proof -
  have "resolve_blobs_bundle sample_externals sample_merge_env payload (tl_blob_sidecars sample_tile) 6 =
      Some \<lparr>bb_commitments = [50], bb_proofs = replicate 128 8, bb_blobs = [[9]]\<rparr>"
    if "ep_transactions payload = [[1], [2], [3], [4]]" for payload
    unfolding resolve_blobs_bundle_def that
    by (simp add: sample_merge_env_def sample_externals_def sample_tile_def push_blob_def empty_bundle_def is_ok_def
        blobs_validate_ssz_lengths_def ensure_def del: blobs_validate_ssz_lengths_Inr)
  then show ?thesis
    by (simp add: merged_block_to_response_def sample_merged_def sample_v3_def payload_from_v3_def sample_externals_def
        inclusion_map_def appended_tx_hashes_def requests_from_v4_def sample_merge_env_def)
qed

theorem accepted_merged_block_witness:
  "\<exists>r t' outs. handle_merged_block sample_externals sample_merge_env sample_input sample_merged sample_tile = Some (Some r, t', outs) \<and>
     bb_commitments (bmr_blobs_bundle r) = [50] \<and> bmr_base_payment_tx_index r = 0 \<and>
     (\<forall>or \<in> set (so_order_txs (tl_slot sample_tile)). \<forall>h \<in> set (ot_hashes or) \<inter> set (appended_part sample_merge_env r).
       \<exists>or' \<in> set (so_order_txs (tl_slot sample_tile)). h \<in> set (ot_hashes or') \<and> honoured (appended_part sample_merge_env r) or')"
proof -
  obtain response where r:
    "merged_block_to_response sample_externals sample_merge_env sample_merged (tl_blob_sidecars sample_tile) 6 = Some response"
    "ep_transactions (bmr_execution_payload response) = [[1], [2], [3], [4]]"
    "bmr_builder_inclusions response = [(9, \<lparr>bir_contribution = 4, bir_revenue = 2, bir_txs = [2, 3]\<rparr>)]"
    "bb_commitments (bmr_blobs_bundle response) = [50]" "bmr_base_payment_tx_index response = 0"
    using sample_response by blast
  have k: "tl_slot sample_tile = SlotState_default\<lparr>so_bid_slot := 7, so_appendable := [100],
      so_order_txs := [\<lparr>ot_hashes = [2, 3], ot_droppable = {}\<rparr>]\<rparr>" "tl_tx_hash_cache sample_tile = [([1], 1)]"
    by (simp_all add: sample_tile_def)
  have u: "find_unbundled_txs [2, 3] [\<lparr>ot_hashes = [2, 3], ot_droppable = {}\<rparr>] = []"
    by (simp add: find_unbundled_txs_def tx_positions_def mark_order_def mark_hash_def is_satisfied_def enumerate_eq_zip upt_rec Let_def)
  have "\<exists>t' outs. handle_merged_block sample_externals sample_merge_env sample_input sample_merged sample_tile =
      Some (Some (accepted_response sample_input (tl_slot sample_tile) 100 response), t', outs)"
    using r(1) u
    by (simp add: handle_merged_block_def check_unbundled_def sample_merged_def sample_input_def k r(2,3) hbind_def hget_def hset_def
        hret_def add_stats_def appended_tx_hashes_def hash_tx_def sample_merge_env_def SlotState_default_def)
  then obtain t' outs where h: "handle_merged_block sample_externals sample_merge_env sample_input sample_merged sample_tile =
      Some (Some (accepted_response sample_input (tl_slot sample_tile) 100 response), t', outs)" by blast
  have "memo_ok sample_merge_env (tl_tx_hash_cache sample_tile)"
    "distinct (map (keccak sample_merge_env) (v3_transactions (mk_execution_payload sample_merged)))"
    by (simp_all add: memo_ok_def sample_tile_def sample_merge_env_def sample_merged_def sample_v3_def)
  then have "\<forall>or \<in> set (so_order_txs (tl_slot sample_tile)). \<forall>h \<in> set (ot_hashes or) \<inter>
       set (appended_part sample_merge_env (accepted_response sample_input (tl_slot sample_tile) 100 response)).
       \<exists>or' \<in> set (so_order_txs (tl_slot sample_tile)). h \<in> set (ot_hashes or') \<and>
         honoured (appended_part sample_merge_env (accepted_response sample_input (tl_slot sample_tile) 100 response)) or'"
    using accepted_merged_block [OF h] by blast
  then show ?thesis using h r(4,5) by (auto simp: accepted_response_def)
qed

end
