(* ===== verification/Merge_Pool.thy ===== *)
theory Merge_Pool
  imports Merging_Wire
begin

text \<open>
  The merge builder's order pool (\<open>crates/builder/src/merge/pool.rs\<close>): the transactions, orders and submitters
  of the blocks a relay forwarded in a slot.

  Positions in the vectors, 32-bit in the code, are natural numbers; the number of submitters, whose positions
  have 16 bits, is bounded by the check on the number of blocks (\<open>submitters_fit\<close>).  Decoding a block, decoding
  a transaction and recovering its sender are library calls, fields of \<open>builder_env\<close>.  The text of a rejection
  is left out.
\<close>

unbundle bit_operations_syntax

section \<open>State\<close>

record TxBody =
  tb_gas_limit :: u64
  tb_blob_hashes :: "B256 list"

record builder_env = merge_env +
  dec_mergeable :: "bytes \<Rightarrow> MergeableBlockV1 option"
  decode_canonical :: "bytes \<Rightarrow> TxBody option"
  recover_sender :: "bytes \<Rightarrow> Address option"

record Tx =
  tx_tx :: TxBody
  tx_sender :: Address
  tx_hash :: B256
  tx_encoded :: bytes

record Range =
  rg_at :: nat
  rg_len :: nat

definition range_between :: "nat \<Rightarrow> nat \<Rightarrow> Range" where
  "range_between at len = \<lparr>rg_at = at, rg_len = len - at\<rparr>"

definition range_slice :: "Range \<Rightarrow> 'a list \<Rightarrow> 'a list" where
  "range_slice r items = take (rg_len r) (drop (rg_at r) items)"

record Submitter =
  su_pubkey :: BlsPublicKeyBytes
  su_address :: Address

record Order =
  od_txs :: Range
  od_may_revert :: u32
  od_may_drop :: u32
  od_best_block :: nat
  od_submitter :: nat
  od_withdrawn :: bool

text \<open>A block that may be built upon, with the fields of its header that are taken from the payload.\<close>

record BaseBlock =
  ba_hash :: B256
  ba_recv_ns :: u64
  ba_block :: nat
  ba_submitter :: nat
  ba_parent_hash :: B256
  ba_coinbase :: Address
  ba_number :: u64
  ba_gas_limit :: u64
  ba_gas_used :: u64
  ba_timestamp :: u64
  ba_extra_data :: bytes
  ba_prev_randao :: B256
  ba_base_fee_per_gas :: "u64 option"
  ba_excess_blob_gas :: "u64 option"
  ba_withdrawals :: "Withdrawal list"
  ba_txs :: Range

record Reject =
  re_code :: RejectCode
  re_label :: string
  re_block_hash :: "B256 option"

record Added =
  ad_base :: "BaseBlock option"
  ad_orders_dropped :: "Reject option"

record Pool =
  po_txs :: "Tx list"
  po_tx_fit :: "(u64 \<times> u64) list"
  po_tx_by_hash :: "(B256, nat) FxHashMap"
  po_tx_refs :: "nat list"
  po_orders :: "Order list"
  po_order_ids :: "B256 list"
  po_order_by_id :: "(B256, nat) FxHashMap"
  po_submitters :: "Submitter list"
  po_block_hashes :: "B256 list"
  po_block_values :: "U256 list"
  po_latest_bundles :: "(nat \<times> nat) list"
  po_submission_txs :: "nat list"
  po_orders_version :: u64

definition Pool_default :: Pool where
  "Pool_default = \<lparr>po_txs = [], po_tx_fit = [], po_tx_by_hash = [], po_tx_refs = [], po_orders = [], po_order_ids = [],
     po_order_by_id = [], po_submitters = [], po_block_hashes = [], po_block_values = [], po_latest_bundles = [],
     po_submission_txs = [], po_orders_version = 0\<rparr>"

definition pool_clear :: "Pool \<Rightarrow> Pool" where
  "pool_clear p = p\<lparr>po_txs := [], po_tx_fit := [], po_tx_by_hash := [], po_tx_refs := [], po_orders := [],
     po_order_ids := [], po_order_by_id := [], po_submitters := [], po_block_hashes := [], po_block_values := [],
     po_latest_bundles := [], po_orders_version := 0\<rparr>"

definition txs_of :: "Pool \<Rightarrow> Range \<Rightarrow> nat list" where
  "txs_of p r = range_slice r (po_tx_refs p)"

section \<open>Transactions\<close>

text \<open>A reference is looked up; a whole transaction is stored unless it is known.  \<open>None\<close> is the error.\<close>

definition insert_tx :: "builder_env \<Rightarrow> bytes \<Rightarrow> Pool \<Rightarrow> nat option \<times> Pool" where
  "insert_tx b bytes p =
     (if is_tx_hash_ref bytes then (map_of (po_tx_by_hash p) (fixed_from bytes), p)
      else
        (let hash = keccak b bytes in
         case map_of (po_tx_by_hash p) hash of
           Some ix \<Rightarrow> (Some ix, p)
         | None \<Rightarrow>
             (case decode_canonical b bytes of
                None \<Rightarrow> (None, p)
              | Some tx \<Rightarrow>
                  (case recover_sender b bytes of
                     None \<Rightarrow> (None, p)
                   | Some sender \<Rightarrow>
                       (Some (length (po_txs p)),
                        p\<lparr>po_txs := po_txs p @ [\<lparr>tx_tx = tx, tx_sender = sender, tx_hash = hash, tx_encoded = bytes\<rparr>],
                          po_tx_fit := po_tx_fit p @ [(tb_gas_limit tx, of_nat (length (tb_blob_hashes tx)))],
                          po_tx_by_hash := AList.update hash (length (po_txs p)) (po_tx_by_hash p)\<rparr>)))))"

text \<open>The loop over a block's transactions: whether one was oversized and whether one failed.\<close>

fun insert_txs :: "builder_env \<Rightarrow> bytes list \<Rightarrow> Pool \<Rightarrow> bool \<times> bool \<times> Pool" where
  "insert_txs b [] p = (False, False, p)"
| "insert_txs b (bs # rest) p =
     (if length bs > MAX_TX_BYTES
      then (let (oversized, failed, p') = insert_txs b rest p in (True, failed, p'))
      else
        (case insert_tx b bs p of
           (Some ix, p1) \<Rightarrow> insert_txs b rest (p1\<lparr>po_submission_txs := po_submission_txs p1 @ [ix]\<rparr>)
         | (None, p1) \<Rightarrow> (let (oversized, failed, p') = insert_txs b rest p1 in (oversized, True, p'))))"

section \<open>Orders\<close>

definition index_bits :: "u16 list \<Rightarrow> u32" where
  "index_bits ixs = fold (\<lambda>i bits. bits OR push_bit (unat i) 1) ixs 0"

definition submitted_hash :: "Pool \<Rightarrow> u16 \<Rightarrow> B256" where
  "submitted_hash p i = tx_hash (po_txs p ! (po_submission_txs p ! unat i))"

definition ref_hash :: "builder_env \<Rightarrow> Pool \<Rightarrow> MergeOrderRef \<Rightarrow> B256" where
  "ref_hash b p r = (case r of
     RefTx t \<Rightarrow> submitted_hash p (tr_index t)
   | RefBundle k \<Rightarrow> bundle_order_hash (keccak b) (map (submitted_hash p) (br_txs k)))"

definition ref_liberties :: "MergeOrderRef \<Rightarrow> u32 \<times> u32" where
  "ref_liberties r = (case r of
     RefTx t \<Rightarrow> (if tr_can_revert t then 1 else 0, 0)
   | RefBundle k \<Rightarrow> (index_bits (br_reverting_txs k), index_bits (br_dropping_txs k)))"

definition ref_latest_only :: "MergeOrderRef \<Rightarrow> bool" where
  "ref_latest_only r = (case r of RefTx _ \<Rightarrow> False | RefBundle k \<Rightarrow> br_latest_only k)"

definition ref_indices :: "MergeOrderRef \<Rightarrow> u16 list" where
  "ref_indices r = (case r of RefTx t \<Rightarrow> [tr_index t] | RefBundle k \<Rightarrow> br_txs k)"

definition take_over :: "nat \<Rightarrow> nat \<Rightarrow> u32 \<times> u32 \<Rightarrow> Order \<Rightarrow> Order" where
  "take_over block submitter liberties od =
     od\<lparr>od_may_revert := fst liberties, od_may_drop := snd liberties, od_best_block := block, od_submitter := submitter\<rparr>"

text \<open>One order: known orders are taken over by a block of higher value, new ones are pooled while there is
  room.  Besides the pool: whether something changed and whether the pool was full.\<close>

definition add_order ::
  "builder_env \<Rightarrow> MergeableBlockV1 \<Rightarrow> nat \<Rightarrow> nat \<Rightarrow> nat \<Rightarrow> MergeOrderRef \<Rightarrow> Pool \<times> bool \<times> bool \<Rightarrow> Pool \<times> bool \<times> bool" where
  "add_order b msg block submitter cap r acc =
     (case acc of (p, changed, full) \<Rightarrow>
      let hash = ref_hash b p r; liberties = ref_liberties r;
          oid = order_id (keccak b) hash (mm_builder_pubkey msg);
          latest = (\<lambda>ix q. if ref_latest_only r then q\<lparr>po_latest_bundles := po_latest_bundles q @ [(submitter, ix)]\<rparr> else q)
      in case map_of (po_order_by_id p) oid of
           Some ix \<Rightarrow>
             if mm_block_value msg > po_block_values p ! od_best_block (po_orders p ! ix)
             then (latest ix (p\<lparr>po_orders := (po_orders p)[ix := take_over block submitter liberties (po_orders p ! ix)]\<rparr>), True, full)
             else (latest ix p, changed, full)
         | None \<Rightarrow>
             if length (po_orders p) \<ge> cap then (p, changed, True)
             else
               (let at = length (po_tx_refs p);
                    refs = po_tx_refs p @ map (\<lambda>i. po_submission_txs p ! unat i) (ref_indices r);
                    ix = length (po_orders p);
                    order = \<lparr>od_txs = \<lparr>rg_at = at, rg_len = length refs - at\<rparr>, od_may_revert = fst liberties, od_may_drop = snd liberties,
                             od_best_block = block, od_submitter = submitter, od_withdrawn = False\<rparr>
                in (latest ix (p\<lparr>po_tx_refs := refs, po_orders := po_orders p @ [order], po_order_ids := po_order_ids p @ [oid],
                      po_order_by_id := AList.update oid ix (po_order_by_id p)\<rparr>), True, full)))"

definition withdraw :: "Order \<Rightarrow> Order" where
  "withdraw od = od\<lparr>od_withdrawn := True\<rparr>"

text \<open>The bundles of the submitter's earlier blocks that its newest one does not repeat are withdrawn.\<close>

definition withdraw_one :: "nat \<Rightarrow> (nat \<times> nat) list \<Rightarrow> nat \<times> nat \<Rightarrow> Pool \<times> bool \<Rightarrow> Pool \<times> bool" where
  "withdraw_one submitter newest entry acc =
     (case (entry, acc) of ((s, ix), (p, changed)) \<Rightarrow>
      if s = submitter \<and> (s, ix) \<notin> set newest
      then (p\<lparr>po_orders := (po_orders p)[ix := withdraw (po_orders p ! ix)]\<rparr>,
            changed \<or> \<not> od_withdrawn (po_orders p ! ix))
      else (p, changed))"

definition add_orders :: "builder_env \<Rightarrow> MergeableBlockV1 \<Rightarrow> nat \<Rightarrow> nat \<Rightarrow> nat \<Rightarrow> Pool \<Rightarrow> bool \<times> Pool" where
  "add_orders b msg block submitter cap p =
     (let previous = length (po_latest_bundles p);
          (p1, changed, full) = fold (add_order b msg block submitter cap) (mm_merge_orders msg) (p, False, False);
          newest = drop previous (po_latest_bundles p1);
          (p2, changed2) = fold (withdraw_one submitter newest) (take previous (po_latest_bundles p1)) (p1, changed);
          kept = filter (\<lambda>(s, _). s \<noteq> submitter) (take previous (po_latest_bundles p2)) @ drop previous (po_latest_bundles p2)
      in (full, p2\<lparr>po_latest_bundles := kept,
                   po_orders_version := po_orders_version p2 + (if changed2 then 1 else 0)\<rparr>))"

section \<open>Blocks\<close>

definition base_of :: "MergeableBlockV1 \<Rightarrow> u64 \<Rightarrow> nat \<Rightarrow> nat \<Rightarrow> Range \<Rightarrow> BaseBlock" where
  "base_of msg recv_ns block submitter txs =
     (let v = mm_execution_payload msg in
      \<lparr>ba_hash = v3_block_hash v, ba_recv_ns = recv_ns, ba_block = block, ba_submitter = submitter,
       ba_parent_hash = v3_parent_hash v, ba_coinbase = v3_fee_recipient v, ba_number = v3_block_number v,
       ba_gas_limit = v3_gas_limit v, ba_gas_used = v3_gas_used v, ba_timestamp = v3_timestamp v,
       ba_extra_data = v3_extra_data v, ba_prev_randao = v3_prev_randao v,
       ba_base_fee_per_gas = (if unat (v3_base_fee_per_gas v) < 2 ^ 64 then Some (ucast (v3_base_fee_per_gas v)) else None),
       ba_excess_blob_gas = Some (v3_excess_blob_gas v), ba_withdrawals = v3_withdrawals v, ba_txs = txs\<rparr>)"

definition find_submitter :: "MergeableBlockV1 \<Rightarrow> Pool \<Rightarrow> nat \<times> Pool" where
  "find_submitter msg p =
     (let k = length (takeWhile (\<lambda>s. \<not> (su_pubkey s = mm_builder_pubkey msg \<and> su_address s = mm_builder_address msg)) (po_submitters p))
      in if k < length (po_submitters p) then (k, p)
         else (k, p\<lparr>po_submitters := po_submitters p @ [\<lparr>su_pubkey = mm_builder_pubkey msg, su_address = mm_builder_address msg\<rparr>]\<rparr>))"

definition reject :: "RejectCode \<Rightarrow> string \<Rightarrow> B256 option \<Rightarrow> Reject" where
  "reject code label hash = \<lparr>re_code = code, re_label = label, re_block_hash = hash\<rparr>"

definition admit_block :: "builder_env \<Rightarrow> MergeableBlockV1 \<Rightarrow> u64 \<Rightarrow> nat \<Rightarrow> Pool \<Rightarrow> Added \<times> Pool" where
  "admit_block b msg recv_ns max_orders p =
     (let hash = v3_block_hash (mm_execution_payload msg);
          (submitter, p1) = find_submitter msg p;
          block = length (po_block_values p1);
          p2 = p1\<lparr>po_block_values := po_block_values p1 @ [mm_block_value msg], po_block_hashes := List.insert hash (po_block_hashes p1)\<rparr>;
          (full, p3) = add_orders b msg block submitter max_orders p2;
          txs = \<lparr>rg_at = length (po_tx_refs p3), rg_len = length (po_submission_txs p3)\<rparr>;
          p4 = (if mm_allow_appending msg then p3\<lparr>po_tx_refs := po_tx_refs p3 @ po_submission_txs p3\<rparr> else p3)
      in (\<lparr>ad_base = (if mm_allow_appending msg then Some (base_of msg recv_ns block submitter txs) else None),
           ad_orders_dropped = (if full then Some (reject LimitExceeded ''max_orders'' (Some hash)) else None)\<rparr>, p4))"

definition pool_add ::
  "builder_env \<Rightarrow> bytes \<Rightarrow> u64 \<Rightarrow> u64 \<Rightarrow> B256 \<Rightarrow> nat \<Rightarrow> nat \<Rightarrow> Pool \<Rightarrow> (Reject, Added) Result \<times> Pool" where
  "pool_add b body recv_ns slot parent_hash max_blocks max_orders p =
     (case dec_mergeable b body of
        None \<Rightarrow> (Inl (reject InvalidOrder ''undecodable'' None), p)
      | Some msg \<Rightarrow>
          (let v = mm_execution_payload msg; hash = Some (v3_block_hash v) in
           if mm_slot msg \<noteq> slot then (Inl (reject StaleSlot ''stale_slot'' hash), p)
           else if v3_block_hash v \<in> set (po_block_hashes p) then (Inr \<lparr>ad_base = None, ad_orders_dropped = None\<rparr>, p)
           else if length (po_block_hashes p) \<ge> min max_blocks 65535 then (Inl (reject LimitExceeded ''max_blocks'' hash), p)
           else if length (v3_transactions v) > MAX_BLOCK_TXS then (Inl (reject LimitExceeded ''max_block_txs'' hash), p)
           else
             (let (oversized, failed, p1) = insert_txs b (v3_transactions v) (p\<lparr>po_submission_txs := []\<rparr>) in
              if v3_parent_hash v \<noteq> parent_hash then (Inl (reject HeadMismatch ''head_mismatch'' hash), p1)
              else if oversized then (Inl (reject InvalidOrder ''oversized_tx'' hash), p1)
              else if length (mm_merge_orders msg) > MAX_ORDERS_PER_BLOCK
                then (Inl (reject LimitExceeded ''max_block_orders'' hash), p1)
              else if failed then (Inl (reject InvalidOrder ''invalid_tx'' hash), p1)
              else if \<not> list_all (ref_validate (length (po_submission_txs p1))) (mm_merge_orders msg)
                then (Inl (reject InvalidOrder ''order_ref'' hash), p1)
              else (let (added, p2) = admit_block b msg recv_ns max_orders p1 in (Inr added, p2)))))"

section \<open>What a relay may leave out\<close>

text \<open>The sender's half of the protocol: a transaction already known is sent as its hash, one that is not is sent
  whole and known from then on.\<close>

fun dehydrated :: "(bytes \<times> B256) list \<Rightarrow> B256 set \<Rightarrow> bytes list" where
  "dehydrated [] K = []"
| "dehydrated ((tx, h) # ps) K = (if h \<in> K then fixed_bytes 32 h else tx) # dehydrated ps (insert h K)"

text \<open>The receiver's half: the table is consistent, and what it knows.\<close>

definition merge_pool_ok :: "builder_env \<Rightarrow> Pool \<Rightarrow> bool" where
  "merge_pool_ok b p \<longleftrightarrow>
     (\<forall>h ix. map_of (po_tx_by_hash p) h = Some ix \<longrightarrow> ix < length (po_txs p) \<and> tx_hash (po_txs p ! ix) = h) \<and>
     list_all (\<lambda>t. tx_hash t = keccak b (tx_encoded t)) (po_txs p) \<and> length (po_tx_fit p) = length (po_txs p)"

definition known :: "Pool \<Rightarrow> B256 set" where
  "known p = dom (map_of (po_tx_by_hash p))"

text \<open>A transaction the builder can take: no longer than the limit, not of the length of a reference, and
  well formed.\<close>

definition tx_fits :: "builder_env \<Rightarrow> bytes \<Rightarrow> bool" where
  "tx_fits b tx \<longleftrightarrow> \<not> is_tx_hash_ref tx \<and> length tx \<le> MAX_TX_BYTES \<and>
     decode_canonical b tx \<noteq> None \<and> recover_sender b tx \<noteq> None"

text \<open>Nothing else of the pool changes while transactions are taken in.\<close>

definition same_orders :: "Pool \<Rightarrow> Pool \<Rightarrow> bool" where
  "same_orders p q \<longleftrightarrow> po_tx_refs q = po_tx_refs p \<and> po_orders q = po_orders p \<and> po_order_ids q = po_order_ids p \<and>
     po_order_by_id q = po_order_by_id p \<and> po_submitters q = po_submitters p \<and> po_block_hashes q = po_block_hashes p \<and>
     po_block_values q = po_block_values p \<and> po_latest_bundles q = po_latest_bundles p \<and> (\<exists>ts. po_txs q = po_txs p @ ts)"

text \<open>Orders leave the transactions alone.\<close>

definition same_txs :: "Pool \<Rightarrow> Pool \<Rightarrow> bool" where
  "same_txs p q \<longleftrightarrow> po_txs q = po_txs p \<and> po_tx_fit q = po_tx_fit p \<and> po_tx_by_hash q = po_tx_by_hash p \<and>
     po_submission_txs q = po_submission_txs p \<and> po_block_hashes q = po_block_hashes p \<and> po_block_values q = po_block_values p \<and>
     po_submitters q = po_submitters p"

text \<open>There are no more submitters than blocks, and at most 65535 blocks, so a submitter's position has 16 bits.\<close>

definition submitters_fit :: "Pool \<Rightarrow> bool" where
  "submitters_fit p \<longleftrightarrow> length (po_submitters p) \<le> length (po_block_hashes p) \<and> length (po_block_hashes p) \<le> 65535"

text \<open>An announcement is an order's identity with the value and the submitter of the block it came with.\<close>

type_synonym announcement = "B256 \<times> U256 \<times> nat"

definition announce :: "builder_env \<Rightarrow> Pool \<Rightarrow> MergeableBlockV1 \<Rightarrow> nat \<Rightarrow> MergeOrderRef \<Rightarrow> announcement" where
  "announce b p msg submitter r =
     (order_id (keccak b) (ref_hash b p r) (mm_builder_pubkey msg), mm_block_value msg, submitter)"

text \<open>The order table credits each pooled order to an announcement of it with the highest value; an announced
  order that is not pooled found the pool full.\<close>

definition announcement_ok :: "Order list \<Rightarrow> B256 list \<Rightarrow> U256 list \<Rightarrow> announcement list \<Rightarrow> B256 \<Rightarrow> nat \<Rightarrow> bool" where
  "announcement_ok os ids vals anns oid ix \<longleftrightarrow>
     ix < length os \<and> ids ! ix = oid \<and> od_best_block (os ! ix) < length vals \<and>
     (oid, vals ! od_best_block (os ! ix), od_submitter (os ! ix)) \<in> set anns \<and>
     (\<forall>v s. (oid, v, s) \<in> set anns \<longrightarrow> v \<le> vals ! od_best_block (os ! ix))"

definition credit :: "nat \<Rightarrow> (B256, nat) FxHashMap \<Rightarrow> Order list \<Rightarrow> B256 list \<Rightarrow> U256 list \<Rightarrow> announcement list \<Rightarrow> bool" where
  "credit cap m os ids vals anns \<longleftrightarrow> length ids = length os \<and>
     (\<forall>oid ix. map_of m oid = Some ix \<longrightarrow> announcement_ok os ids vals anns oid ix) \<and>
     (\<forall>oid v s. (oid, v, s) \<in> set anns \<longrightarrow> map_of m oid = None \<longrightarrow> cap \<le> length os)"

definition credited :: "nat \<Rightarrow> Pool \<Rightarrow> announcement list \<Rightarrow> bool" where
  "credited cap p anns = credit cap (po_order_by_id p) (po_orders p) (po_order_ids p) (po_block_values p) anns"

text \<open>A run of the pool over the blocks it is given, with the announcements of the blocks it admitted.\<close>

definition merge_pool_step ::
  "builder_env \<Rightarrow> u64 \<Rightarrow> B256 \<Rightarrow> nat \<Rightarrow> nat \<Rightarrow> bytes \<times> u64 \<Rightarrow> Pool \<times> announcement list \<Rightarrow> Pool \<times> announcement list" where
  "merge_pool_step b slot parent max_blocks max_orders input acc =
     (case (input, acc) of ((body, recv_ns), (p, anns)) \<Rightarrow>
      (case pool_add b body recv_ns slot parent max_blocks max_orders p of
         (Inl _, p') \<Rightarrow> (p', anns)
       | (Inr _, p') \<Rightarrow>
           (case dec_mergeable b body of
              None \<Rightarrow> (p', anns)
            | Some msg \<Rightarrow>
                if v3_block_hash (mm_execution_payload msg) \<in> set (po_block_hashes p) then (p', anns)
                else
                  (let (_, _, p1) = insert_txs b (v3_transactions (mm_execution_payload msg)) (p\<lparr>po_submission_txs := []\<rparr>)
                   in (p', anns @ map (announce b p1 msg (fst (find_submitter msg p1))) (mm_merge_orders msg))))))"

definition merge_pool_run :: "builder_env \<Rightarrow> u64 \<Rightarrow> B256 \<Rightarrow> nat \<Rightarrow> nat \<Rightarrow> (bytes \<times> u64) list \<Rightarrow> Pool \<times> announcement list" where
  "merge_pool_run b slot parent max_blocks max_orders inputs =
     fold (merge_pool_step b slot parent max_blocks max_orders) inputs (Pool_default, [])"

lemma hash_reference [simp]: "is_tx_hash_ref (fixed_bytes 32 h)" "length (fixed_bytes 32 h) \<le> MAX_TX_BYTES"
  "fixed_from (fixed_bytes 32 h) = (h :: B256)"
  by (simp_all add: is_tx_hash_ref_def TX_HASH_REF_LEN_def MAX_TX_BYTES_def fixed_bytes_roundtrip)

lemma insert_known:
  assumes "merge_pool_ok b p" "h \<in> known p" "h = keccak b tx \<and> \<not> is_tx_hash_ref tx \<or> tx = fixed_bytes 32 h"
  shows "\<exists>ix. insert_tx b tx p = (Some ix, p) \<and> ix < length (po_txs p) \<and> tx_hash (po_txs p ! ix) = h"
  using assms by (auto simp: insert_tx_def known_def merge_pool_ok_def Let_def split: option.splits)

lemma insert_new:
  assumes "merge_pool_ok b p" "keccak b tx \<notin> known p" "tx_fits b tx"
  shows "\<exists>t fit. insert_tx b tx p = (Some (length (po_txs p)),
      p\<lparr>po_txs := po_txs p @ [t], po_tx_fit := po_tx_fit p @ [fit],
        po_tx_by_hash := AList.update (keccak b tx) (length (po_txs p)) (po_tx_by_hash p)\<rparr>) \<and>
    tx_hash t = keccak b tx \<and> tx_encoded t = tx"
proof -
  obtain y s where "decode_canonical b tx = Some y" "recover_sender b tx = Some s" "\<not> is_tx_hash_ref tx"
    using assms(3) by (auto simp: tx_fits_def)
  moreover have "map_of (po_tx_by_hash p) (keccak b tx) = None" using assms(2) by (simp add: known_def domIff)
  ultimately show ?thesis
    by (intro exI [of _ "\<lparr>tx_tx = y, tx_sender = s, tx_hash = keccak b tx, tx_encoded = tx\<rparr>"]
        exI [of _ "(tb_gas_limit y, of_nat (length (tb_blob_hashes y)))"]) (simp add: insert_tx_def Let_def)
qed

lemma pool_ok_push:
  assumes "merge_pool_ok b p" "tx_hash t = keccak b (tx_encoded t)"
  shows "merge_pool_ok b (p\<lparr>po_txs := po_txs p @ [t], po_tx_fit := po_tx_fit p @ [fit],
    po_tx_by_hash := AList.update (tx_hash t) (length (po_txs p)) (po_tx_by_hash p)\<rparr>)"
  using assms by (auto simp: merge_pool_ok_def update_conv' nth_append less_Suc_eq)

lemma pool_ok_submission [simp]:
  "merge_pool_ok b (p\<lparr>po_submission_txs := ixs\<rparr>) = merge_pool_ok b p" "known (p\<lparr>po_submission_txs := ixs\<rparr>) = known p"
  by (simp_all add: merge_pool_ok_def known_def)

lemma same_orders_refl [simp]: "same_orders p p"
  by (simp add: same_orders_def)

lemma same_orders_trans: "same_orders p q \<Longrightarrow> same_orders q r \<Longrightarrow> same_orders p r"
  by (auto simp: same_orders_def)

text \<open>One transaction: whatever form it was sent in, the builder ends up with its hash.\<close>

lemma insert_sent:
  assumes "merge_pool_ok b p" "K \<subseteq> known p" "tx_fits b tx"
  shows "\<exists>ix p'. insert_tx b (if keccak b tx \<in> K then fixed_bytes 32 (keccak b tx) else tx) p = (Some ix, p') \<and>
    merge_pool_ok b p' \<and> known p' = insert (keccak b tx) (known p) \<and> ix < length (po_txs p') \<and>
    tx_hash (po_txs p' ! ix) = keccak b tx \<and> same_orders p p' \<and> po_submission_txs p' = po_submission_txs p"
proof (cases "keccak b tx \<in> known p")
  case True
  then show ?thesis
    using insert_known [OF assms(1) True, of "if keccak b tx \<in> K then fixed_bytes 32 (keccak b tx) else tx"] assms
    by (auto simp: tx_fits_def insert_absorb)
next
  case False
  then obtain t fit where t: "insert_tx b tx p = (Some (length (po_txs p)),
      p\<lparr>po_txs := po_txs p @ [t], po_tx_fit := po_tx_fit p @ [fit],
        po_tx_by_hash := AList.update (keccak b tx) (length (po_txs p)) (po_tx_by_hash p)\<rparr>)"
    "tx_hash t = keccak b tx" "tx_encoded t = tx"
    using insert_new [OF assms(1) False assms(3)] by blast
  have "keccak b tx \<notin> K" using False assms(2) by blast
  then show ?thesis
    using t pool_ok_push [OF assms(1), of t fit]
    by (simp add: same_orders_def known_def update_conv')
qed

lemma insert_txs_dehydrated:
  assumes "merge_pool_ok b p" "K \<subseteq> known p" "list_all (tx_fits b) txs"
  shows "\<exists>p' ixs. insert_txs b (dehydrated (zip txs (map (keccak b) txs)) K) p = (False, False, p') \<and>
    merge_pool_ok b p' \<and> known p' = known p \<union> keccak b ` set txs \<and> same_orders p p' \<and>
    po_submission_txs p' = po_submission_txs p @ ixs \<and>
    list_all (\<lambda>ix. ix < length (po_txs p')) ixs \<and> map (\<lambda>ix. tx_hash (po_txs p' ! ix)) ixs = map (keccak b) txs"
  using assms
proof (induction txs arbitrary: p K)
  case (Cons tx txs)
  let ?sent = "if keccak b tx \<in> K then fixed_bytes 32 (keccak b tx) else tx"
  obtain ix p1 where i: "insert_tx b ?sent p = (Some ix, p1)" "merge_pool_ok b p1" "known p1 = insert (keccak b tx) (known p)"
    "ix < length (po_txs p1)" "tx_hash (po_txs p1 ! ix) = keccak b tx" "same_orders p p1"
    "po_submission_txs p1 = po_submission_txs p"
    using insert_sent [of b p K tx] Cons.prems by auto
  let ?p = "p1\<lparr>po_submission_txs := po_submission_txs p1 @ [ix]\<rparr>"
  have so: "same_orders p ?p" using i(6) by (simp add: same_orders_def)
  obtain p' ixs where r: "insert_txs b (dehydrated (zip txs (map (keccak b) txs)) (insert (keccak b tx) K)) ?p = (False, False, p')"
    "merge_pool_ok b p'" "known p' = known ?p \<union> keccak b ` set txs" "same_orders ?p p'"
    "po_submission_txs p' = po_submission_txs ?p @ ixs" "list_all (\<lambda>ix. ix < length (po_txs p')) ixs"
    "map (\<lambda>ix. tx_hash (po_txs p' ! ix)) ixs = map (keccak b) txs"
    using Cons.IH [of ?p "insert (keccak b tx) K"] Cons.prems i by auto
  obtain ts where ts: "po_txs p' = po_txs p1 @ ts" using r(4) by (auto simp: same_orders_def)
  have len: "\<not> MAX_TX_BYTES < length ?sent" using Cons.prems(3) by (simp add: tx_fits_def not_less MAX_TX_BYTES_def)
  have "insert_txs b (dehydrated (zip (tx # txs) (map (keccak b) (tx # txs))) K) p = (False, False, p')"
    using i(1) r(1) len by simp
  moreover have "list_all (\<lambda>ix. ix < length (po_txs p')) (ix # ixs)"
    "map (\<lambda>ix. tx_hash (po_txs p' ! ix)) (ix # ixs) = map (keccak b) (tx # txs)"
    using i(4,5) r(6,7) ts by (simp_all add: nth_append)
  moreover have "known p' = known p \<union> keccak b ` set (tx # txs)" using r(3) i(3) by auto
  moreover have "po_submission_txs p' = po_submission_txs p @ (ix # ixs)" using r(5) i(7) by simp
  ultimately show ?case using r(2) same_orders_trans [OF so r(4)] by blast
qed auto

section \<open>Taking in a block\<close>

lemma same_txs_refl [simp]: "same_txs p p"
  by (simp add: same_txs_def)

lemma same_txs_trans: "same_txs p q \<Longrightarrow> same_txs q r \<Longrightarrow> same_txs p r"
  by (simp add: same_txs_def)

lemma add_order_same_txs: "same_txs (fst acc) (fst (add_order b msg block submitter cap r acc))"
  by (cases acc) (simp add: add_order_def same_txs_def Let_def split: option.split)

lemma fold_add_order_same_txs: "same_txs (fst acc) (fst (fold (add_order b msg block submitter cap) rs acc))"
proof (induction rs arbitrary: acc)
  case (Cons r rs)
  then show ?case using same_txs_trans [OF add_order_same_txs Cons.IH] by simp
qed simp

lemma withdraw_one_same_txs: "same_txs (fst acc) (fst (withdraw_one submitter newest en acc))"
  by (cases acc; cases en) (simp add: withdraw_one_def same_txs_def)

lemma fold_withdraw_same_txs: "same_txs (fst acc) (fst (fold (withdraw_one submitter newest) es acc))"
proof (induction es arbitrary: acc)
  case (Cons en es)
  then show ?case using same_txs_trans [OF withdraw_one_same_txs Cons.IH] by simp
qed simp

lemma add_orders_same_txs: "same_txs p (snd (add_orders b msg block submitter cap p))"
proof -
  obtain p1 c1 f1 where 1: "fold (add_order b msg block submitter cap) (mm_merge_orders msg) (p, False, False) = (p1, c1, f1)"
    by (metis prod_cases3)
  let ?n = "length (po_latest_bundles p)"
  let ?w = "fold (withdraw_one submitter (drop ?n (po_latest_bundles p1))) (take ?n (po_latest_bundles p1)) (p1, c1)"
  obtain p2 c2 where 2: "?w = (p2, c2)" by (cases ?w)
  have "same_txs p p1" "same_txs p1 p2"
    using fold_add_order_same_txs [of "(p, False, False)" b msg block submitter cap "mm_merge_orders msg"]
      fold_withdraw_same_txs [of "(p1, c1)"] 1 2 by (simp, metis fst_conv)
  then show ?thesis using 1 2 same_txs_trans [of p p1 p2] by (simp add: add_orders_def Let_def same_txs_def)
qed

lemma find_submitter_fields:
  "find_submitter msg p = (k, q) \<Longrightarrow> po_txs q = po_txs p \<and> po_tx_fit q = po_tx_fit p \<and> po_tx_by_hash q = po_tx_by_hash p \<and>
     po_submission_txs q = po_submission_txs p \<and> po_block_hashes q = po_block_hashes p \<and> po_block_values q = po_block_values p \<and>
     length (po_submitters q) \<le> length (po_submitters p) + 1 \<and> k < length (po_submitters q)"
  using length_takeWhile_le [of _ "po_submitters p"]
  by (auto simp: find_submitter_def Let_def less_Suc_eq_le split: if_splits)

text \<open>An admitted block: its base, when it may be built upon, has the transactions of the submission.\<close>

lemma admit_block_fields:
  assumes "admit_block b msg recv_ns cap p = (added, p')"
  shows "po_txs p' = po_txs p \<and> po_tx_fit p' = po_tx_fit p \<and> po_tx_by_hash p' = po_tx_by_hash p \<and>
    po_block_hashes p' = List.insert (v3_block_hash (mm_execution_payload msg)) (po_block_hashes p) \<and>
    length (po_submitters p') \<le> length (po_submitters p) + 1 \<and>
    (ad_base added \<noteq> None \<longleftrightarrow> mm_allow_appending msg) \<and>
    (\<forall>base. ad_base added = Some base \<longrightarrow> txs_of p' (ba_txs base) = po_submission_txs p \<and>
       ba_hash base = v3_block_hash (mm_execution_payload msg))"
proof -
  obtain k p1 where 1: "find_submitter msg p = (k, p1)" by (cases "find_submitter msg p")
  define p2 where "p2 = p1\<lparr>po_block_values := po_block_values p1 @ [mm_block_value msg],
    po_block_hashes := List.insert (v3_block_hash (mm_execution_payload msg)) (po_block_hashes p1)\<rparr>"
  obtain full p3 where 3: "add_orders b msg (length (po_block_values p1)) k cap p2 = (full, p3)"
    by (cases "add_orders b msg (length (po_block_values p1)) k cap p2")
  have s: "same_txs p2 p3" using add_orders_same_txs [of p2 b msg "length (po_block_values p1)" k cap] 3 by simp
  have r: "admit_block b msg recv_ns cap p =
      (\<lparr>ad_base = (if mm_allow_appending msg then Some (base_of msg recv_ns (length (po_block_values p1)) k
           \<lparr>rg_at = length (po_tx_refs p3), rg_len = length (po_submission_txs p3)\<rparr>) else None),
        ad_orders_dropped = (if full then Some (reject LimitExceeded ''max_orders''
           (Some (v3_block_hash (mm_execution_payload msg)))) else None)\<rparr>,
       if mm_allow_appending msg then p3\<lparr>po_tx_refs := po_tx_refs p3 @ po_submission_txs p3\<rparr> else p3)"
    by (simp add: admit_block_def Let_def 1 p2_def [symmetric] 3)
  show ?thesis
    using r assms find_submitter_fields [OF 1] s
    by (cases "mm_allow_appending msg") (auto simp: same_txs_def base_of_def txs_of_def range_slice_def p2_def Let_def)
qed

text \<open>A block dehydrated against what the builder knows is taken in whole: the only reasons left to refuse it
  are a parent other than the builder's and too many orders.\<close>

lemma pool_add_dehydrated:
  assumes ok: "merge_pool_ok b p" "K \<subseteq> known p" "list_all (tx_fits b) txs" "length txs \<le> MAX_BLOCK_TXS"
    and msg: "dec_mergeable b body = Some msg" "mm_slot msg = slot"
      "v3_transactions (mm_execution_payload msg) = dehydrated (zip txs (map (keccak b) txs)) K"
      "list_all (ref_validate (length txs)) (mm_merge_orders msg)"
    and room: "v3_block_hash (mm_execution_payload msg) \<notin> set (po_block_hashes p)"
      "length (po_block_hashes p) < min max_blocks 65535"
    and add: "pool_add b body recv_ns slot parent max_blocks max_orders p = (res, p')"
  shows "merge_pool_ok b p' \<and> known p' = known p \<union> keccak b ` set txs \<and>
    set (po_block_hashes p') \<subseteq> insert (v3_block_hash (mm_execution_payload msg)) (set (po_block_hashes p)) \<and>
    (case res of
       Inl r \<Rightarrow> re_label r \<in> {''head_mismatch'', ''max_block_orders''}
     | Inr a \<Rightarrow> (ad_base a \<noteq> None \<longleftrightarrow> mm_allow_appending msg) \<and>
         (\<forall>base. ad_base a = Some base \<longrightarrow>
            map (\<lambda>ix. tx_hash (po_txs p' ! ix)) (txs_of p' (ba_txs base)) = map (keccak b) txs))"
proof -
  let ?v = "mm_execution_payload msg"
  have len: "length (dehydrated ps K) = length ps" for ps :: "(bytes \<times> B256) list" and K
    by (induction ps K rule: dehydrated.induct) simp_all
  obtain p1 ixs where i: "insert_txs b (v3_transactions ?v) (p\<lparr>po_submission_txs := []\<rparr>) = (False, False, p1)"
    "merge_pool_ok b p1" "known p1 = known p \<union> keccak b ` set txs" "same_orders p p1"
    "po_submission_txs p1 = ixs" "map (\<lambda>ix. tx_hash (po_txs p1 ! ix)) ixs = map (keccak b) txs"
    using insert_txs_dehydrated [of b "p\<lparr>po_submission_txs := []\<rparr>" K txs] ok msg(3) by (auto simp: same_orders_def)
  have n: "length (po_submission_txs p1) = length txs" using i(5,6) by (metis length_map)
  have m: "length (v3_transactions ?v) \<le> MAX_BLOCK_TXS" using msg(3) ok(4) len by simp
  obtain a p2 where a: "admit_block b msg recv_ns max_orders p1 = (a, p2)" by (cases "admit_block b msg recv_ns max_orders p1")
  note f = admit_block_fields [OF a]
  have res: "(res, p') = (if v3_parent_hash ?v \<noteq> parent then (Inl (reject HeadMismatch ''head_mismatch'' (Some (v3_block_hash ?v))), p1)
      else if length (mm_merge_orders msg) > MAX_ORDERS_PER_BLOCK
        then (Inl (reject LimitExceeded ''max_block_orders'' (Some (v3_block_hash ?v))), p1)
      else (Inr a, p2))"
    using add msg(1,2,4) room m i(1) n a by (simp add: pool_add_def Let_def split: if_splits)
  have bh: "po_block_hashes p1 = po_block_hashes p" using i(4) by (simp add: same_orders_def)
  show ?thesis
  proof (cases "res")
    case (Inl r)
    then show ?thesis using res i bh by (auto simp: reject_def split: if_splits)
  next
    case (Inr a')
    then have "p' = p2" "a' = a" using res by (auto split: if_splits)
    then show ?thesis
      using f i bh Inr by (auto simp: merge_pool_ok_def known_def)
  qed
qed

section \<open>Bounds\<close>

lemma insert_tx_same: "same_orders p (snd (insert_tx b bs p))"
  by (simp add: insert_tx_def same_orders_def Let_def split: option.split)

lemma insert_txs_same: "insert_txs b txs p = (o1, f1, p') \<Longrightarrow> same_orders p p'"
proof (induction txs arbitrary: p o1 f1)
  case (Cons bs txs)
  obtain r p1 where 1: "insert_tx b bs p = (r, p1)" by (cases "insert_tx b bs p")
  have s: "same_orders p p1" using insert_tx_same [of p b bs] 1 by simp
  have t: "same_orders p1 (p1\<lparr>po_submission_txs := ixs\<rparr>)" for ixs by (simp add: same_orders_def)
  show ?case
  proof (cases "length bs > MAX_TX_BYTES")
    case True
    then show ?thesis using Cons.prems Cons.IH by (auto split: prod.splits)
  next
    case long: False
    show ?thesis
    proof (cases r)
      case None
      then show ?thesis using Cons.prems 1 long same_orders_trans [OF s Cons.IH] by (auto split: prod.splits)
    next
      case (Some ix)
      then have "insert_txs b txs (p1\<lparr>po_submission_txs := po_submission_txs p1 @ [ix]\<rparr>) = (o1, f1, p')"
        using Cons.prems 1 long by simp
      then show ?thesis using Cons.IH same_orders_trans [OF s same_orders_trans [OF t]] by blast
    qed
  qed
qed simp

lemma pool_add_outcomes:
  assumes "pool_add b body recv_ns slot parent max_blocks max_orders p = (res, p')"
  shows "same_orders p p' \<or>
    (\<exists>msg p1. p' = snd (admit_block b msg recv_ns max_orders p1) \<and> same_orders p p1 \<and>
       v3_block_hash (mm_execution_payload msg) \<notin> set (po_block_hashes p) \<and> length (po_block_hashes p) < 65535)"
proof (cases "dec_mergeable b body")
  case None
  then show ?thesis using assms by (simp add: pool_add_def)
next
  case (Some msg)
  let ?q = "p\<lparr>po_submission_txs := []\<rparr>"
  obtain o1 f1 p1 where 1: "insert_txs b (v3_transactions (mm_execution_payload msg)) ?q = (o1, f1, p1)"
    by (metis prod_cases3)
  have s: "same_orders p p1" using insert_txs_same [OF 1] by (simp add: same_orders_def)
  have "p' = p \<or> p' = p1 \<or> p' = snd (admit_block b msg recv_ns max_orders p1) \<and>
      v3_block_hash (mm_execution_payload msg) \<notin> set (po_block_hashes p) \<and> length (po_block_hashes p) < 65535"
    using assms Some 1 by (auto simp: pool_add_def Let_def split: if_splits prod.splits)
  then show ?thesis using s by auto
qed

lemma pool_add_submitters_fit:
  assumes "submitters_fit p" "pool_add b body recv_ns slot parent max_blocks max_orders p = (res, p')"
  shows "submitters_fit p'"
  using pool_add_outcomes [OF assms(2)]
proof (elim disjE exE conjE)
  assume "same_orders p p'"
  then show ?thesis using assms(1) by (simp add: submitters_fit_def same_orders_def)
next
  fix msg p1
  assume m: "p' = snd (admit_block b msg recv_ns max_orders p1)" "same_orders p p1"
    "v3_block_hash (mm_execution_payload msg) \<notin> set (po_block_hashes p)" "length (po_block_hashes p) < 65535"
  then show ?thesis
    using admit_block_fields [of b msg recv_ns max_orders p1 "fst (admit_block b msg recv_ns max_orders p1)" p'] assms(1)
    by (simp add: submitters_fit_def same_orders_def List.insert_def)
qed

section \<open>Whom an order is credited to\<close>

lemma entry_ok_other:
  "announcement_ok os ids vals anns oid ix \<Longrightarrow> oid' \<noteq> oid \<Longrightarrow> announcement_ok os ids vals (anns @ [(oid', v, s)]) oid ix"
  by (auto simp: announcement_ok_def)

lemma credit_full:
  "credit cap m os ids vals anns \<Longrightarrow> map_of m oid = None \<Longrightarrow> cap \<le> length os \<Longrightarrow> credit cap m os ids vals (anns @ [(oid, v, s)])"
  unfolding credit_def by (metis entry_ok_other option.distinct(1))

lemma credit_new:
  assumes "credit cap m os ids vals anns" "map_of m oid = None" "length os < cap" "block < length vals" "vals ! block = v"
    and "od_best_block od = block" "od_submitter od = s"
  shows "credit cap (AList.update oid (length os) m) (os @ [od]) (ids @ [oid]) vals (anns @ [(oid, v, s)])"
proof -
  have pooled: "\<exists>y. map_of m k = Some y" if "(k, v', s') \<in> set anns" for k v' s'
    using assms(1,3) that unfolding credit_def by (meson not_None_eq not_le)
  have fresh: "(oid, v', s') \<notin> set anns" for v' s' using pooled assms(2) by fastforce
  have old: "announcement_ok (os @ [od]) (ids @ [oid]) vals (anns @ [(oid, v, s)]) k ix" if "map_of m k = Some ix" "k \<noteq> oid" for k ix
  proof -
    have "announcement_ok os ids vals anns k ix" "length ids = length os" using assms(1) that by (simp_all add: credit_def)
    then show ?thesis using that(2) by (auto simp: announcement_ok_def nth_append)
  qed
  have new: "announcement_ok (os @ [od]) (ids @ [oid]) vals (anns @ [(oid, v, s)]) oid (length os)"
    using assms fresh by (auto simp: announcement_ok_def nth_append credit_def)
  show ?thesis
    using assms(1) old new unfolding credit_def by (auto simp: update_conv' split: if_splits dest!: pooled)
qed

lemma credit_keep:
  assumes "credit cap m os ids vals anns" "map_of m oid = Some ix" "v \<le> vals ! od_best_block (os ! ix)"
  shows "credit cap m os ids vals (anns @ [(oid, v, s)])"
proof -
  have "announcement_ok os ids vals (anns @ [(oid, v, s)]) k jx" if "map_of m k = Some jx" for k jx
  proof -
    have "announcement_ok os ids vals anns k jx" using assms(1) that by (simp add: credit_def)
    then show ?thesis using assms(2,3) that by (cases "k = oid") (auto simp: announcement_ok_def)
  qed
  then show ?thesis using assms(1,2) unfolding credit_def by auto
qed

lemma credit_take_over:
  assumes "credit cap m os ids vals anns" "map_of m oid = Some ix" "v > vals ! od_best_block (os ! ix)"
    and "block < length vals" "vals ! block = v"
  shows "credit cap m (os[ix := take_over block s liberties (os ! ix)]) ids vals (anns @ [(oid, v, s)])"
proof -
  let ?os = "os[ix := take_over block s liberties (os ! ix)]"
  have e: "announcement_ok os ids vals anns oid ix" using assms(1,2) by (simp add: credit_def)
  have "announcement_ok ?os ids vals (anns @ [(oid, v, s)]) k jx" if "map_of m k = Some jx" for k jx
  proof -
    have k: "announcement_ok os ids vals anns k jx" using assms(1) that by (simp add: credit_def)
    show ?thesis
    proof (cases "k = oid")
      case True
      then have "jx = ix" using that assms(2) by simp
      moreover have "v' \<le> v" if "(oid, v', s') \<in> set anns" for v' s'
        using that e assms(3) by (fastforce simp: announcement_ok_def)
      ultimately show ?thesis using e assms(4,5) True by (auto simp: announcement_ok_def take_over_def)
    next
      case False
      then have "jx \<noteq> ix" using k e by (auto simp: announcement_ok_def)
      then show ?thesis using entry_ok_other [OF k, of oid v s] False by (auto simp: announcement_ok_def)
    qed
  qed
  then show ?thesis using assms(1,2) unfolding credit_def by auto
qed

lemma credited_add_order:
  assumes "credited cap p anns" "block < length (po_block_values p)" "po_block_values p ! block = mm_block_value msg"
  shows "credited cap (fst (add_order b msg block submitter cap r (p, ch, full))) (anns @ [announce b p msg submitter r])"
proof (cases "map_of (po_order_by_id p) (order_id (keccak b) (ref_hash b p r) (mm_builder_pubkey msg))")
  case None
  then show ?thesis
    using assms credit_full [of cap _ _ _ _ anns] credit_new [of cap _ _ _ _ anns]
    by (auto simp: add_order_def Let_def credited_def announce_def)
next
  case (Some ix)
  then show ?thesis
    using assms credit_keep [OF assms(1) [unfolded credited_def] Some, of "mm_block_value msg"]
      credit_take_over [OF assms(1) [unfolded credited_def] Some, of "mm_block_value msg" block]
    by (auto simp: add_order_def Let_def credited_def announce_def)
qed

text \<open>The identities of a block's orders do not change while its orders are taken in.\<close>

lemma announce_same_txs: "same_txs p q \<Longrightarrow> announce b q msg submitter r = announce b p msg submitter r"
  unfolding announce_def ref_hash_def submitted_hash_def [abs_def] by (cases r) (simp_all add: same_txs_def)

lemma credited_fold:
  assumes "credited cap (fst acc) anns" "block < length (po_block_values (fst acc))"
    "po_block_values (fst acc) ! block = mm_block_value msg"
  shows "credited cap (fst (fold (add_order b msg block submitter cap) rs acc))
    (anns @ map (announce b (fst acc) msg submitter) rs)"
  using assms
proof (induction rs arbitrary: acc anns)
  case (Cons r rs)
  obtain p ch full where acc: "acc = (p, ch, full)" by (cases acc)
  let ?acc = "add_order b msg block submitter cap r acc"
  have s: "same_txs p (fst ?acc)" using add_order_same_txs [of acc b msg block submitter cap r] acc by simp
  have "credited cap (fst ?acc) (anns @ [announce b p msg submitter r])"
    using credited_add_order Cons.prems acc by simp
  then have "credited cap (fst (fold (add_order b msg block submitter cap) rs ?acc))
      ((anns @ [announce b p msg submitter r]) @ map (announce b (fst ?acc) msg submitter) rs)"
    using Cons.IH [of ?acc "anns @ [announce b p msg submitter r]"] Cons.prems(2,3) s acc by (simp add: same_txs_def)
  moreover have "announce b (fst ?acc) msg submitter = announce b p msg submitter"
    using announce_same_txs [OF s] by (intro ext)
  ultimately show ?case using acc by simp
qed simp

lemma entry_withdraw:
  "announcement_ok os ids vals anns oid jx \<Longrightarrow> announcement_ok (os[ix := withdraw (os ! ix)]) ids vals anns oid jx"
  by (cases "jx = ix") (auto simp: announcement_ok_def withdraw_def)

lemma credit_withdraw:
  "credit cap m os ids vals anns \<Longrightarrow> credit cap m (os[ix := withdraw (os ! ix)]) ids vals anns"
  using entry_withdraw unfolding credit_def by simp

lemma credited_withdraw: "credited cap (fst acc) anns \<Longrightarrow> credited cap (fst (fold (withdraw_one submitter newest) es acc)) anns"
proof (induction es arbitrary: acc)
  case (Cons en es)
  have "credited cap (fst (withdraw_one submitter newest en acc)) anns"
    using Cons.prems credit_withdraw by (cases acc; cases en) (simp add: withdraw_one_def credited_def)
  then show ?case using Cons.IH by simp
qed simp

lemma credited_add_orders:
  assumes "credited cap p anns" "block < length (po_block_values p)" "po_block_values p ! block = mm_block_value msg"
  shows "credited cap (snd (add_orders b msg block submitter cap p)) (anns @ map (announce b p msg submitter) (mm_merge_orders msg))"
proof -
  obtain p1 c1 f1 where 1: "fold (add_order b msg block submitter cap) (mm_merge_orders msg) (p, False, False) = (p1, c1, f1)"
    by (metis prod_cases3)
  let ?n = "length (po_latest_bundles p)"
  let ?w = "fold (withdraw_one submitter (drop ?n (po_latest_bundles p1))) (take ?n (po_latest_bundles p1)) (p1, c1)"
  obtain p2 c2 where 2: "?w = (p2, c2)" by (cases ?w)
  have "credited cap p1 (anns @ map (announce b p msg submitter) (mm_merge_orders msg))"
    using credited_fold [of cap "(p, False, False)" anns block msg b submitter "mm_merge_orders msg"] assms 1 by simp
  then have "credited cap p2 (anns @ map (announce b p msg submitter) (mm_merge_orders msg))"
    using credited_withdraw [of cap "(p1, c1)"] 2 by (metis fst_conv)
  then show ?thesis using 1 2 by (simp add: add_orders_def Let_def credited_def)
qed

lemma credited_same_orders: "same_orders p q \<Longrightarrow> credited cap q anns = credited cap p anns"
  by (simp add: credited_def same_orders_def)

lemma entry_more_values: "announcement_ok os ids vals anns oid ix \<Longrightarrow> announcement_ok os ids (vals @ [v]) anns oid ix"
  by (auto simp: announcement_ok_def nth_append)

lemma credit_more_values:
  "credit cap m os ids vals anns \<Longrightarrow> credit cap m os ids (vals @ [v]) anns"
  using entry_more_values unfolding credit_def by simp

lemma announce_fields:
  "po_txs q = po_txs p \<Longrightarrow> po_submission_txs q = po_submission_txs p \<Longrightarrow> announce b q msg submitter r = announce b p msg submitter r"
  unfolding announce_def ref_hash_def submitted_hash_def [abs_def] by (cases r) simp_all

lemma credited_admit:
  assumes "credited cap p anns" "admit_block b msg recv_ns cap p = (added, p')"
  shows "credited cap p' (anns @ map (announce b p msg (fst (find_submitter msg p))) (mm_merge_orders msg))"
proof -
  obtain k p1 where 1: "find_submitter msg p = (k, p1)" by (cases "find_submitter msg p")
  define p2 where "p2 = p1\<lparr>po_block_values := po_block_values p1 @ [mm_block_value msg],
    po_block_hashes := List.insert (v3_block_hash (mm_execution_payload msg)) (po_block_hashes p1)\<rparr>"
  obtain full p3 where 3: "add_orders b msg (length (po_block_values p1)) k cap p2 = (full, p3)"
    by (cases "add_orders b msg (length (po_block_values p1)) k cap p2")
  have f: "po_orders p1 = po_orders p" "po_order_ids p1 = po_order_ids p" "po_order_by_id p1 = po_order_by_id p"
    "po_block_values p1 = po_block_values p" "po_txs p1 = po_txs p" "po_submission_txs p1 = po_submission_txs p"
    using 1 by (auto simp: find_submitter_def Let_def split: if_splits)
  have "credited cap p2 anns"
    using assms(1) f credit_more_values by (simp add: credited_def p2_def)
  then have "credited cap p3 (anns @ map (announce b p2 msg k) (mm_merge_orders msg))"
    using credited_add_orders [of cap p2 anns "length (po_block_values p1)" msg b k] 3 by (simp add: p2_def)
  moreover have "announce b p2 msg k = announce b p msg k"
    using announce_fields [of p2 p] f by (intro ext) (simp add: p2_def)
  ultimately show ?thesis
    using assms(2) by (auto simp: admit_block_def Let_def 1 p2_def [symmetric] 3 credited_def)
qed

lemma credited_step:
  assumes "credited max_orders (fst acc) (snd acc)"
  shows "credited max_orders (fst (merge_pool_step b slot parent max_blocks max_orders input acc))
    (snd (merge_pool_step b slot parent max_blocks max_orders input acc))"
proof -
  obtain body recv_ns p anns where i: "input = (body, recv_ns)" "acc = (p, anns)" by (cases input; cases acc)
  show ?thesis
  proof (cases "dec_mergeable b body")
    case None
    then show ?thesis using assms i by (simp add: merge_pool_step_def pool_add_def)
  next
    case (Some msg)
    let ?q = "p\<lparr>po_submission_txs := []\<rparr>"
    obtain o1 f1 p1 where 1: "insert_txs b (v3_transactions (mm_execution_payload msg)) ?q = (o1, f1, p1)"
      by (metis prod_cases3)
    have "same_orders p p1" using insert_txs_same [OF 1] by (simp add: same_orders_def)
    then have c1: "credited max_orders p1 anns" using assms i credited_same_orders by simp
    obtain a p2 where 2: "admit_block b msg recv_ns max_orders p1 = (a, p2)" by (cases "admit_block b msg recv_ns max_orders p1")
    show ?thesis
      using credited_admit [OF c1 2] c1 assms i Some 1 2
      by (simp add: merge_pool_step_def pool_add_def Let_def split: if_splits)
  qed
qed


text \<open>A bundle of the newest submission only, once withdrawn, stays withdrawn even when the submitter's next
  block announces it again.\<close>

lemma withdrawn_stays:
  assumes "map_of (po_order_by_id p) (order_id (keccak b) (ref_hash b p r) (mm_builder_pubkey msg)) = Some ix"
    "ix < length (po_orders p)" "od_withdrawn (po_orders p ! ix)"
  shows "od_withdrawn (po_orders (fst (add_order b msg block submitter cap r (p, ch, full))) ! ix)"
  using assms by (simp add: add_order_def Let_def take_over_def)

end
