(* ===== verification/Merging_Protocol.thy ===== *)
theory Merging_Protocol
  imports Merging_Tile Merge_Pool
begin

text \<open>
  The two ends of block merging together: what the relay's tile sends (\<open>Merging_Tile\<close>) and what the merge
  builder's pool makes of it (\<open>Merge_Pool\<close>).  The relay sends a transaction whole once per connection and slot
  and as its hash afterwards; the builder resolves the hashes.
\<close>

section \<open>The messages between them\<close>

text \<open>The tile's environment is the builder's without what only the builder uses.\<close>

abbreviation wire :: "builder_env \<Rightarrow> merge_env" where
  "wire b \<equiv> merge_env.truncate b"

definition mergeables :: "TileOut list \<Rightarrow> MergeableBlockV1 list" where
  "mergeables outs = List.map_filter (\<lambda>out. case out of SendTo _ (MsgMergeable m) \<Rightarrow> Some m | _ \<Rightarrow> None) outs"

text \<open>The identities of a message's transactions.\<close>

definition tx_ids :: "builder_env \<Rightarrow> MergeableBlockV1 \<Rightarrow> B256 list" where
  "tx_ids b m = map (\<lambda>bs. if is_tx_hash_ref bs then fixed_from bs else keccak b bs) (v3_transactions (mm_execution_payload m))"

text \<open>The builder takes in the messages in the order they were sent: its answers, with the pool after each.\<close>

fun deliver ::
  "builder_env \<Rightarrow> u64 \<Rightarrow> B256 \<Rightarrow> nat \<Rightarrow> nat \<Rightarrow> u64 \<Rightarrow> MergeableBlockV1 list \<Rightarrow> Pool \<Rightarrow> ((Reject, Added) Result \<times> Pool) list" where
  "deliver b slot parent max_blocks max_orders recv_ns [] p = []"
| "deliver b slot parent max_blocks max_orders recv_ns (m # ms) p =
     (let (res, p1) = pool_add b (enc_mergeable b m) recv_ns slot parent max_blocks max_orders p
      in (res, p1) # deliver b slot parent max_blocks max_orders recv_ns ms p1)"

text \<open>The relay forwards submissions as they come.\<close>

definition forward_all :: "externals \<Rightarrow> builder_env \<Rightarrow> tile_input \<Rightarrow> nat list \<Rightarrow> unit tile_act" where
  "forward_all x b inp ixs = each (\<lambda>ix. forward_decoded x (wire b) inp ix None) ixs"

section \<open>Transactions of a submission\<close>

definition own_txs :: "Submission \<Rightarrow> Transaction list" where
  "own_txs sub = (case sub of
     Full (SignedFulu f) \<Rightarrow> ep_transactions (sf_execution_payload f)
   | Full (SignedGloas _) \<Rightarrow> []
   | Dehydrated d \<Rightarrow> ep_transactions (ds_execution_payload d))"

definition cached_fit :: "builder_env \<Rightarrow> HydrationCache \<Rightarrow> bool" where
  "cached_fit b h \<longleftrightarrow> (\<forall>k r tx. map_of (hc_transactions (cache_for h k)) r = Some tx \<longrightarrow> tx_fits b tx)"

text \<open>What forwarding leaves alone.\<close>

definition kept :: "BlockMergingTile \<Rightarrow> BlockMergingTile \<Rightarrow> bool" where
  "kept t t' \<longleftrightarrow> tl_token t' = tl_token t \<and> cn_active (tl_conn t') = cn_active (tl_conn t) \<and>
     so_bid_slot (tl_slot t') = so_bid_slot (tl_slot t)"

definition tile_ok :: "builder_env \<Rightarrow> BlockMergingTile \<Rightarrow> bool" where
  "tile_ok b t \<longleftrightarrow> memo_ok (wire b) (tl_tx_hash_cache t) \<and> cached_fit b (tl_hydration_cache t)"

definition skips :: "BlockMergingTile \<Rightarrow> nat" where
  "skips t = ts_skipped_over_limits (tl_stats t)"

text \<open>A message dehydrated against what has been sent.\<close>

definition dehydrates :: "builder_env \<Rightarrow> B256 set \<Rightarrow> u64 \<Rightarrow> Transaction list \<Rightarrow> MergeableBlockV1 \<Rightarrow> bool" where
  "dehydrates b K slot txs m \<longleftrightarrow>
     v3_transactions (mm_execution_payload m) = dehydrated (zip txs (map (keccak b) txs)) K \<and>
     list_all (ref_validate (length txs)) (mm_merge_orders m) \<and> mm_slot m = slot"

definition forwards_one :: "builder_env \<Rightarrow> BlockMergingTile \<Rightarrow> BlockMergingTile \<Rightarrow> MergeableBlockV1 list \<Rightarrow> bool" where
  "forwards_one b t t' ms \<longleftrightarrow> kept t t' \<and> tile_ok b t' \<and> skips t \<le> skips t' \<and>
     (skips t' = skips t \<longrightarrow>
        ms = [] \<and> cn_sent_txs (tl_conn t') = cn_sent_txs (tl_conn t) \<or>
        (\<exists>txs m. ms = [m] \<and> list_all (tx_fits b) txs \<and>
           dehydrates b (set (cn_sent_txs (tl_conn t))) (so_bid_slot (tl_slot t)) txs m \<and>
           set (cn_sent_txs (tl_conn t')) = set (cn_sent_txs (tl_conn t)) \<union> keccak b ` set txs))"

text \<open>The builder knows what the relay thinks it knows, or takes no more blocks; and it knows the transactions
  of the blocks it has.\<close>

definition in_sync :: "builder_env \<Rightarrow> nat \<Rightarrow> (B256 \<Rightarrow> B256 list) \<Rightarrow> BlockMergingTile \<Rightarrow> Pool \<Rightarrow> bool" where
  "in_sync b max_blocks content t p \<longleftrightarrow> merge_pool_ok b p \<and>
     (\<forall>h \<in> set (po_block_hashes p). set (content h) \<subseteq> known p) \<and>
     (min max_blocks 65535 \<le> length (po_block_hashes p) \<or> set (cn_sent_txs (tl_conn t)) \<subseteq> known p)"

text \<open>How the builder answers a block: the only reasons to refuse it are its parent, the number of its orders
  and the number of blocks of the slot, and a base block has the transactions of the submission.\<close>

definition answered :: "builder_env \<Rightarrow> Pool \<Rightarrow> MergeableBlockV1 \<Rightarrow> (Reject, Added) Result \<Rightarrow> bool" where
  "answered b p m res = (case res of
     Inl r \<Rightarrow> re_label r \<in> {''head_mismatch'', ''max_block_orders'', ''max_blocks''}
   | Inr a \<Rightarrow> (\<forall>base. ad_base a = Some base \<longrightarrow>
       map (\<lambda>ix. tx_hash (po_txs p ! ix)) (txs_of p (ba_txs base)) = tx_ids b m))"

definition fitting :: "builder_env \<Rightarrow> tile_input \<Rightarrow> nat list \<Rightarrow> bool" where
  "fitting b inp ixs \<longleftrightarrow> list_all (\<lambda>ix. case ti_decoded inp ix of None \<Rightarrow> True
     | Some sub \<Rightarrow> list_all (tx_fits b) (own_txs (sd_submission sub))) ixs"

text \<open>The messages are no larger than the builder takes, their encoding can be read back, and a block hash
  stands for one list of transactions.\<close>

definition well_sent :: "builder_env \<Rightarrow> (B256 \<Rightarrow> B256 list) \<Rightarrow> MergeableBlockV1 list \<Rightarrow> bool" where
  "well_sent b content ms \<longleftrightarrow> list_all (\<lambda>m. length (v3_transactions (mm_execution_payload m)) \<le> MAX_BLOCK_TXS \<and>
     content (v3_block_hash (mm_execution_payload m)) = tx_ids b m \<and> dec_mergeable b (enc_mergeable b m) = Some m) ms"

text \<open>Two submissions for one slot: the second has the transaction of the first and one more.\<close>

definition sample_fulu :: "B256 \<Rightarrow> Transaction list \<Rightarrow> SignedBidSubmissionFulu" where
  "sample_fulu h txs = \<lparr>sf_message = sample_trace\<lparr>bt_block_hash := h\<rparr>,
     sf_execution_payload = (ds_execution_payload (sample_dehydrated [] txs))\<lparr>ep_block_hash := h\<rparr>, sf_blobs_bundle = empty_bundle,
     sf_execution_requests = ds_execution_requests (sample_dehydrated [] txs), sf_signature = 0\<rparr>"

definition sample_sub :: "B256 \<Rightarrow> Transaction list \<Rightarrow> SubmissionData" where
  "sample_sub h txs = \<lparr>sd_submission_id = 1, sd_submission_ref = SubmissionRef_http 1, sd_submission = Full (SignedFulu (sample_fulu h txs)),
     sd_merging_data = Some \<lparr>m2_allow_appending = True, m2_builder_address = 7, m2_orders = [], m2_tx_codes = []\<rparr>,
     sd_bid_adjustment_data = None,
     sd_version = \<lparr>on_receive_ns = 1, sequence = None\<rparr>, sd_withdrawals_root = Some 11,
     sd_trace = \<lparr>st_receive_ns = 1, st_read_body_ns = 2, st_decoded_ns = 3, st_metadata = []\<rparr>,
     sd_decoder_params = \<lparr>dp_compression = NoCompression, dp_encoding = Ssz, dp_merge_type = Mergeable, dp_is_dehydrated = False,
       dp_dehydrated_v2 = False, dp_merging_v2 = True, dp_with_mergeable_data = True, dp_with_adjustments = False,
       dp_mark_all_txs_mergeable = False, dp_fork_name = Fulu\<rparr>, sd_is_pessimistic = False\<rparr>"

definition sample_slot_input :: tile_input where
  "sample_slot_input = sample_input\<lparr>ti_decoded := (\<lambda>i. if i = 0 then Some (sample_sub 100 [[1]]) else
     if i = 1 then Some (sample_sub 101 [[1], [2]]) else None)\<rparr>"

definition sample_message :: "B256 \<Rightarrow> bytes list \<Rightarrow> MergeableBlockV1" where
  "sample_message h txs = \<lparr>mm_slot = 7, mm_builder_pubkey = 1, mm_block_value = 10, mm_builder_address = 7,
     mm_proposer_fee_recipient = 3, mm_parent_beacon_block_root = 0, mm_allow_appending = True, mm_merge_orders = [],
     mm_execution_payload = (sample_v3 txs)\<lparr>v3_prev_randao := 8, v3_block_hash := h\<rparr>\<rparr>"

text \<open>An encoding that tells the messages of the example apart.\<close>

definition sample_builder_env :: builder_env where
  "sample_builder_env = \<lparr>keccak = (\<lambda>bs. of_nat (nat_of_le bs)), tx_blob_hashes = (\<lambda>tx. Some []),
     versioned_hash = (\<lambda>c. ucast c),
     enc_mergeable = (\<lambda>m. map (\<lambda>tx. of_nat (length tx)) (v3_transactions (mm_execution_payload m))),
     dec_ack = (\<lambda>b. None), dec_ping = (\<lambda>b. None),
     dec_pong = (\<lambda>b. None), dec_merged = (\<lambda>b. None), dec_reject = (\<lambda>b. None), dec_fatal = (\<lambda>b. None),
     max_deposit_requests = 8192, max_withdrawal_requests = 16, max_consolidation_requests = 2,
     parse_uuid = (\<lambda>s. None), first_entry = hd,
     dec_mergeable = (\<lambda>b. Some (if b = [1] then sample_message 100 [[1]] else
       if b = [32] then sample_message 100 [fixed_bytes 32 (1 :: B256)] else sample_message 101 [fixed_bytes 32 (1 :: B256), [2]])),
     decode_canonical = (\<lambda>b. Some \<lparr>tb_gas_limit = 21, tb_blob_hashes = []\<rparr>), recover_sender = (\<lambda>b. Some 4)\<rparr>"

definition sample_connected :: "bool \<Rightarrow> BlockMergingTile" where
  "sample_connected active = sample_tile
     \<lparr>tl_conn := Conn_default\<lparr>cn_active := active, cn_max_orders_per_slot := 8, cn_max_frame_bytes := 1000\<rparr>,
      tl_slot := SlotState_default\<lparr>so_bid_slot := 7, so_slot_start := Some
        \<lparr>ss_slot = 7, ss_parent_hash = 5, ss_proposer_fee_recipient = 3, ss_parent_beacon_block_root = 0, ss_apply_blacklist = False\<rparr>\<rparr>\<rparr>"

lemma wire_simps [simp]:
  "keccak (wire b) = keccak b" "enc_mergeable (wire b) = enc_mergeable b" "versioned_hash (wire b) = versioned_hash b"
  by (simp_all add: merge_env.defs)

lemma hydrate_txs_all:
  assumes "\<And>r tx. map_of txs r = Some tx \<Longrightarrow> P tx" "list_all P full" "hydrate_txs x i refs full txs = (ts, hits, err, txs')"
  shows "list_all P ts \<and> (\<forall>r tx. map_of txs' r = Some tx \<longrightarrow> P tx)"
  using assms
proof (induction refs arbitrary: i full txs ts hits err txs')
  case Nil
  then show ?case by auto
next
  case (Cons r refs)
  have step: "list_all P us \<and> (\<forall>r tx. map_of m' r = Some tx \<longrightarrow> P tx)"
    if "hydrate_txs x (Suc i) refs f m = (us, h, er, m')" "list_all P f" "\<And>r tx. map_of m r = Some tx \<Longrightarrow> P tx" for f m us h er m'
    using Cons.IH [OF that(3) that(2) that(1)] .
  show ?case
  proof (cases "r = NEXT_FULL_ITEM")
    case True
    show ?thesis
    proof (cases full)
      case Nil
      obtain us h er m' where u: "hydrate_txs x (Suc i) refs [] txs = (us, h, er, m')" by (metis prod_cases4)
      then show ?thesis using step [OF u _ Cons.prems(1)] Cons.prems(3) True Nil by simp
    next
      case (Cons tx rest)
      let ?m = "if length tx < TX_KEY_SIZE then txs else AList.update (tx_cache_key x tx) tx txs"
      obtain us h er m' where u: "hydrate_txs x (Suc i) refs rest ?m = (us, h, er, m')" by (metis prod_cases4)
      have full: "P tx" "list_all P rest" using Cons.prems(2) Cons by simp_all
      have "P t" if "map_of ?m q = Some t" for q t
        using that Cons.prems(1) full(1) by (auto simp: update_conv' split: if_splits)
      then show ?thesis using step [OF u full(2)] Cons.prems(3) True Cons full(1) u by (cases "length tx < TX_KEY_SIZE") auto
    qed
  next
    case False
    obtain us h er m' where u: "hydrate_txs x (Suc i) refs full txs = (us, h, er, m')" by (metis prod_cases4)
    then show ?thesis
      using step [OF u Cons.prems(2,1)] Cons.prems(1,3) False by (cases "map_of txs r") auto
  qed
qed

lemma hydrate_inner_txs:
  assumes "hydrate_inner x n d c = Some (res, c')"
  shows "\<exists>ts hits err. hydrate_txs x 0 (ds_tx_refs d) (ep_transactions (ds_execution_payload d)) (hc_transactions c) =
      (ts, hits, err, hc_transactions c') \<and>
    (\<forall>h. res = Inr h \<longrightarrow> ep_transactions (sf_execution_payload (hd_submission h)) = ts \<and>
       ep_block_hash (sf_execution_payload (hd_submission h)) = ep_block_hash (ds_execution_payload d) \<and>
       sf_message (hd_submission h) = ds_message d)"
proof -
  obtain w e1 ws where w: "hydrate_withdrawals x d (hc_withdrawals c) = (w, e1, ws)" by (metis prod_cases3)
  obtain ts hits e2 txs where t: "hydrate_txs x 0 (ds_tx_refs d) (ep_transactions (ds_execution_payload d)) (hc_transactions c) =
      (ts, hits, e2, txs)" by (metis prod_cases4)
  obtain ks e3 bs where k: "cache_new_items x 0 (db_new_items (ds_blobs_bundle d)) (hc_blobs_fulu c) = (ks, e3, bs)"
    by (metis prod_cases3)
  show ?thesis
    using assms by (auto simp: hydrate_inner_def Let_def w t k split: if_splits option.splits sum.splits)
qed

lemma hydrate_fit:
  assumes "cached_fit b h" "list_all (tx_fits b) (ep_transactions (ds_execution_payload d))" "hydrate x n d h = Some (res, h')"
  shows "cached_fit b h' \<and> (\<forall>hd. res = Inr hd \<longrightarrow> list_all (tx_fits b) (ep_transactions (sf_execution_payload (hd_submission hd))) \<and>
    sf_message (hd_submission hd) = ds_message d)"
proof -
  let ?k = "bt_builder_pubkey (ds_message d)"
  obtain c' where c: "hydrate_inner x n d (cache_for h ?k) = Some (res, c')" "h' = AList.update ?k c' h"
    using assms(3) by (auto simp: hydrate_def Let_def)
  obtain ts hits err where t: "hydrate_txs x 0 (ds_tx_refs d) (ep_transactions (ds_execution_payload d)) (hc_transactions (cache_for h ?k)) =
      (ts, hits, err, hc_transactions c')"
    "\<forall>hd. res = Inr hd \<longrightarrow> ep_transactions (sf_execution_payload (hd_submission hd)) = ts \<and> sf_message (hd_submission hd) = ds_message d"
    using hydrate_inner_txs [OF c(1)] by blast
  have "list_all (tx_fits b) ts \<and> (\<forall>r tx. map_of (hc_transactions c') r = Some tx \<longrightarrow> tx_fits b tx)"
    using assms(1) by (intro hydrate_txs_all [OF _ assms(2) t(1)]) (auto simp: cached_fit_def)
  then show ?thesis using assms(1) c(2) t(2) by (auto simp: cached_fit_def cache_for_update split: if_splits)
qed

lemma feed_txs_all:
  "(\<And>r tx. map_of m r = Some tx \<Longrightarrow> P tx) \<Longrightarrow> list_all P txs \<Longrightarrow>
   map_of (fold (\<lambda>tx m. if length tx \<ge> TX_KEY_SIZE then AList.update (tx_cache_key x tx) tx m else m) txs m) r = Some tx \<Longrightarrow> P tx"
proof (induction txs arbitrary: m)
  case (Cons t txs)
  let ?m = "if length t \<ge> TX_KEY_SIZE then AList.update (tx_cache_key x t) t m else m"
  have "P u" if "map_of ?m q = Some u" for q u
    using that Cons.prems(1,2) by (auto simp: update_conv' split: if_splits)
  then show ?case using Cons.IH [of ?m] Cons.prems(2,3) by simp
qed simp

lemma feed_fit:
  assumes "cached_fit b h" "list_all (tx_fits b) (ep_transactions (ds_execution_payload d))"
  shows "cached_fit b (feed x d h)"
proof -
  have "tx_fits b tx" if "map_of (hc_transactions (feed_inner x d (cache_for h k))) r = Some tx" for k r tx
  proof (rule feed_txs_all [where m = "hc_transactions (cache_for h k)" and P = "tx_fits b" and r = r and x = x])
    show "list_all (tx_fits b) (ep_transactions (ds_execution_payload d))" by (rule assms(2))
  qed (use assms(1) that in \<open>auto simp: cached_fit_def feed_inner_def Let_def\<close>)
  then show ?thesis using assms(1) by (auto simp: cached_fit_def feed_def Let_def cache_for_update split: if_splits)
qed

section \<open>One submission\<close>

lemma kept_refl [simp]: "kept t t"
  by (simp add: kept_def)

lemma kept_trans: "kept t u \<Longrightarrow> kept u v \<Longrightarrow> kept t v"
  by (simp add: kept_def)

lemma hbind_hret: "hbind (hret a) f = f a"
  by (rule ext) (simp add: hbind_def hret_def split: option.split)

lemma hbind_hget: "hbind (hget g) f s = f (g s) s"
  by (simp add: hbind_def hget_def split: option.split)

lemmas handler_defs = hbind_def hget_def hset_def hret_def hsend_def hpanic_def add_stats_def

lemma feed_cache_outcome:
  assumes "feed_cache x sub t = Some (u, t', outs)" "tile_ok b t" "list_all (tx_fits b) (own_txs sub)"
  shows "kept t t' \<and> tile_ok b t' \<and> skips t' = skips t \<and> tl_conn t' = tl_conn t \<and> outs = []"
  using assms feed_fit
  by (cases sub) (auto simp: feed_cache_def handler_defs kept_def tile_ok_def skips_def own_txs_def)

lemma forward_signed_outcome:
  assumes "forward_signed x inp rp sub t = Some (fulu, t', outs)" "tile_ok b t" "list_all (tx_fits b) (own_txs sub)"
  shows "kept t t' \<and> tile_ok b t' \<and> skips t' = skips t \<and> tl_conn t' = tl_conn t \<and> tl_slot t' = tl_slot t \<and> outs = [] \<and>
    (\<forall>s. fulu = Some s \<longrightarrow> list_all (tx_fits b) (ep_transactions (sf_execution_payload s)) \<and> sf_message s = bid_trace sub)"
proof (cases sub)
  case (Full f)
  then show ?thesis
    using assms by (cases f) (auto simp: forward_signed_def handler_defs kept_def tile_ok_def skips_def own_txs_def bid_trace_def
        signed_bid_trace_def split: if_splits)
next
  case (Dehydrated d)
  obtain res h where h: "hydrate x (ti_max_blobs inp) d (tl_hydration_cache t) = Some (res, h)"
    using assms(1) Dehydrated by (auto simp: forward_signed_def handler_defs split: option.splits)
  have "cached_fit b h \<and> (\<forall>hd. res = Inr hd \<longrightarrow> list_all (tx_fits b) (ep_transactions (sf_execution_payload (hd_submission hd))) \<and>
      sf_message (hd_submission hd) = ds_message d)"
    using hydrate_fit [OF _ _ h, of b] assms(2,3) Dehydrated by (simp add: tile_ok_def own_txs_def)
  then show ?thesis
    using assms h Dehydrated
    by (cases res) (auto simp: forward_signed_def handler_defs kept_def tile_ok_def skips_def bid_trace_def split: if_splits)
qed

lemma fold_dehydrate:
  "\<exists>builders sent' n' m'. fold (dehydrate_tx pk) ps (out, bs, sent, n, m) = (out @ dehydrated ps (set sent), builders, sent', n', m') \<and>
     set sent' = set sent \<union> snd ` set ps"
proof (induction ps arbitrary: out bs sent n m)
  case (Cons p ps)
  obtain tx h where p: "p = (tx, h)" by (cases p)
  obtain out1 bs1 sent1 n1 m1 where 1: "dehydrate_tx pk p (out, bs, sent, n, m) = (out1, bs1, sent1, n1, m1)"
    by (metis prod_cases5)
  have s: "set sent1 = insert h (set sent)" "out1 = out @ [if h \<in> set sent then fixed_bytes 32 h else tx]"
    using 1 by (auto simp: dehydrate_tx_def p Let_def split: if_splits)
  then show ?case using Cons.IH [of out1 bs1 sent1 n1 m1] 1 p by auto
qed simp

lemma order_to_ref_valid: "order_to_ref o2 c n = Some (Some r) \<Longrightarrow> ref_validate n r"
  by (auto simp: order_to_ref_def Let_def simp del: ref_validate.simps split: if_splits option.splits)

lemma order_refs_valid: "order_refs codes n i os = Some (rs, d) \<Longrightarrow> list_all (ref_validate n) rs"
proof (induction os arbitrary: i rs d)
  case (Cons o2 os)
  then obtain r rs1 d1 where "order_to_ref o2 (find (\<lambda>c. unat (oc_order c) = i) codes) n = Some r"
    "order_refs codes n (Suc i) os = Some (rs1, d1)" "rs = (case r of Some y \<Rightarrow> y # rs1 | None \<Rightarrow> rs1)"
    by (auto simp: bind_eq_Some_conv split: option.splits)
  then show ?case using Cons.IH order_to_ref_valid by (cases r) auto
qed simp

lemma build_block_outcome:
  assumes "build_block x (wire b) s merging t = Some ((msg, hs), t', outs)" "tile_ok b t"
  shows "kept t t' \<and> tile_ok b t' \<and> skips t' = skips t \<and> outs = [] \<and>
    dehydrates b (set (cn_sent_txs (tl_conn t))) (bt_slot (sf_message s)) (ep_transactions (sf_execution_payload s)) msg \<and>
    set (cn_sent_txs (tl_conn t')) = set (cn_sent_txs (tl_conn t)) \<union> keccak b ` set (ep_transactions (sf_execution_payload s))"
proof -
  let ?txs = "ep_transactions (sf_execution_payload s)"
  obtain sidecars where sc: "submission_blob_sidecars x (wire b) (sf_blobs_bundle s) = Some sidecars"
    using assms(1) by (auto simp: build_block_def handler_defs split: option.splits)
  obtain refs dropped where o: "order_refs (m2_tx_codes merging) (length ?txs) 0 (m2_orders merging) = Some (refs, dropped)"
    using assms(1) sc by (auto simp: build_block_def handler_defs split: option.splits)
  obtain hs1 c1 where h: "hash_txs (wire b) ?txs (tl_tx_hash_cache t) = (hs1, c1)"
    by (cases "hash_txs (wire b) ?txs (tl_tx_hash_cache t)")
  have k: "hs1 = map (keccak b) ?txs" "memo_ok (wire b) c1"
    using hash_txs_keccak [of "wire b" "tl_tx_hash_cache t" ?txs] assms(2) h by (simp_all add: tile_ok_def)
  obtain bs sent n m where f: "fold (dehydrate_tx (bt_builder_pubkey (sf_message s))) (zip ?txs hs1)
      ([], so_tx_builders (tl_slot t), cn_sent_txs (tl_conn t), 0, 0) =
      (dehydrated (zip ?txs hs1) (set (cn_sent_txs (tl_conn t))), bs, sent, n, m)"
    "set sent = set (cn_sent_txs (tl_conn t)) \<union> snd ` set (zip ?txs hs1)"
    using fold_dehydrate [of "bt_builder_pubkey (sf_message s)" "zip ?txs hs1" "[]"] by force
  have z: "snd ` set (zip ?txs hs1) = keccak b ` set ?txs"
    using k(1) by (metis length_map list.set_map map_snd_zip)
  show ?thesis
    using assms sc o h f k z order_refs_valid [OF o]
    by (auto simp: build_block_def handler_defs Let_def payload_to_v3_def kept_def tile_ok_def skips_def dehydrates_def)
qed

lemma send_block_outcome:
  assumes "send_block (wire b) inp ix None read_ns block_hash msg hs t = Some (u, t', outs)"
    and "tl_token t = Some token" "cn_active (tl_conn t)" "tile_ok b t"
  shows "kept t t' \<and> tile_ok b t' \<and> cn_sent_txs (tl_conn t') = cn_sent_txs (tl_conn t) \<and>
    (skips t' = skips t \<and> outs = [SendTo token (MsgMergeable msg)] \<or> skips t' = skips t + 1 \<and> outs = [])"
  using assms
  by (auto simp: send_block_def handler_defs Let_def kept_def tile_ok_def skips_def split: if_splits)

lemma mergeables_simps [simp]:
  "mergeables [] = []" "mergeables (SendTo tok (MsgMergeable m) # outs) = m # mergeables outs"
  "mergeables (outs @ outs') = mergeables outs @ mergeables outs'"
  by (simp_all add: mergeables_def map_filter_def)

lemma forward_mergeable_outcome:
  assumes "forward_mergeable x (wire b) inp ix None sub merging t = Some (u, t', outs)"
    and "tl_token t = Some token" "cn_active (tl_conn t)" "tile_ok b t" "list_all (tx_fits b) (own_txs (sd_submission sub))"
    and "bt_slot (bid_trace (sd_submission sub)) = so_bid_slot (tl_slot t)"
  shows "forwards_one b t t' (mergeables outs)"
proof -
  obtain fulu t1 o1 where 1: "forward_signed x inp False (sd_submission sub) t = Some (fulu, t1, o1)"
    using assms(1) by (auto simp: forward_mergeable_def hbind_def split: option.splits)
  note s = forward_signed_outcome [OF 1 assms(4,5)]
  show ?thesis
  proof (cases fulu)
    case None
    then show ?thesis
      using assms(1) 1 s by (auto simp: forward_mergeable_def hbind_def hret_def forwards_one_def)
  next
    case (Some f)
    obtain msg hs t2 o2 where 2: "build_block x (wire b) f merging t1 = Some ((msg, hs), t2, o2)"
      using assms(1) 1 Some by (auto simp: forward_mergeable_def hbind_def split: option.splits)
    note bo = build_block_outcome [OF 2]
    obtain o3 where 3: "send_block (wire b) inp ix None (max (st_read_body_ns (sd_trace sub)) (st_receive_ns (sd_trace sub)))
        (bt_block_hash (sf_message f)) msg hs t2 = Some (u, t', o3)" "outs = o1 @ o2 @ o3"
      using assms(1) 1 2 Some by (auto simp: forward_mergeable_def hbind_def split: option.splits)
    have k: "kept t t1" "kept t1 t2" "tile_ok b t1" "tile_ok b t2" "o1 = []" "o2 = []" "skips t1 = skips t" "skips t2 = skips t1"
      "tl_conn t1 = tl_conn t"
      using s bo by auto
    have t2: "tl_token t2 = Some token" "cn_active (tl_conn t2)"
      using k assms(2,3) by (simp_all add: kept_def)
    note so = send_block_outcome [OF 3(1) t2 k(4)]
    have "kept t t'" using k(1,2) so kept_trans by blast
    moreover have "dehydrates b (set (cn_sent_txs (tl_conn t))) (so_bid_slot (tl_slot t)) (ep_transactions (sf_execution_payload f)) msg"
      using bo k s Some assms(6) by simp
    moreover have "list_all (tx_fits b) (ep_transactions (sf_execution_payload f))" using s Some by simp
    ultimately show ?thesis
      using so bo k 3(2) unfolding forwards_one_def by auto
  qed
qed

lemma forward_outcome:
  assumes "forward_decoded x (wire b) inp ix None t = Some (u, t', outs)"
    and "tl_token t = Some token" "cn_active (tl_conn t)" "tile_ok b t"
    and "\<And>sub. ti_decoded inp ix = Some sub \<Longrightarrow> list_all (tx_fits b) (own_txs (sd_submission sub))"
  shows "forwards_one b t t' (mergeables outs)"
proof (cases "ti_decoded inp ix")
  case None
  then show ?thesis
    using assms(1,4) by (auto simp: forward_decoded_def handler_defs forwards_one_def kept_def tile_ok_def skips_def split: if_splits)
next
  case (Some sub)
  let ?early = "\<not> ti_enabled inp \<or> so_slot_start (tl_slot t) = None \<or> bt_slot (bid_trace (sd_submission sub)) \<noteq> so_bid_slot (tl_slot t) \<or>
    cn_builder_ahead (tl_conn t) \<or> sd_merging_data sub = None"
  show ?thesis
  proof (cases ?early)
    case True
    have "\<exists>f. (\<forall>s. ts_skipped_over_limits (f s) = ts_skipped_over_limits s) \<and>
        (forward_decoded x (wire b) inp ix None t = add_stats f t \<or>
         forward_decoded x (wire b) inp ix None t = hseq (add_stats f) (feed_cache x (sd_submission sub)) t)"
    proof -
      note d = forward_decoded_def hbind_hret hbind_hget
      consider "\<not> ti_enabled inp" | "ti_enabled inp" "so_slot_start (tl_slot t) = None"
        | "ti_enabled inp" "so_slot_start (tl_slot t) \<noteq> None" "bt_slot (bid_trace (sd_submission sub)) \<noteq> so_bid_slot (tl_slot t)"
        | "ti_enabled inp" "so_slot_start (tl_slot t) \<noteq> None" "bt_slot (bid_trace (sd_submission sub)) = so_bid_slot (tl_slot t)"
          "cn_builder_ahead (tl_conn t)"
        | "ti_enabled inp" "so_slot_start (tl_slot t) \<noteq> None" "bt_slot (bid_trace (sd_submission sub)) = so_bid_slot (tl_slot t)"
          "\<not> cn_builder_ahead (tl_conn t)" "sd_merging_data sub = None"
        using True by metis
      then show ?thesis
      proof cases
        case 1
        show ?thesis
          by (rule exI [of _ "\<lambda>s. s\<lparr>ts_skipped_disabled := ts_skipped_disabled s + 1\<rparr>"]) (use 1 Some in \<open>auto simp: d Let_def\<close>)
      next
        case 2
        show ?thesis
          by (rule exI [of _ "\<lambda>s. s\<lparr>ts_skipped_no_slot_start := ts_skipped_no_slot_start s + 1\<rparr>"])
             (use 2 Some in \<open>auto simp: d Let_def\<close>)
      next
        case 3
        show ?thesis
          by (rule exI [of _ "\<lambda>s. s\<lparr>ts_skipped_wrong_slot := ts_skipped_wrong_slot s + 1\<rparr>"])
             (use 3 Some in \<open>auto simp: d Let_def\<close>)
      next
        case 4
        show ?thesis
          by (rule exI [of _ "\<lambda>s. s\<lparr>ts_skipped_builder_ahead := ts_skipped_builder_ahead s + 1\<rparr>"])
             (use 4 Some in \<open>auto simp: d Let_def\<close>)
      next
        case 5
        show ?thesis
          by (rule exI [of _ "\<lambda>s. s\<lparr>ts_skipped_no_merging_data := ts_skipped_no_merging_data s + 1\<rparr>"])
             (use 5 Some in \<open>auto simp: d Let_def\<close>)
      qed
    qed
    then obtain f where f: "\<forall>s. ts_skipped_over_limits (f s) = ts_skipped_over_limits s"
      "add_stats f t = Some (u, t', outs) \<or> hseq (add_stats f) (feed_cache x (sd_submission sub)) t = Some (u, t', outs)"
      using assms(1) by force
    let ?t1 = "t\<lparr>tl_stats := f (tl_stats t)\<rparr>"
    have st: "tile_ok b ?t1" "kept t ?t1" "tl_conn ?t1 = tl_conn t" "skips ?t1 = skips t"
      using assms(4) f(1) by (simp_all add: tile_ok_def kept_def skips_def)
    show ?thesis
      using f(2)
    proof
      assume "add_stats f t = Some (u, t', outs)"
      then show ?thesis using st by (simp add: handler_defs forwards_one_def)
    next
      assume "hseq (add_stats f) (feed_cache x (sd_submission sub)) t = Some (u, t', outs)"
      then have "feed_cache x (sd_submission sub) ?t1 = Some (u, t', outs)"
        by (auto simp: handler_defs split: option.splits)
      from feed_cache_outcome [OF this st(1) assms(5) [OF Some]] show ?thesis
        using st kept_trans by (auto simp: forwards_one_def)
    qed
  next
    case False
    then obtain merging where m: "sd_merging_data sub = Some merging" by blast
    have "forward_mergeable x (wire b) inp ix None sub merging t = Some (u, t', outs)"
      using assms(1) False m Some by (auto simp: forward_decoded_def handler_defs Let_def split: option.splits)
    then show ?thesis using forward_mergeable_outcome assms Some False by blast
  qed
qed

section \<open>A slot on one connection\<close>

lemma tx_ids_dehydrated:
  assumes "list_all (tx_fits b) txs"
  shows "map (\<lambda>bs. if is_tx_hash_ref bs then fixed_from bs else keccak b bs) (dehydrated (zip txs (map (keccak b) txs)) K) =
    map (keccak b) txs"
  using assms by (induction txs arbitrary: K) (simp_all add: tx_fits_def)

lemma deliver_one:
  assumes sync: "in_sync b max_blocks content t p"
    and m: "dehydrates b (set (cn_sent_txs (tl_conn t))) slot txs m" "list_all (tx_fits b) txs" "length txs \<le> MAX_BLOCK_TXS"
      "content (v3_block_hash (mm_execution_payload m)) = tx_ids b m" "dec_mergeable b (enc_mergeable b m) = Some m"
    and sent: "set (cn_sent_txs (tl_conn t')) = set (cn_sent_txs (tl_conn t)) \<union> keccak b ` set txs"
    and add: "pool_add b (enc_mergeable b m) recv_ns slot parent max_blocks max_orders p = (res, p')"
  shows "in_sync b max_blocks content t' p' \<and> answered b p' m res"
proof -
  let ?h = "v3_block_hash (mm_execution_payload m)"
  have ids: "tx_ids b m = map (keccak b) txs"
    using m(1) tx_ids_dehydrated [OF m(2)] by (simp add: tx_ids_def dehydrates_def)
  consider "?h \<in> set (po_block_hashes p)" | "?h \<notin> set (po_block_hashes p)" "min max_blocks 65535 \<le> length (po_block_hashes p)"
    | "?h \<notin> set (po_block_hashes p)" "length (po_block_hashes p) < min max_blocks 65535" by linarith
  then show ?thesis
  proof cases
    case 1
    then have r: "p' = p" "res = Inr \<lparr>ad_base = None, ad_orders_dropped = None\<rparr>"
      using add m(1,5) by (auto simp: pool_add_def dehydrates_def)
    have "set (content ?h) \<subseteq> known p" using sync 1 by (simp add: in_sync_def)
    then have "keccak b ` set txs \<subseteq> known p" using m(4) ids by simp
    then show ?thesis using sync sent r by (auto simp: in_sync_def answered_def)
  next
    case 2
    then have "p' = p" "res = Inl (reject LimitExceeded ''max_blocks'' (Some ?h))"
      using add m(1,5) by (auto simp: pool_add_def dehydrates_def)
    then show ?thesis using sync 2 by (auto simp: in_sync_def answered_def reject_def)
  next
    case 3
    have K: "set (cn_sent_txs (tl_conn t)) \<subseteq> known p" using sync 3 by (auto simp: in_sync_def)
    have d: "mm_slot m = slot" "v3_transactions (mm_execution_payload m) = dehydrated (zip txs (map (keccak b) txs)) (set (cn_sent_txs (tl_conn t)))"
      "list_all (ref_validate (length txs)) (mm_merge_orders m)" using m(1) by (simp_all add: dehydrates_def)
    have a: "merge_pool_ok b p' \<and> known p' = known p \<union> keccak b ` set txs \<and>
        set (po_block_hashes p') \<subseteq> insert ?h (set (po_block_hashes p)) \<and>
        (case res of Inl r \<Rightarrow> re_label r \<in> {''head_mismatch'', ''max_block_orders''}
         | Inr a \<Rightarrow> (ad_base a \<noteq> None \<longleftrightarrow> mm_allow_appending m) \<and> (\<forall>base. ad_base a = Some base \<longrightarrow>
            map (\<lambda>ix. tx_hash (po_txs p' ! ix)) (txs_of p' (ba_txs base)) = map (keccak b) txs))"
      using pool_add_dehydrated [OF _ K m(2,3,5) d 3 add] sync by (auto simp: in_sync_def)
    moreover have "set (content h) \<subseteq> known p'" if "h \<in> set (po_block_hashes p')" for h
    proof (cases "h = ?h")
      case True
      then show ?thesis using a m(4) ids by simp
    next
      case False
      then have "h \<in> set (po_block_hashes p)" using that a by auto
      then show ?thesis using a sync by (auto simp: in_sync_def)
    qed
    ultimately have "in_sync b max_blocks content t' p'"
      using K sent unfolding in_sync_def by auto
    moreover have "answered b p' m res" using a ids by (auto simp: answered_def split: sum.splits)
    ultimately show ?thesis by blast
  qed
qed

lemma forward_all_Cons:
  assumes "forward_all x b inp (ix # ixs) t = Some (u, t', outs)"
  obtains v t1 o1 o2 where "forward_decoded x (wire b) inp ix None t = Some (v, t1, o1)"
    "forward_all x b inp ixs t1 = Some (u, t', o2)" "outs = o1 @ o2"
  using assms by (auto simp: forward_all_def hbind_def split: option.splits)

lemma forward_all_skips:
  assumes "forward_all x b inp ixs t = Some (u, t', outs)" "tl_token t = Some token" "cn_active (tl_conn t)" "tile_ok b t" "fitting b inp ixs"
  shows "skips t \<le> skips t'"
  using assms
proof (induction ixs arbitrary: t outs)
  case Nil
  then show ?case by (simp add: forward_all_def hret_def)
next
  case (Cons ix ixs)
  from Cons.prems(1) obtain v t1 o1 o2 where 1: "forward_decoded x (wire b) inp ix None t = Some (v, t1, o1)"
    "forward_all x b inp ixs t1 = Some (u, t', o2)" by (rule forward_all_Cons)
  have "forwards_one b t t1 (mergeables o1)"
    using Cons.prems by (intro forward_outcome [OF 1(1)]) (auto simp: fitting_def)
  then have "skips t \<le> skips t1" "tl_token t1 = Some token" "cn_active (tl_conn t1)" "tile_ok b t1"
    using Cons.prems by (simp_all add: forwards_one_def kept_def)
  then show ?case using Cons.IH [OF 1(2)] Cons.prems(5) by (simp add: fitting_def)
qed

lemma deliver_all:
  assumes "forward_all x b inp ixs t = Some (u, t', outs)" "skips t' = skips t"
    and "in_sync b max_blocks content t p" "tl_token t = Some token" "cn_active (tl_conn t)" "tile_ok b t" "fitting b inp ixs"
    and "well_sent b content (mergeables outs)"
  shows "list_all2 (\<lambda>m (res, q). answered b q m res) (mergeables outs)
    (deliver b (so_bid_slot (tl_slot t)) parent max_blocks max_orders recv_ns (mergeables outs) p)"
  using assms
proof (induction ixs arbitrary: t p outs)
  case Nil
  then show ?case by (simp add: forward_all_def hret_def)
next
  case (Cons ix ixs)
  from Cons.prems(1) obtain v t1 o1 o2 where 1: "forward_decoded x (wire b) inp ix None t = Some (v, t1, o1)"
    "forward_all x b inp ixs t1 = Some (u, t', o2)" "outs = o1 @ o2" by (rule forward_all_Cons)
  have o: "forwards_one b t t1 (mergeables o1)"
    using Cons.prems by (intro forward_outcome [OF 1(1)]) (auto simp: fitting_def)
  then have k: "skips t \<le> skips t1" "tl_token t1 = Some token" "cn_active (tl_conn t1)" "tile_ok b t1"
    "so_bid_slot (tl_slot t1) = so_bid_slot (tl_slot t)" "fitting b inp ixs"
    using Cons.prems by (simp_all add: forwards_one_def kept_def fitting_def)
  then have s: "skips t1 = skips t" "skips t' = skips t1"
    using forward_all_skips [OF 1(2) k(2-4,6)] Cons.prems(2) by simp_all
  note IH = Cons.IH [OF 1(2) s(2) _ k(2-4,6), unfolded k(5)]
  consider "mergeables o1 = []" "cn_sent_txs (tl_conn t1) = cn_sent_txs (tl_conn t)"
    | txs m where "mergeables o1 = [m]" "list_all (tx_fits b) txs"
      "dehydrates b (set (cn_sent_txs (tl_conn t))) (so_bid_slot (tl_slot t)) txs m"
      "set (cn_sent_txs (tl_conn t1)) = set (cn_sent_txs (tl_conn t)) \<union> keccak b ` set txs"
    using o s(1) by (auto simp: forwards_one_def)
  then show ?case
  proof cases
    case 1
    then show ?thesis using IH [of p] Cons.prems(3,8) \<open>outs = o1 @ o2\<close> by (simp add: in_sync_def)
  next
    case 2
    have len: "length (v3_transactions (mm_execution_payload m)) = length txs"
      using 2(3) arg_cong [OF tx_ids_dehydrated [OF 2(2)], of length] by (simp add: dehydrates_def)
    have w: "length txs \<le> MAX_BLOCK_TXS" "content (v3_block_hash (mm_execution_payload m)) = tx_ids b m"
      "dec_mergeable b (enc_mergeable b m) = Some m" "well_sent b content (mergeables o2)"
      using Cons.prems(8) 1(3) 2(1) len by (simp_all add: well_sent_def)
    obtain res p1 where add: "pool_add b (enc_mergeable b m) recv_ns (so_bid_slot (tl_slot t)) parent max_blocks max_orders p = (res, p1)"
      by fastforce
    note d = deliver_one [OF Cons.prems(3) 2(3,2) w(1-3) 2(4) add]
    show ?thesis using IH [of p1] d w(4) 1(3) 2(1) add by simp
  qed
qed


lemma sample_build:
  "build_block sample_externals (wire sample_builder_env) (sample_fulu h txs)
     \<lparr>m2_allow_appending = True, m2_builder_address = 7, m2_orders = [], m2_tx_codes = []\<rparr> t =
   (let (hs, cache) = hash_txs (wire sample_builder_env) txs (tl_tx_hash_cache t);
        (out, tx_builders, sent, whole, refs) = fold (dehydrate_tx 1) (zip txs hs)
                  ([], so_tx_builders (tl_slot t), cn_sent_txs (tl_conn t), 0, 0);
        root = (case map_of (so_attrs (tl_slot t)) 5 of Some r \<Rightarrow> r | None \<Rightarrow> 0)
    in Some (((sample_message h out)\<lparr>mm_parent_beacon_block_root := root\<rparr>, hs),
         t\<lparr>tl_tx_hash_cache := cache, tl_slot := (tl_slot t)\<lparr>so_tx_builders := tx_builders\<rparr>,
           tl_conn := (tl_conn t)\<lparr>cn_sent_txs := sent\<rparr>,
           tl_stats := (tl_stats t)\<lparr>ts_tx_bytes_sent := ts_tx_bytes_sent (tl_stats t) + whole,
             ts_tx_refs_sent := ts_tx_refs_sent (tl_stats t) + refs\<rparr>\<rparr>, []))"
  by (simp add: build_block_def handler_defs submission_blob_sidecars_def iter_blobs_def sample_fulu_def empty_bundle_def
      sample_dehydrated_def payload_to_v3_def sample_message_def sample_v3_def sample_trace_def Let_def split: prod.splits)

lemma sample_fulu_trace [simp]:
  "bt_slot (sf_message (sample_fulu h txs)) = 7" "bt_block_hash (sf_message (sample_fulu h txs)) = h"
  by (simp_all add: sample_fulu_def sample_trace_def)

lemma sample_env [simp]: "keccak sample_builder_env tx = of_nat (nat_of_le tx)" 
  by (simp add: sample_builder_env_def)

lemma sample_frame [simp]: "length (append_frame [] i (enc_mergeable sample_builder_env (sample_message h txs))) = 2 + length txs"
  by (simp add: append_frame_def frame_header_append_def frame_header_new_def sample_builder_env_def sample_message_def sample_v3_def)

lemma sample_message_simps [simp]: "mm_merge_orders (sample_message h txs) = []" "mm_allow_appending (sample_message h txs)"
  "sample_message h txs\<lparr>mm_parent_beacon_block_root := 0\<rparr> = sample_message h txs"
  by (simp_all add: sample_message_def)

lemma sample_payload:
  "v3_transactions (mm_execution_payload (sample_message h txs)) = txs" "v3_block_hash (mm_execution_payload (sample_message h txs)) = h"
  by (simp_all add: sample_message_def sample_v3_def)

lemma sample_forward:
  "\<exists>t' outs. forward_all sample_externals sample_builder_env sample_slot_input [0, 1] (sample_connected True) = Some ((), t', outs) \<and>
     skips t' = 0 \<and> mergeables outs = [sample_message 100 [[1]], sample_message 101 [fixed_bytes 32 (1 :: B256), [2]]]"
  by (simp add: forward_all_def handler_defs forward_decoded_def sample_slot_input_def sample_input_def sample_connected_def sample_tile_def
      sample_sub_def bid_trace_def signed_bid_trace_def Conn_default_def SlotState_default_def SlotStats_default_def
      forward_mergeable_def forward_signed_def sample_build hash_tx_def dehydrate_tx_def send_block_def over_limits_def saturating_add_def skips_def)


text \<open>What is marked as sent need not have been: a block forwarded between the connection and the builder's
  acknowledgement goes nowhere, and when the acknowledgement makes the relay send the slot again, its
  transactions are sent as hashes only, which the builder cannot resolve.\<close>

lemma sample_refused:
  "deliver sample_builder_env 7 5 10 10 0 [sample_message 100 [fixed_bytes 32 (1 :: B256)]] Pool_default =
     [(Inl (reject InvalidOrder ''invalid_tx'' (Some 100)), Pool_default)]"
proof -
  have "dec_mergeable sample_builder_env (enc_mergeable sample_builder_env (sample_message 100 [fixed_bytes 32 (1 :: B256)])) =
      Some (sample_message 100 [fixed_bytes 32 (1 :: B256)])"
    by (simp add: sample_builder_env_def sample_payload)
  moreover have "mm_slot (sample_message 100 txs) = 7" "v3_parent_hash (mm_execution_payload (sample_message 100 txs)) = 5" for txs
    by (simp_all add: sample_message_def sample_v3_def)
  ultimately show ?thesis
    by (simp add: pool_add_def sample_payload Pool_default_def insert_tx_def MAX_BLOCK_TXS_def Let_def MAX_ORDERS_PER_BLOCK_def
        MAX_TX_BYTES_def)
qed

lemma replay_after_handshake_refused:
  "\<exists>t1 t2 outs. forward_decoded sample_externals (wire sample_builder_env) sample_slot_input 0 None (sample_connected False) = Some ((), t1, []) \<and>
     complete_handshake sample_externals (wire sample_builder_env) sample_slot_input 1 (t1\<lparr>tl_conn := (tl_conn t1)\<lparr>cn_active := True\<rparr>\<rparr>) =
       Some ((), t2, outs) \<and>
     mergeables outs = [sample_message 100 [fixed_bytes 32 (1 :: B256)]] \<and>
     map fst (deliver sample_builder_env 7 5 10 10 0 (mergeables outs) Pool_default) =
       [Inl (reject InvalidOrder ''invalid_tx'' (Some 100))]"
  by (simp add: complete_handshake_def handler_defs forward_decoded_def sample_slot_input_def sample_input_def sample_connected_def sample_tile_def
      sample_sub_def bid_trace_def signed_bid_trace_def Conn_default_def SlotState_default_def SlotStats_default_def
      forward_mergeable_def forward_signed_def sample_build hash_tx_def dehydrate_tx_def send_block_def over_limits_def saturating_add_def map_filter_def mergeables_def
      sample_refused del: deliver.simps)

end
