(* ===== verification/Keccak_Batch.thy ===== *)
theory Keccak_Batch
  imports Byte_Codec
begin

text \<open>
  The batched Keccak-256 of the merge builder (\<open>crates/builder/src/merge/keccak.rs\<close>): eight messages are hashed at
  once, each in one 64-bit lane of 25 vector registers.  The vector instructions are modelled on lists of eight
  words, by the semantics Intel documents for them.  The reference is Keccak-256, written from its specification:
  the step mappings on the state, the rotation offsets and round constants by their generating rules, and
  the sponge with the original padding.
\<close>

unbundle bit_operations_syntax

section \<open>Vector instructions\<close>

type_synonym m512i = "u64 list"

definition setzero :: m512i where "setzero = replicate 8 0"

definition set1_epi64 :: "u64 \<Rightarrow> m512i" where "set1_epi64 w = replicate 8 w"

definition xor_si512 :: "m512i \<Rightarrow> m512i \<Rightarrow> m512i" where
  "xor_si512 u v = map2 (\<lambda>a b. a XOR b) u v"

definition rol_epi64 :: "nat \<Rightarrow> m512i \<Rightarrow> m512i" where
  "rol_epi64 n v = map (word_rotl n) v"

text \<open>The ternary instruction looks each triple of bits up in the table \<open>imm\<close>; a set entry of the table is a
  minterm of the result.\<close>

definition minterm :: "nat \<Rightarrow> u64 \<Rightarrow> u64 \<Rightarrow> u64 \<Rightarrow> u64" where
  "minterm k a b c = (if bit k 2 then a else NOT a) AND (if bit k 1 then b else NOT b) AND (if bit k 0 then c else NOT c)"

definition ternary :: "u8 \<Rightarrow> u64 \<Rightarrow> u64 \<Rightarrow> u64 \<Rightarrow> u64" where
  "ternary imm a b c = fold (\<lambda>k r. if bit imm k then r OR minterm k a b c else r) [0..<8] 0"

definition ternarylogic_epi64 :: "u8 \<Rightarrow> m512i \<Rightarrow> m512i \<Rightarrow> m512i \<Rightarrow> m512i" where
  "ternarylogic_epi64 imm u v w = map (\<lambda>(a, b, c). ternary imm a b c) (zip u (zip v w))"

section \<open>The permutation\<close>

definition RC :: "u64 list" where
  "RC = [0x0000000000000001, 0x0000000000008082, 0x800000000000808a, 0x8000000080008000, 0x000000000000808b,
     0x0000000080000001, 0x8000000080008081, 0x8000000000008009, 0x000000000000008a, 0x0000000000000088,
     0x0000000080008009, 0x000000008000000a, 0x000000008000808b, 0x800000000000008b, 0x8000000000008089,
     0x8000000000008003, 0x8000000000008002, 0x8000000000000080, 0x000000000000800a, 0x800000008000000a,
     0x8000000080008081, 0x8000000000008080, 0x0000000080000001, 0x8000000080008008]"

definition rho_pi_table :: "(nat \<times> nat \<times> nat) list" where
  "rho_pi_table =
     [(0, 0, 0), (1, 10, 1), (2, 20, 62), (3, 5, 28), (4, 15, 27),
      (5, 16, 36), (6, 1, 44), (7, 11, 6), (8, 21, 55), (9, 6, 20),
      (10, 7, 3), (11, 17, 10), (12, 2, 43), (13, 12, 25), (14, 22, 39),
      (15, 23, 41), (16, 8, 45), (17, 18, 15), (18, 3, 21), (19, 13, 8),
      (20, 14, 18), (21, 24, 2), (22, 9, 61), (23, 19, 56), (24, 4, 14)]"

definition column_parity :: "m512i list \<Rightarrow> m512i list" where
  "column_parity a = map (\<lambda>x. ternarylogic_epi64 0x96 (xor_si512 (a ! x) (a ! (x + 5))) (a ! (x + 10))
     (xor_si512 (a ! (x + 15)) (a ! (x + 20)))) [0..<5]"

definition column_effect :: "m512i list \<Rightarrow> m512i list" where
  "column_effect c = map (\<lambda>x. xor_si512 (c ! ((x + 4) mod 5)) (rol_epi64 1 (c ! ((x + 1) mod 5)))) [0..<5]"

definition rho_pi :: "m512i list \<Rightarrow> m512i list \<Rightarrow> m512i list" where
  "rho_pi a d = fold (\<lambda>(i, to, rot) b. b[to := rol_epi64 rot (xor_si512 (a ! i) (d ! (i mod 5)))]) rho_pi_table
     (replicate 25 setzero)"

definition chi :: "m512i list \<Rightarrow> nat \<Rightarrow> m512i list \<Rightarrow> m512i list" where
  "chi b y a = a
     [y := ternarylogic_epi64 0xd2 (b ! y) (b ! (y + 1)) (b ! (y + 2)),
      y + 1 := ternarylogic_epi64 0xd2 (b ! (y + 1)) (b ! (y + 2)) (b ! (y + 3)),
      y + 2 := ternarylogic_epi64 0xd2 (b ! (y + 2)) (b ! (y + 3)) (b ! (y + 4)),
      y + 3 := ternarylogic_epi64 0xd2 (b ! (y + 3)) (b ! (y + 4)) (b ! y),
      y + 4 := ternarylogic_epi64 0xd2 (b ! (y + 4)) (b ! y) (b ! (y + 1))]"

definition permute_round :: "u64 \<Rightarrow> m512i list \<Rightarrow> m512i list" where
  "permute_round rc a =
     (let d = column_effect (column_parity a);
          b = rho_pi a d;
          a1 = fold (chi b) [0, 5, 10, 15, 20] a
      in a1[0 := xor_si512 (a1 ! 0) (set1_epi64 rc)])"

definition permute :: "m512i list \<Rightarrow> m512i list" where
  "permute a = fold permute_round RC a"

section \<open>Hashing eight messages\<close>

definition RATE :: nat where "RATE = 136"
definition WORDS :: nat where "WORDS = 17"

definition word_of :: "bytes \<Rightarrow> nat \<Rightarrow> u64" where
  "word_of bs w = (let rest = drop (8 * w) bs in if 8 \<le> length rest then u64_from_le (take 8 rest) else 0)"

definition blocks_of :: "bytes \<Rightarrow> nat" where
  "blocks_of input = length input div RATE + 1"

definition last_block :: "bytes \<Rightarrow> bytes" where
  "last_block rest =
     (let zeroed = rest @ replicate (RATE - length rest) 0;
          marked = zeroed[length rest := zeroed ! length rest XOR 0x01]
      in marked[RATE - 1 := marked ! (RATE - 1) XOR 0x80])"

definition lane_word :: "nat \<Rightarrow> nat \<Rightarrow> bytes \<Rightarrow> u64" where
  "lane_word b w input =
     (if b \<ge> blocks_of input then 0
      else if b + 1 < blocks_of input then word_of (drop (b * RATE) input) w
      else word_of (last_block (drop (b * RATE) input)) w)"

definition load_words :: "nat \<Rightarrow> bytes list \<Rightarrow> m512i list" where
  "load_words b inputs = map (\<lambda>w. map (lane_word b w) inputs) [0..<WORDS]"

definition absorb_words :: "m512i list \<Rightarrow> m512i list \<Rightarrow> m512i list" where
  "absorb_words a words = map2 xor_si512 (take (length words) a) words @ drop (length words) a"

definition store_digest :: "m512i list \<Rightarrow> nat \<Rightarrow> bytes" where
  "store_digest a l = concat (map (\<lambda>v. u64_to_le (v ! l)) (take 4 a))"

definition hash_block :: "bytes list \<Rightarrow> nat \<Rightarrow> m512i list \<times> bytes list \<Rightarrow> m512i list \<times> bytes list" where
  "hash_block inputs b acc = (case acc of (a, out) \<Rightarrow>
     (let a1 = permute (absorb_words a (load_words b inputs)) in
      (a1, map (\<lambda>l. if blocks_of (inputs ! l) = b + 1 then store_digest a1 l else out ! l) [0..<length out])))"

definition x8_hash :: "bytes list \<Rightarrow> bytes list \<Rightarrow> bytes list" where
  "x8_hash inputs out =
     (let total = fold max (map blocks_of (take (length out) inputs)) 0
      in snd (fold (hash_block inputs) [0..<total] (replicate 25 setzero, out)))"

text \<open>A chunk of one message is hashed by the library's function, and so is everything on a processor without
  the instructions.  A span out of range is the panic \<^const>\<open>None\<close>.\<close>

definition span_input :: "bytes \<Rightarrow> nat \<times> nat \<times> nat \<Rightarrow> bytes option" where
  "span_input bs s = (case s of (_, at, len) \<Rightarrow> if at + len \<le> length bs then Some (slice at (at + len) bs) else None)"

definition hash_chunk :: "(bytes \<Rightarrow> bytes) \<Rightarrow> bytes list \<Rightarrow> bytes list" where
  "hash_chunk keccak_hash inputs =
     (if length inputs = 1 then [keccak_hash (inputs ! 0)]
      else x8_hash (inputs @ replicate (8 - length inputs) []) (replicate (length inputs) (replicate 32 0)))"

function chunks :: "nat \<Rightarrow> 'a list \<Rightarrow> 'a list list" where
  "chunks n xs = (if xs = [] \<or> n = 0 then [] else take n xs # chunks n (drop n xs))"
  by auto
termination by (relation "measure (length \<circ> snd)") auto

declare chunks.simps [simp del]

definition hash_many :: "bool \<Rightarrow> (bytes \<Rightarrow> bytes) \<Rightarrow> bytes \<Rightarrow> (nat \<times> nat \<times> nat) list \<Rightarrow> bytes list option" where
  "hash_many avx512 keccak_hash bs spans =
     (case those (map (span_input bs) spans) of
        None \<Rightarrow> None
      | Some inputs \<Rightarrow>
          Some (if avx512 then concat (map (hash_chunk keccak_hash) (chunks 8 inputs)) else map keccak_hash inputs))"

section \<open>Keccak-256\<close>

text \<open>The state is the list of its 25 lanes, the lane of column \<open>x\<close> and row \<open>y\<close> at \<open>x + 5 * y\<close>.\<close>

definition spec_theta :: "u64 list \<Rightarrow> u64 list" where
  "spec_theta s =
     (let C = (\<lambda>x. s ! x XOR s ! (x + 5) XOR s ! (x + 10) XOR s ! (x + 15) XOR s ! (x + 20));
          D = (\<lambda>x. C ((x + 4) mod 5) XOR word_rotl 1 (C ((x + 1) mod 5)))
      in map (\<lambda>i. s ! i XOR D (i mod 5)) [0..<25])"

text \<open>The offsets are the triangular numbers along the walk \<open>(x, y) \<mapsto> (y, 2x + 3y)\<close> from \<open>(1, 0)\<close>.\<close>

fun rho_walk :: "nat \<Rightarrow> nat \<Rightarrow> nat \<Rightarrow> nat \<Rightarrow> ((nat \<times> nat) \<times> nat) list" where
  "rho_walk 0 t x y = []"
| "rho_walk (Suc n) t x y = ((x, y), (t + 1) * (t + 2) div 2 mod 64) # rho_walk n (t + 1) y ((2 * x + 3 * y) mod 5)"

definition rho_offset :: "nat \<Rightarrow> nat" where
  "rho_offset i = (case map_of (rho_walk 24 0 1 0) (i mod 5, i div 5) of Some r \<Rightarrow> r | None \<Rightarrow> 0)"

definition spec_rho :: "u64 list \<Rightarrow> u64 list" where
  "spec_rho s = map (\<lambda>i. word_rotl (rho_offset i) (s ! i)) [0..<25]"

definition spec_pi :: "u64 list \<Rightarrow> u64 list" where
  "spec_pi s = map (\<lambda>i. s ! ((i mod 5 + 3 * (i div 5)) mod 5 + 5 * (i mod 5))) [0..<25]"

definition spec_chi :: "u64 list \<Rightarrow> u64 list" where
  "spec_chi s = map (\<lambda>i. let row = 5 * (i div 5) in
     s ! i XOR (NOT (s ! ((i + 1) mod 5 + row)) AND s ! ((i + 2) mod 5 + row))) [0..<25]"

definition spec_iota :: "u64 \<Rightarrow> u64 list \<Rightarrow> u64 list" where
  "spec_iota rc s = s[0 := s ! 0 XOR rc]"

text \<open>The round constants come from a linear feedback shift register.\<close>

definition lfsr_step :: "bool list \<Rightarrow> bool list" where
  "lfsr_step r = (let r1 = False # r; top_bit = r1 ! 8 in
     take 8 (r1[0 := r1 ! 0 \<noteq> top_bit, 4 := r1 ! 4 \<noteq> top_bit, 5 := r1 ! 5 \<noteq> top_bit, 6 := r1 ! 6 \<noteq> top_bit]))"

fun lfsr :: "nat \<Rightarrow> bool list" where
  "lfsr 0 = [True, False, False, False, False, False, False, False]"
| "lfsr (Suc t) = lfsr_step (lfsr t)"

definition rc_bit :: "nat \<Rightarrow> bool" where
  "rc_bit t = lfsr (t mod 255) ! 0"

definition spec_rc :: "nat \<Rightarrow> u64" where
  "spec_rc ir = fold (\<lambda>j w. if rc_bit (j + 7 * ir) then w OR push_bit (2 ^ j - 1) 1 else w) [0..<7] 0"

definition keccak_f :: "u64 list \<Rightarrow> u64 list" where
  "keccak_f s = fold (\<lambda>ir s. spec_iota (spec_rc ir) (spec_chi (spec_pi (spec_rho (spec_theta s))))) [0..<24] s"

definition pad :: "bytes \<Rightarrow> bytes" where
  "pad m = (let q = RATE - length m mod RATE in
     m @ (if q = 1 then [0x81] else 0x01 # replicate (q - 2) 0 @ [0x80]))"

definition absorb_block :: "bytes \<Rightarrow> u64 list \<Rightarrow> u64 list" where
  "absorb_block block s = keccak_f (map (\<lambda>i. if i < 17 then s ! i XOR u64_from_le (slice (8 * i) (8 * i + 8) block) else s ! i) [0..<25])"

definition keccak256 :: "bytes \<Rightarrow> bytes" where
  "keccak256 m = concat (map u64_to_le (take 4 (fold absorb_block (chunks RATE (pad m)) (replicate 25 0))))"

section \<open>One round\<close>

definition lane :: "nat \<Rightarrow> m512i list \<Rightarrow> u64 list" where
  "lane l a = map (\<lambda>v. v ! l) a"

definition shaped :: "m512i list \<Rightarrow> bool" where
  "shaped a \<longleftrightarrow> length a = 25 \<and> (\<forall>v \<in> set a. length v = 8)"

fun lfsr_run :: "nat \<Rightarrow> bool list \<Rightarrow> bool list list" where
  "lfsr_run 0 r = []"
| "lfsr_run (Suc n) r = r # lfsr_run n (lfsr_step r)"

definition rc_bits :: "bool list" where
  "rc_bits = [True, False, False, False, False, False, False, False, True, False, True, True, False, False, False, True,
     True, True, True, False, True, False, False, False, False, True, True, True, True, True, True, True, True,
     False, False, True, False, False, False, False, True, False, True, False, False, True, True, True, True, True,
     False, True, False, True, False, True, False, True, True, True, False, False, False, False, False, True, True,
     False, False, False, True, False, True, False, True, True, False, False, True, True, False, False, True,
     False, True, True, True, True, True, True, False, True, True, True, True, False, False, True, True, False,
     True, True, True, False, True, True, True, False, False, True, False, True, False, True, False, False, True,
     False, True, False, False, False, True, False, False, True, False, True, True, False, True, False, False,
     False, True, True, False, False, True, True, True, False, False, True, True, True, True, False, False, False,
     True, True, False, True, True, False, False, False, False, True, False, False, False, True, False, True, True,
     True]"

definition sponge :: "bytes \<Rightarrow> nat \<Rightarrow> u64 list" where
  "sponge m b = fold absorb_block (take b (chunks RATE (pad m))) (replicate 25 0)"

lemma bit_minterm: "bit (minterm k a b c) n \<longleftrightarrow> n < 64 \<and> (bit a n \<longleftrightarrow> bit k 2) \<and> (bit b n \<longleftrightarrow> bit k 1) \<and> (bit c n \<longleftrightarrow> bit k 0)"
  using bit_imp_le_length [of a n] bit_imp_le_length [of b n] bit_imp_le_length [of c n]
  by (auto simp: minterm_def bit_and_iff bit_not_iff)

lemma upt_8: "[0..<8] = [0, 1, 2, 3, 4, 5, 6, 7 :: nat]"
  by (simp add: upt_rec)

lemma ternary_minterms:
  "ternary 0x96 a b c = minterm 1 a b c OR minterm 2 a b c OR minterm 4 a b c OR minterm 7 a b c"
  "ternary 0xd2 a b c = minterm 1 a b c OR minterm 4 a b c OR minterm 6 a b c OR minterm 7 a b c"
  unfolding ternary_def upt_8 by (simp_all add: or.assoc)

lemma ternary_xor: "ternary 0x96 a b c = a XOR b XOR c"
proof (rule bit_word_eqI)
  fix n assume "n < LENGTH(64)"
  then show "bit (ternary 0x96 a b c) n = bit (a XOR b XOR c) n"
    unfolding ternary_minterms bit_or_iff bit_minterm bit_xor_iff by (cases "bit a n"; cases "bit b n"; cases "bit c n") (simp_all add: bit_0)
qed

lemma ternary_chi: "ternary 0xd2 a b c = a XOR (NOT b AND c)"
proof (rule bit_word_eqI)
  fix n assume "n < LENGTH(64)"
  then show "bit (ternary 0xd2 a b c) n = bit (a XOR (NOT b AND c)) n"
    unfolding ternary_minterms bit_or_iff bit_minterm bit_xor_iff bit_and_iff bit_not_iff
    by (cases "bit a n"; cases "bit b n"; cases "bit c n") (simp_all add: bit_0)
qed

lemma vector_lanes [simp]:
  assumes "l < 8"
  shows "length u = 8 \<Longrightarrow> length v = 8 \<Longrightarrow> xor_si512 u v ! l = u ! l XOR v ! l"
    "length u = 8 \<Longrightarrow> rol_epi64 n u ! l = word_rotl n (u ! l)"
    "length u = 8 \<Longrightarrow> length v = 8 \<Longrightarrow> length w = 8 \<Longrightarrow> ternarylogic_epi64 imm u v w ! l = ternary imm (u ! l) (v ! l) (w ! l)"
    "setzero ! l = 0" "set1_epi64 x ! l = x"
  using assms by (simp_all add: xor_si512_def rol_epi64_def ternarylogic_epi64_def setzero_def set1_epi64_def)

lemma vector_lengths [simp]:
  "length u = 8 \<Longrightarrow> length v = 8 \<Longrightarrow> length (xor_si512 u v) = 8"
  "length (rol_epi64 n u) = length u"
  "length u = 8 \<Longrightarrow> length v = 8 \<Longrightarrow> length w = 8 \<Longrightarrow> length (ternarylogic_epi64 imm u v w) = 8"
  "length setzero = 8" "length (set1_epi64 x) = 8"
  by (simp_all add: xor_si512_def rol_epi64_def ternarylogic_epi64_def setzero_def set1_epi64_def)

lemma shaped_nth [simp]: "shaped a \<Longrightarrow> i < 25 \<Longrightarrow> length (a ! i) = 8"
  by (simp add: shaped_def)

lemma lane_nth: "i < length a \<Longrightarrow> lane l a ! i = a ! i ! l"
  by (simp add: lane_def)

lemma rho_walk_numeral:
  "rho_walk (numeral n) t x y = ((x, y), (t + 1) * (t + 2) div 2 mod 64) # rho_walk (pred_numeral n) (t + 1) y ((2 * x + 3 * y) mod 5)"
  by (simp only: numeral_eq_Suc [of n] rho_walk.simps)

lemma rho_walk_table:
  "rho_walk 24 0 1 0 = [((1, 0), 1), ((0, 2), 3), ((2, 1), 6), ((1, 2), 10), ((2, 3), 15), ((3, 3), 21), ((3, 0), 28), ((0, 1), 36),
     ((1, 3), 45), ((3, 1), 55), ((1, 4), 2), ((4, 4), 14), ((4, 0), 27), ((0, 3), 41), ((3, 4), 56), ((4, 3), 8), ((3, 2), 25),
     ((2, 2), 43), ((2, 0), 62), ((0, 4), 18), ((4, 2), 39), ((2, 4), 61), ((4, 1), 20), ((1, 1), 44)]"
  by (simp add: rho_walk_numeral)

lemma rotation_offsets: "map rho_offset [0..<25] = [0, 1, 62, 28, 27, 36, 44, 6, 55, 20, 3, 10, 43, 25, 39, 41, 45, 15, 21, 8, 18, 2, 61, 56, 14]"
  unfolding rho_offset_def rho_walk_table by (simp add: upt_rec)

lemma lfsr_step_eq: "lfsr_step [a, b, c, d, e, f, g, h] = [h, a, b, c, d \<noteq> h, e \<noteq> h, f \<noteq> h, g]"
  by (simp add: lfsr_step_def)

lemma lfsr_run_numeral: "lfsr_run (numeral n) r = r # lfsr_run (pred_numeral n) (lfsr_step r)"
  by (simp only: numeral_eq_Suc [of n] lfsr_run.simps)

lemma lfsr_run_nth: "k < n \<Longrightarrow> lfsr_run n (lfsr t) ! k = lfsr (t + k)"
proof (induction n arbitrary: t k)
  case (Suc n)
  then show ?case using Suc.IH [of "k - 1" "Suc t"] by (cases k) simp_all
qed simp

lemma rc_bits_run: "map (\<lambda>r. r ! 0) (lfsr_run 168 (lfsr 0)) = rc_bits"
  by (simp add: lfsr_run_numeral lfsr_step_eq rc_bits_def)

lemma length_lfsr_run [simp]: "length (lfsr_run n r) = n"
  by (induction n arbitrary: r) simp_all

lemma rc_bit_nth: "t < 168 \<Longrightarrow> rc_bit t = rc_bits ! t"
  using lfsr_run_nth [of t 168 0] by (simp add: rc_bits_run [symmetric] rc_bit_def)

lemma round_constants: "map spec_rc [0..<24] = RC"
  by (simp add: upt_rec spec_rc_def rc_bit_nth RC_def rc_bits_def)

lemma upt_25: "[0..<25] = [0, 1, 2, 3, 4, 5, 6, 7, 8, 9, 10, 11, 12, 13, 14, 15, 16, 17, 18, 19, 20, 21, 22, 23, 24 :: nat]"
  by (simp add: upt_rec)

lemma upt_5: "[0..<5] = [0, 1, 2, 3, 4 :: nat]"
  by (simp add: upt_rec)

lemma replicate_25: "replicate 25 x = [x, x, x, x, x, x, x, x, x, x, x, x, x, x, x, x, x, x, x, x, x, x, x, x, x]"
  by (simp add: numeral_eq_Suc)

lemma rho_pi_eq:
  "rho_pi a d = map (\<lambda>(i, rot). rol_epi64 rot (xor_si512 (a ! i) (d ! (i mod 5))))
     [(0, 0), (6, 44), (12, 43), (18, 21), (24, 14), (3, 28), (9, 20), (10, 3), (16, 45), (22, 61), (1, 1), (7, 6), (13, 25), (19, 8),
      (20, 18), (4, 27), (5, 36), (11, 10), (17, 15), (23, 56), (2, 62), (8, 55), (14, 39), (15, 41), (21, 2)]"
  unfolding rho_pi_def rho_pi_table_def replicate_25 by simp

lemma spec_linear_eq:
  "spec_pi (spec_rho (spec_theta s)) = map (\<lambda>(i, rot). word_rotl rot (spec_theta s ! i))
     [(0, 0), (6, 44), (12, 43), (18, 21), (24, 14), (3, 28), (9, 20), (10, 3), (16, 45), (22, 61), (1, 1), (7, 6), (13, 25), (19, 8),
      (20, 18), (4, 27), (5, 36), (11, 10), (17, 15), (23, 56), (2, 62), (8, 55), (14, 39), (15, 41), (21, 2)]"
  using rotation_offsets unfolding upt_25 spec_pi_def spec_rho_def by simp

lemma column_effect_lane:
  assumes "shaped a" "l < 8" "x < 5"
  shows "column_effect (column_parity a) ! x ! l =
    (let C = (\<lambda>x. lane l a ! x XOR lane l a ! (x + 5) XOR lane l a ! (x + 10) XOR lane l a ! (x + 15) XOR lane l a ! (x + 20))
     in C ((x + 4) mod 5) XOR word_rotl 1 (C ((x + 1) mod 5)))" (is ?A)
    "length (column_effect (column_parity a) ! x) = 8" (is ?B)
proof -
  have len: "length (column_parity a ! i) = 8" if "i < 5" for i
    using that assms(1) by (simp add: column_parity_def)
  have par: "column_parity a ! i ! l = lane l a ! i XOR lane l a ! (i + 5) XOR lane l a ! (i + 10) XOR lane l a ! (i + 15) XOR lane l a ! (i + 20)"
    if "i < 5" for i
    using that assms(1,2) by (simp add: column_parity_def ternary_xor lane_nth shaped_def ac_simps)
  show ?A using assms(2,3) by (simp add: column_effect_def len par Let_def)
  show ?B using assms(3) by (simp add: column_effect_def len)
qed

lemma linear_lane:
  assumes "shaped a" "l < 8"
  shows "lane l (rho_pi a (column_effect (column_parity a))) = spec_pi (spec_rho (spec_theta (lane l a)))"
proof -
  have "rol_epi64 rot (xor_si512 (a ! i) (column_effect (column_parity a) ! (i mod 5))) ! l = word_rotl rot (spec_theta (lane l a) ! i)"
    if "i < 25" for i rot
    using that assms column_effect_lane [OF assms, of "i mod 5"] by (simp add: spec_theta_def lane_nth shaped_def Let_def)
  then have *: "(\<lambda>v. v ! l) (case p of (i, rot) \<Rightarrow> rol_epi64 rot (xor_si512 (a ! i) (column_effect (column_parity a) ! (i mod 5)))) =
      (case p of (i, rot) \<Rightarrow> word_rotl rot (spec_theta (lane l a) ! i))" if "fst p < 25" for p
    using that by (cases p) simp
  show ?thesis
    unfolding rho_pi_eq spec_linear_eq lane_def [of _ "map _ _"] map_map o_def by (rule map_cong [OF refl], rule *) auto
qed

lemma shaped_rho_pi: "shaped a \<Longrightarrow> shaped (rho_pi a (column_effect (column_parity a)))"
  using column_effect_lane(2) [of a 0] unfolding rho_pi_eq by (simp add: shaped_def)

lemma chi_lane:
  assumes "shaped b" "shaped a" "l < 8"
  shows "lane l (fold (chi b) [0, 5, 10, 15, 20] a) = spec_chi (lane l b)" "shaped (fold (chi b) [0, 5, 10, 15, 20] a)"
proof -
  obtain a0 a1 a2 a3 a4 a5 a6 a7 a8 a9 a10 a11 a12 a13 a14 a15 a16 a17 a18 a19 a20 a21 a22 a23 a24 where
    a: "a = [a0, a1, a2, a3, a4, a5, a6, a7, a8, a9, a10, a11, a12, a13, a14, a15, a16, a17, a18, a19, a20, a21, a22, a23, a24]"
    using assms(2) by (auto simp: shaped_def numeral_eq_Suc length_Suc_conv)
  let ?t = "\<lambda>i j k. ternarylogic_epi64 0xd2 (b ! i) (b ! j) (b ! k)"
  have c: "fold (chi b) [0, 5, 10, 15, 20] a = map (\<lambda>(i, j, k). ?t i j k)
     [(0, 1, 2), (1, 2, 3), (2, 3, 4), (3, 4, 0), (4, 0, 1), (5, 6, 7), (6, 7, 8), (7, 8, 9), (8, 9, 5), (9, 5, 6),
      (10, 11, 12), (11, 12, 13), (12, 13, 14), (13, 14, 10), (14, 10, 11), (15, 16, 17), (16, 17, 18), (17, 18, 19), (18, 19, 15), (19, 15, 16),
      (20, 21, 22), (21, 22, 23), (22, 23, 24), (23, 24, 20), (24, 20, 21)]"
    unfolding a chi_def by (simp add: numeral_2_eq_2)
  have len: "length b = 25" using assms(1) by (simp add: shaped_def)
  show "shaped (fold (chi b) [0, 5, 10, 15, 20] a)" unfolding c using assms(1) by (simp add: shaped_def)
  show "lane l (fold (chi b) [0, 5, 10, 15, 20] a) = spec_chi (lane l b)"
    unfolding c spec_chi_def upt_25 lane_def [of _ "map _ _"] using assms(1,3) len by (simp add: ternary_chi lane_nth numeral_2_eq_2)
qed

lemma permute_round_lane:
  assumes "shaped a" "l < 8"
  shows "lane l (permute_round rc a) = spec_iota rc (spec_chi (spec_pi (spec_rho (spec_theta (lane l a)))))" "shaped (permute_round rc a)"
proof -
  let ?b = "rho_pi a (column_effect (column_parity a))"
  let ?c = "fold (chi ?b) [0, 5, 10, 15, 20] a"
  have b: "shaped ?b" by (rule shaped_rho_pi [OF assms(1)])
  note c = chi_lane [OF b assms(1,2)]
  have len: "length (?c ! 0) = 8" "length ?c = 25" using c(2) by (simp_all add: shaped_def)
  have "lane l (permute_round rc a) = (lane l ?c)[0 := lane l ?c ! 0 XOR rc]"
    using assms(2) len by (simp add: permute_round_def Let_def lane_def map_update)
  then show "lane l (permute_round rc a) = spec_iota rc (spec_chi (spec_pi (spec_rho (spec_theta (lane l a)))))"
    using c(1) linear_lane [OF assms] by (simp add: spec_iota_def)
  show "shaped (permute_round rc a)"
    using c(2) len unfolding permute_round_def Let_def shaped_def
    by (auto dest!: set_update_subset_insert [THEN subsetD])
qed

lemma permute_lane:
  assumes "shaped a" "l < 8"
  shows "lane l (permute a) = keccak_f (lane l a)" "shaped (permute a)"
proof -
  have *: "shaped (fold permute_round (map spec_rc rs) a) \<and> lane l (fold permute_round (map spec_rc rs) a) =
      fold (\<lambda>ir s. spec_iota (spec_rc ir) (spec_chi (spec_pi (spec_rho (spec_theta s))))) rs (lane l a)" for rs
    using assms
  proof (induction rs arbitrary: a)
    case (Cons r rs)
    then show ?case using permute_round_lane [of a l "spec_rc r"] Cons.IH [of "permute_round (spec_rc r) a"] by simp
  qed simp
  show "lane l (permute a) = keccak_f (lane l a)" "shaped (permute a)"
    using * [of "[0..<24]"] unfolding round_constants by (simp_all add: permute_def keccak_f_def)
qed

section \<open>Blocks\<close>

lemma chunks_props:
  assumes "0 < n"
  shows "length (chunks n xs) = (length xs + n - 1) div n \<and> (\<forall>b. b * n < length xs \<longrightarrow> chunks n xs ! b = take n (drop (b * n) xs))"
proof (induction "length xs" arbitrary: xs rule: less_induct)
  case less
  show ?case
  proof (cases "xs = []")
    case True
    then show ?thesis using assms by (simp add: chunks.simps)
  next
    case False
    let ?r = "drop n xs"
    have c: "chunks n xs = take n xs # chunks n ?r" using False assms by (subst chunks.simps) simp
    have ih: "length (chunks n ?r) = (length ?r + n - 1) div n"
      "\<And>b. b * n < length ?r \<Longrightarrow> chunks n ?r ! b = take n (drop (b * n) ?r)"
      using less [of ?r] False assms by auto
    have "length (chunks n xs) = (length xs + n - 1) div n"
    proof (cases "n \<le> length xs")
      case True
      then have "length xs + n - 1 = n + (length ?r + n - 1)" using assms by simp
      then have "(length xs + n - 1) div n = Suc ((length ?r + n - 1) div n)" using assms by (simp only: div_add_self1)
      then show ?thesis using c ih(1) by simp
    next
      case f: False
      then have "length xs + n - 1 < 2 * n" "n \<le> length xs + n - 1" using False by (cases xs; simp)+
      then have "(length xs + n - 1) div n = 1" using assms by (simp add: div_nat_eqI)
      then show ?thesis using c f assms by (simp add: chunks.simps)
    qed
    moreover have "chunks n xs ! b = take n (drop (b * n) xs)" if "b * n < length xs" for b
    proof (cases b)
      case (Suc k)
      then have "k * n < length ?r" using that by simp
      then show ?thesis using c ih(2) [of k] Suc by (simp add: add.commute)
    qed (simp add: c)
    ultimately show ?thesis by blast
  qed
qed

lemma last_block_eq:
  assumes "length rest < RATE"
  shows "last_block rest = rest @ (if RATE - length rest = 1 then [0x81] else 0x01 # replicate (RATE - length rest - 2) 0 @ [0x80])"
proof (cases "RATE - length rest = 1")
  case True
  then have "length rest = 135" by (simp add: RATE_def)
  then show ?thesis by (simp add: last_block_def RATE_def Let_def list_update_append nth_append)
next
  case False
  then obtain k where k: "RATE - length rest = Suc (Suc k)" using assms by (metis Suc_diff_Suc Suc_pred diff_is_0_eq' less_numeral_extra(3) linorder_not_less not_less_zero One_nat_def neq0_conv zero_less_diff)
  then have l: "length rest + Suc k = RATE - 1" by (simp add: RATE_def)
  have "rest @ replicate (RATE - length rest) 0 = rest @ 0 # replicate k 0 @ [0 :: u8]"
    by (simp add: k replicate_append_same)
  then show ?thesis
    using k l [symmetric] by (simp add: last_block_def Let_def list_update_append nth_append del: replicate.simps)
qed

lemma pad_eq: "pad m = take (length m div RATE * RATE) m @ last_block (drop (length m div RATE * RATE) m)"
proof -
  have "length (drop (length m div RATE * RATE) m) = length m mod RATE" by (simp add: minus_div_mult_eq_mod)
  moreover have "length m mod RATE < RATE" by (simp add: RATE_def)
  ultimately show ?thesis
    using last_block_eq [of "drop (length m div RATE * RATE) m"] by (simp add: pad_def Let_def del: append_assoc add: append_assoc [symmetric])
qed

lemma length_last_block: "length rest < RATE \<Longrightarrow> length (last_block rest) = RATE"
  by (simp add: last_block_def Let_def)

lemma pad_blocks:
  "length (chunks RATE (pad m)) = blocks_of m"
  "b < blocks_of m \<Longrightarrow> chunks RATE (pad m) ! b =
     (if b + 1 < blocks_of m then take RATE (drop (b * RATE) m) else last_block (drop (b * RATE) m))"
  "b < blocks_of m \<Longrightarrow> length (chunks RATE (pad m) ! b) = RATE"
proof -
  define n where "n = length m div RATE"
  have R: "0 < RATE" by (simp add: RATE_def)
  have whole: "n * RATE \<le> length m" by (simp add: n_def)
  have lb: "length (last_block (drop (n * RATE) m)) = RATE"
    using R by (intro length_last_block) (simp add: n_def minus_div_mult_eq_mod)
  have B: "blocks_of m = n + 1" by (simp add: blocks_of_def n_def)
  have p: "pad m = take (n * RATE) m @ last_block (drop (n * RATE) m)" using pad_eq [of m] by (simp add: n_def)
  have lp: "length (pad m) = n * RATE + RATE" using p lb whole by simp
  note c = chunks_props [OF R, of "pad m"]
  have "(length (pad m) + RATE - 1) div RATE = n + 1" unfolding lp RATE_def by presburger
  then show "length (chunks RATE (pad m)) = blocks_of m" using c B by simp
  assume "b < blocks_of m"
  then have b: "b \<le> n" "b * RATE \<le> n * RATE" using B by simp_all
  have lt: "b * RATE < length (pad m)" using lp b(2) R by linarith
  then have ch: "chunks RATE (pad m) ! b = take RATE (drop (b * RATE) (pad m))" using c by blast
  show "chunks RATE (pad m) ! b = (if b + 1 < blocks_of m then take RATE (drop (b * RATE) m) else last_block (drop (b * RATE) m))"
  proof (cases "b = n")
    case True
    then show ?thesis using ch p lb whole B by simp
  next
    case False
    then have "(b + 1) * RATE \<le> n * RATE" using b(1) by (intro mult_le_mono1) simp
    then have "RATE + b * RATE \<le> n * RATE" by simp
    then show ?thesis using ch p whole B False b by (simp add: take_drop add.commute min_absorb1)
  qed
  have "b * RATE + RATE \<le> length (pad m)" using lp b(2) by linarith
  then show "length (chunks RATE (pad m) ! b) = RATE" using ch by simp
qed

section \<open>The sponge\<close>

lemma word_of_slice: "8 * w + 8 \<le> length bs \<Longrightarrow> word_of bs w = u64_from_le (slice (8 * w) (8 * w + 8) bs)"
  using le_diff_conv2 [of "8 * w" "length bs" 8] by (simp add: word_of_def Let_def slice_def take_drop add.commute)

lemma lane_word_block:
  assumes "b < blocks_of m" "w < WORDS"
  shows "lane_word b w m = u64_from_le (slice (8 * w) (8 * w + 8) (chunks RATE (pad m) ! b))"
proof -
  have w: "8 * w + 8 \<le> RATE" using assms(2) by (simp add: WORDS_def RATE_def)
  have len: "length (chunks RATE (pad m) ! b) = RATE" by (rule pad_blocks(3) [OF assms(1)])
  show ?thesis
  proof (cases "b + 1 < blocks_of m")
    case True
    then have blk: "chunks RATE (pad m) ! b = take RATE (drop (b * RATE) m)" using pad_blocks(2) [OF assms(1)] by simp
    then have "RATE \<le> length (drop (b * RATE) m)" using len by simp
    then show ?thesis
      using True w assms(1) by (simp add: lane_word_def blk word_of_slice slice_def min_absorb1)
  next
    case False
    then have "chunks RATE (pad m) ! b = last_block (drop (b * RATE) m)" using pad_blocks(2) [OF assms(1)] by simp
    then show ?thesis using False w assms(1) len by (simp add: lane_word_def word_of_slice)
  qed
qed

lemma absorb_lane:
  assumes "shaped a" "length inputs = 8" "l < 8" "b < blocks_of (inputs ! l)"
  shows "lane l (permute (absorb_words a (load_words b inputs))) = absorb_block (chunks RATE (pad (inputs ! l)) ! b) (lane l a)"
    and "shaped (permute (absorb_words a (load_words b inputs)))"
proof -
  let ?w = "load_words b inputs"
  have w: "length ?w = 17" "\<And>i. i < 17 \<Longrightarrow> length (?w ! i) = 8" "\<And>i. i < 17 \<Longrightarrow> ?w ! i ! l = lane_word b i (inputs ! l)"
    using assms(2,3) by (simp_all add: load_words_def WORDS_def)
  have len: "length a = 25" using assms(1) by (simp add: shaped_def)
  have nth: "absorb_words a ?w ! i = (if i < 17 then xor_si512 (a ! i) (?w ! i) else a ! i)" if "i < 25" for i
    using that w(1) len by (simp add: absorb_words_def nth_append)
  have la: "length (absorb_words a ?w) = 25" using w(1) len by (simp add: absorb_words_def)
  have sh: "shaped (absorb_words a ?w)"
    unfolding shaped_def all_set_conv_all_nth using la nth w(2) assms(1) by simp
  have "lane l (absorb_words a ?w) ! i = (if i < 17 then lane l a ! i XOR
      u64_from_le (slice (8 * i) (8 * i + 8) (chunks RATE (pad (inputs ! l)) ! b)) else lane l a ! i)" if "i < 25" for i
    using that nth [OF that] la len w(2,3) assms(1,3) lane_word_block [OF assms(4), of i] by (simp add: lane_nth WORDS_def)
  moreover have "length (lane l (absorb_words a ?w)) = 25" using la by (simp add: lane_def)
  ultimately have "lane l (absorb_words a ?w) = map (\<lambda>i. if i < 17 then lane l a ! i XOR
      u64_from_le (slice (8 * i) (8 * i + 8) (chunks RATE (pad (inputs ! l)) ! b)) else lane l a ! i) [0..<25]"
    by (intro nth_equalityI) simp_all
  then show "lane l (permute (absorb_words a ?w)) = absorb_block (chunks RATE (pad (inputs ! l)) ! b) (lane l a)"
    using permute_lane(1) [OF sh assms(3)] by (simp add: absorb_block_def)
  show "shaped (permute (absorb_words a ?w))" using permute_lane(2) [OF sh assms(3)] .
qed

text \<open>Lanes whose message has ended keep being permuted; only the shape of their state matters.\<close>

lemma shaped_step:
  assumes "shaped a" "length inputs = 8"
  shows "shaped (permute (absorb_words a (load_words b inputs)))"
proof -
  have "shaped (absorb_words a (load_words b inputs))"
    using assms by (auto simp: shaped_def absorb_words_def load_words_def WORDS_def set_zip in_set_conv_nth nth_append)
  then show ?thesis by (rule permute_lane(2) [of _ 0]) simp
qed

lemma store_digest_lane: "shaped a \<Longrightarrow> store_digest a l = concat (map u64_to_le (take 4 (lane l a)))"
  by (simp add: store_digest_def lane_def take_map o_def)

lemma hash_blocks:
  assumes "length inputs = 8" "length out \<le> 8"
  shows "case fold (hash_block inputs) [0..<n] (replicate 25 setzero, out) of (a, out') \<Rightarrow>
    shaped a \<and> length out' = length out \<and> (\<forall>l < 8. n \<le> blocks_of (inputs ! l) \<longrightarrow> lane l a = sponge (inputs ! l) n) \<and>
    (\<forall>l < length out. out' ! l = (if blocks_of (inputs ! l) \<le> n then keccak256 (inputs ! l) else out ! l))"
proof (induction n)
  case 0
  have [simp]: "blocks_of m = 0 \<longleftrightarrow> False" for m by (simp add: blocks_of_def)
  show ?case by (auto simp: shaped_def lane_def sponge_def replicate_25)
next
  case (Suc n)
  obtain a out' where f: "fold (hash_block inputs) [0..<n] (replicate 25 setzero, out) = (a, out')" by fastforce
  let ?a = "permute (absorb_words a (load_words n inputs))"
  have ih: "shaped a" "length out' = length out" "\<And>l. l < 8 \<Longrightarrow> n \<le> blocks_of (inputs ! l) \<Longrightarrow> lane l a = sponge (inputs ! l) n"
    "\<And>l. l < length out \<Longrightarrow> out' ! l = (if blocks_of (inputs ! l) \<le> n then keccak256 (inputs ! l) else out ! l)"
    using Suc f by simp_all
  have sh: "shaped ?a" by (rule shaped_step [OF ih(1) assms(1)])
  have sp: "lane l ?a = sponge (inputs ! l) (Suc n)" if "l < 8" "Suc n \<le> blocks_of (inputs ! l)" for l
    using absorb_lane(1) [OF ih(1) assms(1) that(1), of n] ih(3) [OF that(1)] that(2)
    by (simp add: sponge_def take_Suc_conv_app_nth pad_blocks(1))
  have dig: "store_digest ?a l = keccak256 (inputs ! l)" if "l < 8" "blocks_of (inputs ! l) = Suc n" for l
    using sp [of l] that by (simp add: store_digest_lane [OF sh] keccak256_def sponge_def pad_blocks(1) [symmetric])
  have "fold (hash_block inputs) [0..<Suc n] (replicate 25 setzero, out) =
      (?a, map (\<lambda>l. if blocks_of (inputs ! l) = n + 1 then store_digest ?a l else out' ! l) [0..<length out])"
    by (simp add: f hash_block_def Let_def ih(2))
  then show ?case using sh sp dig ih(2,4) assms(2) by auto
qed

lemma x8_hash_eq:
  assumes "length inputs = 8" "length out \<le> 8"
  shows "x8_hash inputs out = map keccak256 (take (length out) inputs)"
proof -
  let ?bs = "map blocks_of (take (length out) inputs)"
  let ?n = "fold max ?bs 0"
  have le: "blocks_of (inputs ! l) \<le> ?n" if "l < length out" for l
  proof -
    have "blocks_of (inputs ! l) \<in> set ?bs" using that assms by (simp add: in_set_conv_nth) (metis min.absorb2 length_take nth_mem nth_take image_eqI)
    then show ?thesis by (metis Max_ge List.finite_set Max.set_eq_fold finite_insert insert_iff list.simps(15))
  qed
  obtain a out' where f: "fold (hash_block inputs) [0..<?n] (replicate 25 setzero, out) = (a, out')" by fastforce
  have "length out' = length out" "\<And>l. l < length out \<Longrightarrow> out' ! l = keccak256 (inputs ! l)"
    using hash_blocks [OF assms, of ?n] f le by auto
  then show ?thesis using f assms by (intro nth_equalityI) (simp_all add: x8_hash_def)
qed

lemma chunks_induct [case_names Nil Step]:
  assumes "P []" "\<And>xs. xs \<noteq> [] \<Longrightarrow> P (drop n xs) \<Longrightarrow> P xs" "0 < n"
  shows "P xs"
proof (induction "length xs" arbitrary: xs rule: less_induct)
  case less
  show ?case
  proof (cases "xs = []")
    case False
    then have "length (drop n xs) < length xs" using assms(3) by simp
    then show ?thesis using less assms(2) [OF False] by blast
  qed (simp add: assms(1))
qed

lemma concat_chunks:
  assumes "\<And>ys. ys \<noteq> [] \<Longrightarrow> length ys \<le> n \<Longrightarrow> g ys = map f ys" "0 < n"
  shows "concat (map g (chunks n xs)) = map f xs"
proof (induction xs rule: chunks_induct [where n = n])
  case (Step xs)
  have "g (take n xs) = map f (take n xs)" using assms Step(1) by simp
  then show ?case
    using Step assms(2) by (subst chunks.simps) (simp, metis append_take_drop_id map_append)
qed (simp_all add: assms(2) chunks.simps)

lemma hash_chunk_eq:
  assumes "\<And>m. keccak_hash m = keccak256 m" "inputs \<noteq> []" "length inputs \<le> 8"
  shows "hash_chunk keccak_hash inputs = map keccak256 inputs"
proof (cases "length inputs = 1")
  case True
  then show ?thesis using assms(1) by (auto simp: hash_chunk_def length_Suc_conv)
next
  case False
  then show ?thesis
    using assms(3) x8_hash_eq [of "inputs @ replicate (8 - length inputs) []" "replicate (length inputs) (replicate 32 0)"]
    by (simp add: hash_chunk_def)
qed

lemma those_map_Some: "(\<And>x. x \<in> set xs \<Longrightarrow> f x = Some (g x)) \<Longrightarrow> those (map f xs) = Some (map g xs)"
  by (induction xs) simp_all

text \<open>C40. The batched hash is Keccak-256: for every list of spans inside the buffer, on a processor with or without the
  vector instructions, the digests are the Keccak-256 hashes of the spans, in order, however the spans differ in
  length and whatever the last batch leaves empty.\<close>

theorem hash_many_is_keccak256:
  assumes "\<And>m. keccak_hash m = keccak256 m"
    and "list_all (\<lambda>(tag, at, len). at + len \<le> length bs) spans"
  shows "hash_many avx512 keccak_hash bs spans = Some (map (\<lambda>(tag, at, len). keccak256 (slice at (at + len) bs)) spans)"
proof -
  let ?inputs = "map (\<lambda>(tag, at, len). slice at (at + len) bs) spans"
  have "those (map (span_input bs) spans) = Some ?inputs"
    using assms(2) by (intro those_map_Some) (auto simp: span_input_def list_all_iff)
  moreover have "concat (map (hash_chunk keccak_hash) (chunks 8 ?inputs)) = map keccak256 ?inputs"
    by (rule concat_chunks) (simp_all add: hash_chunk_eq assms(1))
  moreover have "map keccak_hash ?inputs = map keccak256 ?inputs" using assms(1) by simp
  ultimately show ?thesis by (simp add: hash_many_def o_def case_prod_beta)
qed

theorem hash_many_is_keccak256_witness:
  "hash_many True keccak256 [1, 2, 3] [(0, 0, 1), (1, 1, 2), (2, 3, 0)] = Some [keccak256 [1], keccak256 [2, 3], keccak256 []]"
  using hash_many_is_keccak256 [of keccak256 "[1, 2, 3]" "[(0, 0, 1), (1, 1, 2), (2, 3, 0)]" True] by (simp add: slice_def)

end
