(* ===== verification/Trie_Rlp.thy ===== *)
theory Trie_Rlp
  imports Byte_Codec Keccak_Batch
begin

text \<open>
  The encodings of trie nodes of the merge builder (\<open>crates/builder/src/merge/rlp.rs\<close>): leaves, extensions and
  branches written straight into a buffer, and the batch that collects the encodings of one trie level and
  hashes the long ones together.  The reference is the recursive length prefix of byte strings and lists, and
  the compact form of a nibble path.
\<close>

unbundle bit_operations_syntax

section \<open>Writing nodes\<close>

record NodeRef =
  nr_len :: nat
  nr_data :: bytes

definition NodeRef_default :: NodeRef where
  "NodeRef_default = \<lparr>nr_len = 0, nr_data = replicate 32 0\<rparr>"

definition as_slice :: "NodeRef \<Rightarrow> bytes" where
  "as_slice r = take (nr_len r) (nr_data r)"

definition ref_root :: "(bytes \<Rightarrow> bytes) \<Rightarrow> NodeRef \<Rightarrow> bytes" where
  "ref_root keccak_hash r = (if nr_len r = 32 then nr_data r else keccak_hash (as_slice r))"

text \<open>\<open>len.leading_zeros()\<close> of a 64-bit length.\<close>

function bit_len :: "nat \<Rightarrow> nat" where
  "bit_len n = (if n = 0 then 0 else Suc (bit_len (n div 2)))"
  by auto
termination by (relation "measure (\<lambda>n. n)") auto

declare bit_len.simps [simp del]

definition leading_zeros :: "nat \<Rightarrow> nat" where
  "leading_zeros len = 64 - bit_len len"

definition header_len :: "nat \<Rightarrow> nat" where
  "header_len len = (if len < 56 then 1 else 1 + 8 - leading_zeros len div 8)"

definition put_header :: "bytes \<Rightarrow> u8 \<Rightarrow> nat \<Rightarrow> bytes" where
  "put_header out base len =
     (if len < 56 then out @ [base + of_nat len]
      else (let n = 8 - leading_zeros len div 8 in
        out @ [base + 55 + of_nat n] @ drop (8 - n) (rev (le_of_nat 8 len))))"

definition put_list_header :: "bytes \<Rightarrow> nat \<Rightarrow> bytes" where
  "put_list_header out len = put_header out 0xc0 len"

definition bytes_len :: "bytes \<Rightarrow> nat" where
  "bytes_len bs = (case bs of [b] \<Rightarrow> if b < 0x80 then 1 else header_len (length bs) + length bs
     | _ \<Rightarrow> header_len (length bs) + length bs)"

definition put_bytes :: "bytes \<Rightarrow> bytes \<Rightarrow> bytes" where
  "put_bytes out bs = (case bs of [b] \<Rightarrow> if b < 0x80 then out @ [b] else put_header out 0x80 (length bs) @ bs
     | _ \<Rightarrow> put_header out 0x80 (length bs) @ bs)"

definition compact_len :: "bytes \<Rightarrow> nat" where
  "compact_len path = (let n = length path div 2 + 1 in if n = 1 then 1 else 1 + n)"

fun byte_pairs :: "bytes \<Rightarrow> bytes" where
  "byte_pairs (a # b # rest) = (push_bit 4 a OR b) # byte_pairs rest"
| "byte_pairs _ = []"

definition put_compact :: "bytes \<Rightarrow> bytes \<Rightarrow> bool \<Rightarrow> bytes" where
  "put_compact out path leaf =
     (let flag = 2 * of_bool leaf + of_nat (length path mod 2);
          n = length path div 2 + 1;
          (first, rest) = (if length path mod 2 = 1 then (push_bit 4 flag OR path ! 0, tl path) else (push_bit 4 flag, path))
      in if n = 1 then out @ [first] else out @ [0x80 + of_nat n] @ [first] @ byte_pairs rest)"

definition ref_len :: "NodeRef \<Rightarrow> nat" where
  "ref_len r = (if nr_len r = 32 then 33 else nr_len r)"

definition put_ref :: "bytes \<Rightarrow> NodeRef \<Rightarrow> bytes" where
  "put_ref out r = (if nr_len r = 32 then out @ [0xa0] else out) @ as_slice r"

definition put_leaf :: "bytes \<Rightarrow> bytes \<Rightarrow> bytes \<Rightarrow> bytes" where
  "put_leaf out path value = put_bytes (put_compact (put_list_header out (compact_len path + bytes_len value)) path True) value"

definition put_ext :: "bytes \<Rightarrow> bytes \<Rightarrow> NodeRef \<Rightarrow> bytes" where
  "put_ext out path child = put_ref (put_compact (put_list_header out (compact_len path + ref_len child)) path False) child"

definition put_child :: "NodeRef option \<Rightarrow> bytes \<Rightarrow> bytes" where
  "put_child child out = (case child of Some r \<Rightarrow> put_ref out r | None \<Rightarrow> out @ [0x80])"

definition put_branch :: "bytes \<Rightarrow> NodeRef option list \<Rightarrow> bytes" where
  "put_branch out children =
     (let len = sum_list (map (\<lambda>c. case c of Some r \<Rightarrow> ref_len r | None \<Rightarrow> 1) children)
      in fold put_child children (put_list_header out (len + 1)) @ [0x80])"

section \<open>A level of nodes\<close>

record HashBatch =
  hb_enc :: bytes
  hb_long :: "(nat \<times> nat \<times> nat) list"

definition HashBatch_default :: HashBatch where
  "HashBatch_default = \<lparr>hb_enc = [], hb_long = []\<rparr>"

definition enc_clear :: "HashBatch \<Rightarrow> HashBatch" where
  "enc_clear h = h\<lparr>hb_enc := [], hb_long := []\<rparr>"

text \<open>Offsets and lengths are kept in 32 bits.\<close>

definition enc_push :: "nat \<Rightarrow> nat \<Rightarrow> HashBatch \<Rightarrow> NodeRef option \<times> HashBatch" where
  "enc_push i at h =
     (let len = length (hb_enc h) - at in
      if len \<ge> 32 then (None, h\<lparr>hb_long := hb_long h @ [(i, at mod 2 ^ 32, len mod 2 ^ 32)]\<rparr>)
      else (Some \<lparr>nr_len = len, nr_data = drop at (hb_enc h) @ replicate (32 - len) 0\<rparr>, h\<lparr>hb_enc := take at (hb_enc h)\<rparr>))"

definition enc_hash :: "bool \<Rightarrow> (bytes \<Rightarrow> bytes) \<Rightarrow> HashBatch \<Rightarrow> (nat \<times> NodeRef) list option" where
  "enc_hash avx512 keccak_hash h =
     (let long = sort_key (\<lambda>(_, _, len). len) (hb_long h) in
      map_option (\<lambda>hashes. map2 (\<lambda>(i, _, _) hash. (i, \<lparr>nr_len = 32, nr_data = hash\<rparr>)) long hashes)
        (hash_many avx512 keccak_hash (hb_enc h) long))"

section \<open>Recursive length prefix\<close>

datatype rlp = RBytes bytes | RList "rlp list"

function be_min :: "nat \<Rightarrow> bytes" where
  "be_min n = (if n = 0 then [] else be_min (n div 256) @ [of_nat (n mod 256)])"
  by auto
termination by (relation "measure (\<lambda>n. n)") auto

declare be_min.simps [simp del]

definition rlp_header :: "u8 \<Rightarrow> nat \<Rightarrow> bytes" where
  "rlp_header base len = (if len < 56 then [base + of_nat len] else (base + 55 + of_nat (length (be_min len))) # be_min len)"

fun rlp_encode :: "rlp \<Rightarrow> bytes" where
  "rlp_encode (RBytes bs) = (if length bs = 1 \<and> hd bs < 0x80 then bs else rlp_header 0x80 (length bs) @ bs)"
| "rlp_encode (RList xs) = (let e = concat (map rlp_encode xs) in rlp_header 0xc0 (length e) @ e)"

text \<open>The compact form of a path of nibbles: a flag for leaves and one for odd length in the first nibble.\<close>

definition hex_prefix :: "bytes \<Rightarrow> bool \<Rightarrow> bytes" where
  "hex_prefix path leaf =
     (let flag = (if leaf then 2 else 0) in
      if even (length path) then (16 * flag) # byte_pairs path
      else (16 * (flag + 1) + hd path) # byte_pairs (tl path))"

definition nibbles :: "bytes \<Rightarrow> bool" where
  "nibbles path \<longleftrightarrow> list_all (\<lambda>x. x < 16) path"

text \<open>How a node stands in its parent: itself when its encoding is short, its hash otherwise.\<close>

definition node_of :: "(bytes \<Rightarrow> bytes) \<Rightarrow> rlp \<Rightarrow> rlp" where
  "node_of H t = (if length (rlp_encode t) < 32 then t else RBytes (H (rlp_encode t)))"

definition ref_of :: "(bytes \<Rightarrow> bytes) \<Rightarrow> rlp \<Rightarrow> NodeRef" where
  "ref_of H t = (let e = rlp_encode t in
     if length e < 32 then \<lparr>nr_len = length e, nr_data = e @ replicate (32 - length e) 0\<rparr> else \<lparr>nr_len = 32, nr_data = H e\<rparr>)"

section \<open>Headers\<close>

lemma bit_len_0 [simp]: "bit_len 0 = 0"
  by (simp add: bit_len.simps)

lemma bit_len_pos: "0 < n \<Longrightarrow> bit_len n = Suc (bit_len (n div 2))"
  by (subst bit_len.simps) simp

lemma bit_len_bound: "n < 2 ^ k \<longleftrightarrow> bit_len n \<le> k"
proof (induction k arbitrary: n)
  case 0
  then show ?case by (cases "n = 0") (simp_all add: bit_len_pos)
next
  case (Suc k)
  have "n < 2 ^ Suc k \<longleftrightarrow> n div 2 < 2 ^ k" by auto
  then show ?case using Suc [of "n div 2"] by (cases "n = 0") (simp_all add: bit_len_pos)
qed

lemma bit_len_shift: "2 ^ k \<le> n \<Longrightarrow> bit_len n = k + bit_len (n div 2 ^ k)"
proof (induction k arbitrary: n)
  case (Suc k)
  then have "0 < n" "2 ^ k \<le> n div 2" by (auto simp: Suc_leI intro: order.strict_trans2 [of 0 "2 * 2 ^ k"])
  then show ?case using Suc.IH [of "n div 2"] by (simp add: bit_len_pos div_mult2_eq [symmetric] mult.commute)
qed simp

lemma length_be_min: "length (be_min n) = (bit_len n + 7) div 8"
proof (induction n rule: be_min.induct)
  case (1 n)
  consider "n = 0" | "0 < n" "n < 256" | "256 \<le> n" by linarith
  then show ?case
  proof cases
    case 1
    then show ?thesis by (simp add: be_min.simps)
  next
    case 2
    then have "0 < bit_len n" "bit_len n \<le> 8" using bit_len_bound [of n 8] by (simp_all add: bit_len_pos)
    then have "(bit_len n + 7) div 8 = 1" by linarith
    then show ?thesis using 2 by (subst be_min.simps) (simp add: be_min.simps [of 0])
  next
    case 3
    then have "bit_len n = 8 + bit_len (n div 256)" using bit_len_shift [of 8 n] by simp
    then show ?thesis using 1 3 by (subst be_min.simps) simp
  qed
qed

lemma be_min_le: "n < 256 ^ k \<Longrightarrow> rev (le_of_nat k n) = replicate (k - length (be_min n)) 0 @ be_min n \<and> length (be_min n) \<le> k"
proof (induction k arbitrary: n)
  case 0
  then show ?case by (simp add: be_min.simps)
next
  case (Suc k)
  have "n div 256 < 256 ^ k" using Suc.prems by (simp add: less_mult_imp_div_less mult.commute)
  note ih = Suc.IH [OF this]
  show ?case
  proof (cases "n = 0")
    case True
    then show ?thesis using ih by (simp add: be_min.simps [of 0] replicate_append_same)
  next
    case False
    then have "be_min n = be_min (n div 256) @ [of_nat (n mod 256)]" by (simp add: be_min.simps [of n])
    then show ?thesis using ih by simp
  qed
qed

lemma byte_count:
  assumes "bit_len n \<le> 8 * m"
  shows "m - (8 * m - bit_len n) div 8 = length (be_min n)"
proof -
  define q where "q = (bit_len n + 7) div 8"
  have q: "8 * q \<le> bit_len n + 7" "bit_len n + 7 < 8 * q + 8" by (simp_all add: q_def)
  then have "q \<le> m" using assms by linarith
  then obtain k where k: "m = q + k" using le_Suc_ex by blast
  have "(8 * m - bit_len n) div 8 = k"
  proof (rule div_nat_eqI)
    have "bit_len n \<le> 8 * q" "8 * q \<le> bit_len n + 7" using q by simp_all
    then show "8 * k \<le> 8 * m - bit_len n" "8 * m - bit_len n < 8 * Suc k" unfolding k by auto
  qed
  then show ?thesis using k by (simp add: length_be_min q_def [symmetric])
qed

lemma header_bytes:
  assumes "n < 2 ^ 64"
  shows "8 - leading_zeros n div 8 = length (be_min n)"
  using assms bit_len_bound [of n 64] byte_count [of n 8] by (simp add: leading_zeros_def)

lemma put_header_eq: "len < 2 ^ 64 \<Longrightarrow> put_header out base len = out @ rlp_header base len"
  using be_min_le [of len 8] header_bytes [of len]
  by (simp add: put_header_def rlp_header_def Let_def)

lemma header_len_eq: "len < 2 ^ 64 \<Longrightarrow> header_len len = length (rlp_header base len)"
proof -
  assume a: "len < 2 ^ 64"
  have "1 + 8 - leading_zeros len div 8 = 1 + (8 - leading_zeros len div 8)" by (simp add: leading_zeros_def)
  then show ?thesis using header_bytes [OF a] by (simp add: header_len_def rlp_header_def)
qed

section \<open>Strings and paths\<close>

lemma put_bytes_eq:
  assumes "length bs < 2 ^ 64"
  shows "put_bytes out bs = out @ rlp_encode (RBytes bs)" "bytes_len bs = length (rlp_encode (RBytes bs))"
  using assms by (auto simp: put_bytes_def bytes_len_def put_header_eq header_len_eq [of _ "0x80"] split: list.split)

lemma nibble_or: "x < 16 \<Longrightarrow> push_bit 4 f OR x = 16 * f + (x :: u8)"
proof -
  assume "x < 16"
  then have x: "take_bit 4 x = x" by (simp add: take_bit_eq_mod mod_word_less)
  have "\<not> bit (push_bit 4 f) n \<or> \<not> bit x n" for n
    using x by (metis bit_push_bit_iff bit_take_bit_iff not_le)
  then have "push_bit 4 f OR x = push_bit 4 f + x" by (simp add: disjunctive_add)
  then show ?thesis by (simp add: push_bit_eq_mult mult.commute)
qed

lemma length_byte_pairs: "length (byte_pairs path) = length path div 2"
  by (induction path rule: byte_pairs.induct) simp_all

lemma length_hex_prefix: "length (hex_prefix path leaf) = length path div 2 + 1"
  by (cases path) (auto simp: hex_prefix_def length_byte_pairs Let_def)

lemma put_compact_eq:
  assumes "nibbles path" "length path \<le> 64"
  shows "put_compact out path leaf = out @ rlp_encode (RBytes (hex_prefix path leaf))"
    "compact_len path = length (rlp_encode (RBytes (hex_prefix path leaf)))"
proof -
  have first: "hex_prefix path leaf = (if odd (length path)
      then (push_bit 4 (2 * of_bool leaf + of_nat (length path mod 2)) OR path ! 0) # byte_pairs (tl path)
      else push_bit 4 (2 * of_bool leaf + of_nat (length path mod 2)) # byte_pairs path)"
    using assms(1) nibble_or [of "hd path" 3] nibble_or [of "hd path" 1]
    by (cases path) (auto simp: hex_prefix_def nibbles_def Let_def odd_iff_mod_2_eq_one push_bit_eq_mult even_iff_mod_2_eq_zero)
  have small: "hd (hex_prefix path leaf) < 0x80"
    using assms(1) by (cases path) (auto simp: hex_prefix_def nibbles_def Let_def word_less_nat_alt unat_word_ariths)
  have n: "length path div 2 + 1 < 56" using assms(2) by linarith
  show "compact_len path = length (rlp_encode (RBytes (hex_prefix path leaf)))"
    using small n by (auto simp: compact_len_def length_hex_prefix rlp_header_def Let_def)
  define f where "f = (if odd (length path) then push_bit 4 (2 * of_bool leaf + of_nat (length path mod 2)) OR path ! 0
      else push_bit 4 (2 * of_bool leaf + of_nat (length path mod 2)))"
  define bp where "bp = byte_pairs (if odd (length path) then tl path else path)"
  have hp: "hex_prefix path leaf = f # bp" using first by (simp add: f_def bp_def)
  have len: "length bp = length path div 2" using length_hex_prefix [of path leaf] hp by simp
  have pc: "put_compact out path leaf = (if length path div 2 = 0 then out @ [f] else out @ [0x80 + of_nat (length path div 2 + 1)] @ [f] @ bp)"
    by (simp add: put_compact_def f_def bp_def Let_def odd_iff_mod_2_eq_one del: of_nat_Suc)
  show "put_compact out path leaf = out @ rlp_encode (RBytes (hex_prefix path leaf))"
    using small n len unfolding pc hp by (cases "length path div 2 = 0") (simp_all add: rlp_header_def)
qed

section \<open>Nodes\<close>

lemma length_rlp_encode_pos: "0 < length (rlp_encode t)"
  by (cases t) (auto simp: rlp_header_def Let_def)

lemma put_ref_eq:
  assumes "\<And>e. length (H e) = 32"
  shows "put_ref out (ref_of H t) = out @ rlp_encode (node_of H t)" "ref_len (ref_of H t) = length (rlp_encode (node_of H t))"
    "ref_len (ref_of H t) \<le> 33"
  using assms by (auto simp: put_ref_def ref_of_def node_of_def ref_len_def as_slice_def rlp_header_def Let_def)

lemma ref_root_eq: "ref_root H (ref_of H t) = H (rlp_encode t)"
  by (auto simp: ref_root_def ref_of_def as_slice_def Let_def)

lemma compact_len_bound: "length path \<le> 64 \<Longrightarrow> compact_len path \<le> 34"
  by (auto simp: compact_len_def Let_def)

lemma put_leaf_eq:
  assumes "nibbles path" "length path \<le> 64" "length value < 2 ^ 63"
  shows "put_leaf out path value = out @ rlp_encode (RList [RBytes (hex_prefix path True), RBytes value])"
proof -
  have v: "length value < 2 ^ 64" using assms(3) by simp
  have h: "header_len (length value) \<le> 9" by (simp add: header_len_def)
  have "bytes_len value \<le> 9 + length value" using h by (auto simp: bytes_len_def split: list.split)
  then have "compact_len path + bytes_len value < 2 ^ 64" using assms(3) compact_len_bound [OF assms(2)] by simp
  then show ?thesis
    using put_compact_eq(1) [OF assms(1,2), where leaf = True] put_compact_eq(2) [OF assms(1,2), where leaf = True] put_bytes_eq [OF v]
    by (simp add: put_leaf_def put_list_header_def put_header_eq Let_def del: rlp_encode.simps(1))
qed

lemma put_ext_eq:
  assumes "nibbles path" "length path \<le> 64" "\<And>e. length (H e) = 32"
  shows "put_ext out path (ref_of H t) = out @ rlp_encode (RList [RBytes (hex_prefix path False), node_of H t])"
proof -
  note r = put_ref_eq [where H = H and t = t, OF assms(3)]
  have "compact_len path + ref_len (ref_of H t) < 2 ^ 64" using compact_len_bound [OF assms(2)] r(3) by simp
  then show ?thesis
    using put_compact_eq(1) [OF assms(1,2), where leaf = False] put_compact_eq(2) [OF assms(1,2), where leaf = False] r
    by (simp add: put_ext_def put_list_header_def put_header_eq Let_def del: rlp_encode.simps(1))
qed

lemma put_branch_eq:
  assumes "\<And>e. length (H e) = 32" "length ts = 16"
  shows "put_branch out (map (map_option (ref_of H)) ts) =
    out @ rlp_encode (RList (map (\<lambda>c. case c of Some t \<Rightarrow> node_of H t | None \<Rightarrow> RBytes []) ts @ [RBytes []]))"
proof -
  let ?n = "\<lambda>c. case c of Some t \<Rightarrow> node_of H t | None \<Rightarrow> RBytes []"
  have child: "put_child (map_option (ref_of H) c) out = out @ rlp_encode (?n c)"
    "(case map_option (ref_of H) c of Some r \<Rightarrow> ref_len r | None \<Rightarrow> 1) = length (rlp_encode (?n c))"
    "length (rlp_encode (?n c)) \<le> 33" for c out
    using put_ref_eq [where H = H, OF assms(1)] by (auto simp: put_child_def rlp_header_def simp flip: put_ref_eq(2) [where H = H, OF assms(1)] split: option.split)
  have children: "fold put_child (map (map_option (ref_of H)) cs) out = out @ concat (map (rlp_encode \<circ> ?n) cs)" for cs out
    by (induction cs arbitrary: out) (simp_all add: child(1))
  have len: "sum_list (map (\<lambda>c. case c of Some r \<Rightarrow> ref_len r | None \<Rightarrow> 1) (map (map_option (ref_of H)) cs)) =
      length (concat (map (rlp_encode \<circ> ?n) cs))" for cs
    by (induction cs) (simp_all only: list.map sum_list.Nil sum_list.Cons child(2) concat.simps length_append o_apply list.size)
  have "length (concat (map (rlp_encode \<circ> ?n) cs)) \<le> 33 * length cs" for cs
    using child(3) by (induction cs) (simp_all add: add_mono)
  from this [of ts] have "length (concat (map (rlp_encode \<circ> ?n) ts)) + 1 < 2 ^ 64" unfolding assms(2) by simp
  then show ?thesis
    unfolding put_branch_def Let_def children len put_list_header_def
    by (simp add: put_header_eq rlp_header_def [of "0x80"] Let_def o_def)
qed

end
