(* ===== verification/Spec2Isabelle.thy ===== *)
theory Spec2Isabelle
  imports Bid_Sorter Wire_Header Gloas_Reveal Hydration Simulators Registration Auction_Runs Merging_Protocol Trie_Rlp
begin

text \<open>
  A verification development of Helix, an MEV-boost relay, and of the merge builder that works beside it.  Paths below
  are under \<^verbatim>\<open>src/crates\<close>.

  \<^bold>\<open>The program.\<close>  Builders submit blocks over HTTP or TCP.  A submission is decoded, checked against the slot under
  auction and its proposer, hydrated (transactions and blobs the relay has seen are sent as references), sorted
  by value and sent to a pool of block simulators, before or after it may be served according to the builder's
  collateral.  The proposer of the slot asks for the best header, signs it and asks for the payload.  All of this
  state belongs to one thread, the auctioneer, which takes one event at a time.  Beside it, the block merging tile forwards
  submissions to a merge builder, which appends orders of other builders to a block and sends merged blocks back;
  the registration workers check validator registrations; and the local cache is shared by all of them.

  \<^bold>\<open>How the model reads.\<close>  Machine integers keep their width; hash maps are association lists; a \<open>Result\<close> is a sum whose
  left summand is the error; a panic is the value \<^const>\<open>None\<close>.  Code with many effects is written with the combinators of
  \<open>Effects\<close> (state, sent messages, panic).  Third-party code is a parameter: the record \<open>externals\<close> (SSZ views and
  limits, hashes), \<open>merge_env\<close> and \<open>builder_env\<close> (Keccak, transaction decoding, SSZ codecs of the merging messages), the
  signer, the pairing of the BLS check, the simulators' answers, the bid adjustor.  Clocks, random numbers and the
  contents of the shared vectors are inputs.  Log lines and metrics are left out.

  \<^bold>\<open>Theories.\<close>
  \<^item> \<open>Helix_Prelude\<close>, \<open>Byte_Codec\<close>, \<open>Effects\<close>: types, iterator adaptors, maps, runs of a step function with the locales
    \<open>invariant_machine\<close>, \<open>total_machine\<close> and \<open>keyed_store\<close>; integers as bytes; handlers and their weakest preconditions.
  \<^item> \<open>Helix_Types\<close>, \<open>Auctioneer_Types\<close>, \<open>Api_Errors\<close>: \<^verbatim>\<open>types/src/{bid_submission,execution_payload,blobs,gloas}.rs\<close>,
    \<^verbatim>\<open>relay/src/auctioneer/types.rs\<close>, \<^verbatim>\<open>relay/src/api/{builder,proposer}/error.rs\<close>.
  \<^item> \<open>Merkle\<close>: the batched merkleization of \<^verbatim>\<open>types/src/execution_payload.rs\<close>; both roots equal the SSZ hash tree roots.
  \<^item> \<open>Wire_Header\<close>, \<open>Gloas_Encoding\<close>: \<^verbatim>\<open>tcp-types/src/lib.rs\<close>, \<^verbatim>\<open>types/src/gloas.rs\<close>; round trips, layouts, no access out of range.
  \<^item> \<open>Hydration\<close>: \<^verbatim>\<open>types/src/hydration.rs\<close>; a submission that passes the check hydrates, to what its references say, and no
    sequence of calls panics.
  \<^item> \<open>Bid_Sorter\<close>: \<^verbatim>\<open>relay/src/auctioneer/bid_sorter.rs\<close>; it refines a book of the last bid per builder (locale
    \<open>auction_book\<close>) and serves a maximum.
  \<^item> \<open>Bls_Batch\<close>, \<open>Local_Cache\<close>, \<open>Registration\<close>: signature batches of \<^verbatim>\<open>types/src/gloas.rs\<close>, \<^verbatim>\<open>common/src/local_cache.rs\<close>,
    \<^verbatim>\<open>relay/src/registration/tile.rs\<close> and \<^verbatim>\<open>relay/src/api/proposer/register.rs\<close>; what a batch accepts, and that registrations
    are never rolled back.
  \<^item> \<open>Sim_Request\<close>, \<open>Sim_Entry\<close>, \<open>Simulators\<close>, \<open>Sim_Backlog\<close>: \<^verbatim>\<open>common/src/simulator.rs\<close>, \<^verbatim>\<open>relay/src/simulator\<close>; the circuit
    breaker and the adaptive limit, and that no builder is left waiting for a result.
  \<^item> \<open>Gloas_Reveal\<close>: the payload store and the reveal of an envelope under \<^verbatim>\<open>relay/src/auctioneer\<close>.
  \<^item> \<open>Block_Merger\<close>: \<^verbatim>\<open>relay/src/auctioneer/block_merger.rs\<close>; which merged header is served.
  \<^item> \<open>Auction_Context\<close>, \<open>Validation\<close>, \<open>Submit_Block\<close>, \<open>Proposer_Handlers\<close>, \<open>Auctioneer\<close>: the handlers and the state machine of
    \<^verbatim>\<open>relay/src/auctioneer\<close>.  \<open>Auction_Accounts\<close> and \<open>Auction_Runs\<close> follow what each event is answered over whole runs: every
    request once, at most one payload per slot, no panic, and the loop over finished simulations ends.
  \<^item> \<open>Merge_Orders\<close>, \<open>Merging_Wire\<close>, \<open>Merging_Tile\<close>: \<^verbatim>\<open>types/src/block_merging.rs\<close>, \<^verbatim>\<open>tcp-types/src/merging\<close>,
    \<^verbatim>\<open>relay/src/block_merging\<close>; orders keep their meaning on the way to the merge builder, and what holds of a merged
    block the tile accepts.
  \<^item> \<open>Merge_Pool\<close>: \<^verbatim>\<open>builder/src/merge/pool.rs\<close>; orders are credited to the best block that announced them.
  \<^item> \<open>Merging_Protocol\<close>: tile and pool together; every transaction the relay replaces by its hash resolves at the builder.
  \<^item> \<open>Keccak_Batch\<close>, \<open>Trie_Rlp\<close>: \<^verbatim>\<open>builder/src/merge/{keccak,rlp}.rs\<close>; the eight-lane hash is Keccak-256, and the node writers
    produce the recursive length prefix of leaves, extensions and branches.

  \<^bold>\<open>Bounds and termination.\<close>  No definition takes fuel.  The one loop that may run forever, over the finished simulations
  (\<open>drain\<close> in \<open>Auctioneer\<close>), is a partial function, and it is proved to return: the backlog of \<open>Sim_Backlog\<close> bounds its turns.
  Recursions that are not structural carry termination proofs.

  \<^bold>\<open>Not modelled.\<close>
  \<^item> \<^verbatim>\<open>database\<close>, \<^verbatim>\<open>data-api\<close>, \<^verbatim>\<open>data-gatherer\<close>: statements for a database, web queries over it, uploads; their
    meaning lies in the external service.
  \<^item> \<^verbatim>\<open>common/src/decoder.rs\<close> beyond the parameters it reads: decompression, SSZ and JSON decoding by libraries and derived codecs.
  \<^item> \<^verbatim>\<open>relay/src/housekeeper\<close>, \<^verbatim>\<open>common/src/beacon\<close>, \<^verbatim>\<open>relay/src/network\<close>, \<^verbatim>\<open>relay/src/gossip\<close>, \<^verbatim>\<open>relay/src/tcp_bid_recv\<close>, \<^verbatim>\<open>relay/src/udp_top_bid\<close>:
    tasks around HTTP, event streams and sockets.  Their results reach the model as events.
  \<^item> \<^verbatim>\<open>relay/src/api\<close> beyond the errors and the registration handler: routing, extraction of requests, middleware.
  \<^item> \<^verbatim>\<open>builder/src/merge/{block,state,effects,trie,root,record}.rs\<close> and \<^verbatim>\<open>mod.rs\<close>, \<^verbatim>\<open>builder/src/validation\<close>, \<^verbatim>\<open>builder/src/building\<close>: execution of
    transactions on an external EVM and its state database.
  \<^item> \<^verbatim>\<open>builder/src/merge/{lists,payment}.rs\<close>: the list roots, the split of the revenue and the payment transaction.
  \<^item> \<^verbatim>\<open>operator\<close>: demotions published and received over an external peer-to-peer library.
  \<^item> Configuration files, metrics, alerts, command lines, tests and benchmarks.
\<close>

end
